(* ===== verification/Cron_Prelude.thy ===== *)
theory Cron_Prelude
  imports Main "HOL-Library.Multiset" "HOL-Library.Word" "HOL-Library.Sublist" "HOL-Library.Char_ord"
    "HOL-Library.List_Lexorder"
begin

text \<open>
  Shared vocabulary of the development: Rust's \<open>Result\<close> as a sum type with its
  \<open>?\<close> operator, the fallible loop, association lists ordered by key (the standard
  library's \<open>BTreeMap\<close>) behind a locale that states the map laws, decimal and
  hexadecimal formatting, and the list lemmas the components share.
\<close>

section \<open>Collections of facts\<close>

named_theorems result_simps \<open>how results are taken apart\<close>
named_theorems err_simps \<open>how a result is an error\<close>
named_theorems map_laws \<open>lookup after an update of an ordered map\<close>

section \<open>Machine integers\<close>

type_synonym u8 = "8 word"
type_synonym u16 = "16 word"
type_synonym u32 = "32 word"

section \<open>Results and early returns\<close>

abbreviation Ok :: "'a \<Rightarrow> 'e + 'a" where
  "Ok \<equiv> Inr"

abbreviation Err :: "'e \<Rightarrow> 'e + 'a" where
  "Err \<equiv> Inl"

text \<open>The \<open>?\<close> operator: an error leaves the enclosing function at once.\<close>

definition and_then :: "'e + 'a \<Rightarrow> ('a \<Rightarrow> 'e + 'b) \<Rightarrow> 'e + 'b" where
  "and_then r f = (case r of Err e \<Rightarrow> Err e | Ok a \<Rightarrow> f a)"

definition ok_or :: "'a option \<Rightarrow> 'e \<Rightarrow> 'e + 'a" where
  "ok_or x e = (case x of None \<Rightarrow> Err e | Some a \<Rightarrow> Ok a)"

definition map_err :: "('e \<Rightarrow> 'f) \<Rightarrow> 'e + 'a \<Rightarrow> 'f + 'a" where
  "map_err f r = (case r of Err e \<Rightarrow> Err (f e) | Ok a \<Rightarrow> Ok a)"

text \<open>\<open>if c { return Err(e); }\<close>\<close>

definition guard_err :: "bool \<Rightarrow> 'e \<Rightarrow> 'e + unit" where
  "guard_err c e = (if c then Err e else Ok ())"

text \<open>A \<open>for\<close> loop whose body may return an error.\<close>

fun try_map :: "('a \<Rightarrow> 'e + 'b) \<Rightarrow> 'a list \<Rightarrow> 'e + 'b list" where
  "try_map f [] = Ok []"
| "try_map f (x # xs) =
     and_then (f x) (\<lambda>y. and_then (try_map f xs) (\<lambda>ys. Ok (y # ys)))"

definition is_ok :: "'e + 'a \<Rightarrow> bool" where
  "is_ok r = (case r of Err _ \<Rightarrow> False | Ok _ \<Rightarrow> True)"

definition is_err :: "'e + 'a \<Rightarrow> bool" where
  "is_err r = (case r of Err _ \<Rightarrow> True | Ok _ \<Rightarrow> False)"

definition unwrap_or :: "'a \<Rightarrow> 'a option \<Rightarrow> 'a" where
  "unwrap_or d x = (case x of None \<Rightarrow> d | Some a \<Rightarrow> a)"

section \<open>Ordered maps\<close>

type_synonym 'v btree = "(string \<times> 'v) list"

fun btree_insert :: "string \<Rightarrow> 'v \<Rightarrow> 'v btree \<Rightarrow> 'v btree" where
  "btree_insert k v [] = [(k, v)]"
| "btree_insert k v ((a, b) # m) =
     (if k < a then (k, v) # (a, b) # m
      else if k = a then (k, v) # m
      else (a, b) # btree_insert k v m)"

definition btree_of :: "(string \<times> 'v) list \<Rightarrow> 'v btree" where
  "btree_of kvs = foldl (\<lambda>m (k, v). btree_insert k v m) [] kvs"

definition btree_ok :: "'v btree \<Rightarrow> bool" where
  "btree_ok m \<longleftrightarrow> sorted_wrt (<) (map fst m)"

section \<open>Formatting of numbers\<close>

fun show_nat :: "nat \<Rightarrow> string" where
  "show_nat n =
     (if n < 10 then [char_of (48 + n)] else show_nat (n div 10) @ [char_of (48 + n mod 10)])"

declare show_nat.simps [simp del]

definition show_int :: "int \<Rightarrow> string" where
  "show_int i = (if i < 0 then ''-'' @ show_nat (nat (- i)) else show_nat (nat i))"

definition hex_digit :: "nat \<Rightarrow> char" where
  "hex_digit d = (if d < 10 then char_of (48 + d) else char_of (87 + d))"

definition hex_digit_upper :: "nat \<Rightarrow> char" where
  "hex_digit_upper d = (if d < 10 then char_of (48 + d) else char_of (55 + d))"

section \<open>Lemmas\<close>

subsection \<open>Machine integers\<close>

lemma u32_succ_no_wrap: "(c :: u32) \<noteq> - 1 \<Longrightarrow> unat (c + 1) = unat c + 1"
  by (metis Suc_eq_plus1 add.commute add_eq_0_iff unatSuc)

lemma unat_u32_small: "i < 2147483648 \<Longrightarrow> unat (of_nat i :: u32) = i"
  by (simp add: unsigned_of_nat take_bit_nat_eq_self)

lemma sint_u32_small: "i < 2147483648 \<Longrightarrow> sint (of_nat i :: u32) = int i"
  by (simp add: signed_of_nat signed_take_bit_int_eq_self)

subsection \<open>Results\<close>

lemma and_then_Ok [simp]: "and_then (Ok a) f = f a"
  by (simp add: and_then_def)

lemma and_then_Err [simp]: "and_then (Err e) f = Err e"
  by (simp add: and_then_def)

lemma and_then_eq_Ok [result_simps]:
  "and_then r f = Ok b \<longleftrightarrow> (\<exists>a. r = Ok a \<and> f a = Ok b)"
  by (cases r) auto

lemma and_then_eq_Err [result_simps]:
  "and_then r f = Err e \<longleftrightarrow> r = Err e \<or> (\<exists>a. r = Ok a \<and> f a = Err e)"
  by (cases r) auto

lemma ok_or_simps [simp]: "ok_or None e = Err e" "ok_or (Some a) e = Ok a"
  by (simp_all add: ok_or_def)

lemma ok_or_eq_Ok [result_simps]: "ok_or x e = Ok a \<longleftrightarrow> x = Some a"
  by (cases x) auto

lemma map_err_simps [simp]: "map_err f (Err e) = Err (f e)" "map_err f (Ok a) = Ok a"
  by (simp_all add: map_err_def)

lemma map_err_eq_Ok [result_simps]: "map_err f r = Ok a \<longleftrightarrow> r = Ok a"
  by (cases r) auto

lemma guard_err_simps [simp]: "guard_err True e = Err e" "guard_err False e = Ok ()"
  by (simp_all add: guard_err_def)

lemma guard_err_eq_Ok [result_simps]: "guard_err c e = Ok u \<longleftrightarrow> \<not> c"
  by (cases c) auto

lemma map_err_eq_Err [err_simps]: "map_err f r = Err e \<longleftrightarrow> (\<exists>d. r = Err d \<and> e = f d)"
  by (cases r) auto

lemma ok_or_eq_Err [err_simps]: "ok_or x d = Err e \<longleftrightarrow> x = None \<and> e = d"
  by (cases x) auto

lemma guard_err_eq_Err [err_simps]: "guard_err c d = Err e \<longleftrightarrow> c \<and> e = d"
  by (cases c) auto

lemma is_ok_simps [simp]: "is_ok (Ok a)" "\<not> is_ok (Err e)"
  by (simp_all add: is_ok_def)

lemma is_err_simps [simp]: "is_err (Err e)" "\<not> is_err (Ok a)"
  by (simp_all add: is_err_def)

lemma is_ok_iff: "is_ok r \<longleftrightarrow> (\<exists>a. r = Ok a)"
  by (cases r) auto

lemma is_err_not_ok: "is_err r \<longleftrightarrow> \<not> is_ok r"
  by (cases r) auto

lemma unwrap_or_simps [simp]: "unwrap_or d None = d" "unwrap_or d (Some a) = a"
  by (simp_all add: unwrap_or_def)

lemma try_map_eq_Ok: "try_map f xs = Ok ys \<longleftrightarrow> list_all2 (\<lambda>x y. f x = Ok y) xs ys"
  by (induction xs arbitrary: ys) (auto simp: result_simps list_all2_Cons1)

lemma try_map_all:
  assumes "try_map f xs = Ok ys" and "\<And>x y. x \<in> set xs \<Longrightarrow> f x = Ok y \<Longrightarrow> P y"
  shows "\<forall>y\<in>set ys. P y"
  using assms by (fastforce simp: try_map_eq_Ok list_all2_conv_all_nth in_set_conv_nth)

lemma try_map_Err: "try_map f xs = Err e \<Longrightarrow> \<exists>x\<in>set xs. f x = Err e"
  by (induction xs) (auto simp: result_simps)

lemma try_map_length: "try_map f xs = Ok ys \<Longrightarrow> length ys = length xs"
  by (auto simp: try_map_eq_Ok dest: list_all2_lengthD)

subsection \<open>Ordered maps\<close>

text \<open>
  The map interface the components use: what a lookup returns after an insert, and the
  invariant every insert keeps.
\<close>

locale ordered_map =
  fixes empty_map :: 'm
    and insert_map :: "string \<Rightarrow> 'v \<Rightarrow> 'm \<Rightarrow> 'm"
    and lookup_map :: "'m \<Rightarrow> string \<Rightarrow> 'v option"
    and invar_map :: "'m \<Rightarrow> bool"
  assumes lookup_empty: "lookup_map empty_map k = None"
    and lookup_insert:
      "invar_map m \<Longrightarrow> lookup_map (insert_map k v m) j = (if j = k then Some v else lookup_map m j)"
    and invar_empty: "invar_map empty_map"
    and invar_insert: "invar_map m \<Longrightarrow> invar_map (insert_map k v m)"
begin

definition collect :: "(string \<times> 'v) list \<Rightarrow> 'm" where
  "collect kvs = foldl (\<lambda>m (k, v). insert_map k v m) empty_map kvs"

lemma invar_foldl: "invar_map m \<Longrightarrow> invar_map (foldl (\<lambda>m (k, v). insert_map k v m) m kvs)"
  by (induction kvs arbitrary: m) (auto simp: invar_insert)

lemma invar_collect: "invar_map (collect kvs)"
  by (simp add: collect_def invar_foldl invar_empty)

lemma lookup_foldl:
  assumes "invar_map m"
  shows "lookup_map (foldl (\<lambda>m (k, v). insert_map k v m) m kvs) j =
    (case map_of (rev kvs) j of Some v \<Rightarrow> Some v | None \<Rightarrow> lookup_map m j)"
  using assms
proof (induction kvs arbitrary: m)
  case Nil
  then show ?case by simp
next
  case (Cons kv kvs)
  obtain k v where kv: "kv = (k, v)" by (cases kv)
  from Cons.prems have "invar_map (insert_map k v m)" by (rule invar_insert)
  from Cons.IH [OF this] Cons.prems show ?case
    by (auto simp: kv lookup_insert map_add_def split: option.splits)
qed

text \<open>Collecting pairs keeps the last value of each key.\<close>

lemma lookup_collect: "lookup_map (collect kvs) j = map_of (rev kvs) j"
  by (simp add: collect_def lookup_foldl invar_empty lookup_empty split: option.splits)

end

lemma fst_set_btree_insert: "fst ` set (btree_insert k v m) = insert k (fst ` set m)"
  by (induction k v m rule: btree_insert.induct) auto

lemma btree_ok_insert: "btree_ok m \<Longrightarrow> btree_ok (btree_insert k v m)"
proof (induction k v m rule: btree_insert.induct)
  case (1 k v)
  then show ?case by (simp add: btree_ok_def)
next
  case (2 k v a b m)
  then show ?case
    using fst_set_btree_insert [of k v m]
    by (auto simp: btree_ok_def)
qed

lemma map_of_btree_insert:
  "btree_ok m \<Longrightarrow> map_of (btree_insert k v m) j = (if j = k then Some v else map_of m j)"
  by (induction k v m rule: btree_insert.induct) (auto simp: btree_ok_def)

interpretation bt: ordered_map "[]" btree_insert map_of btree_ok
  by unfold_locales (auto simp: map_of_btree_insert btree_ok_insert btree_ok_def [of "[]"])

lemma btree_of_ok: "btree_ok (btree_of kvs)"
  using bt.invar_collect [of kvs] by (simp add: btree_of_def bt.collect_def)

lemma map_of_btree_of [map_laws]: "map_of (btree_of kvs) j = map_of (rev kvs) j"
  using bt.lookup_collect [of kvs j] by (simp add: btree_of_def bt.collect_def)

lemma btree_ok_distinct: "btree_ok m \<Longrightarrow> distinct (map fst m)"
  by (simp add: btree_ok_def strict_sorted_iff)

subsection \<open>Numbers\<close>

lemma show_nat_nonempty [simp]: "show_nat n \<noteq> []"
  by (subst show_nat.simps) simp

lemma show_nat_digits: "c \<in> set (show_nat n) \<Longrightarrow> of_char c \<in> {48..57::nat}"
proof (induction n rule: show_nat.induct)
  case (1 n)
  then show ?case
    by (subst (asm) (2) show_nat.simps) (auto split: if_splits)
qed

lemma read_show_nat: "foldl (\<lambda>v c. 10 * v + (of_char c - 48)) 0 (show_nat n) = n"
proof (induction n rule: show_nat.induct)
  case (1 n)
  then show ?case by (cases "n < 10") (simp_all add: show_nat.simps [of n])
qed

lemma show_nat_eq_iff [simp]: "show_nat m = show_nat n \<longleftrightarrow> m = n"
  by (metis read_show_nat)

lemma show_nat_length_mono: "m \<le> n \<Longrightarrow> length (show_nat m) \<le> length (show_nat n)"
proof (induction n arbitrary: m rule: show_nat.induct)
  case (1 n)
  show ?case
  proof (cases "n < 10")
    case True
    with "1.prems" show ?thesis by (simp add: show_nat.simps [of n] show_nat.simps [of m])
  next
    case False
    then have "m div 10 \<le> n div 10 \<Longrightarrow> length (show_nat (m div 10)) \<le> length (show_nat (n div 10))"
      by (rule "1.IH")
    with False "1.prems" show ?thesis
      by (auto simp: show_nat.simps [of n] show_nat.simps [of m] div_le_mono)
  qed
qed

subsection \<open>Lists\<close>

lemma takeWhile_append_stop:
  "(\<forall>x\<in>set xs. P x) \<Longrightarrow> \<not> P y \<Longrightarrow> takeWhile P (xs @ y # ys) = xs"
  by (simp add: takeWhile_tail)

lemma dropWhile_append_stop:
  "(\<forall>x\<in>set xs. P x) \<Longrightarrow> \<not> P y \<Longrightarrow> dropWhile P (xs @ y # ys) = y # ys"
  by (induction xs) auto

lemma find_Some_set: "List.find P xs = Some x \<Longrightarrow> x \<in> set xs \<and> P x"
  by (induction xs) (auto split: if_splits)

lemma find_None_all: "List.find P xs = None \<longleftrightarrow> (\<forall>x\<in>set xs. \<not> P x)"
  by (induction xs) auto

end
