(* ===== verification/Rust_Str.thy ===== *)
theory Rust_Str
  imports Cron_Prelude
begin

text \<open>
  Rust's \<open>str\<close> as the sequence of its UTF-8 bytes: a \<^typ>\<open>string\<close> whose elements are
  bytes, with \<open>str_ok\<close> as the type's invariant. \<open>len\<close> is \<^const>\<open>length\<close>; a
  \<open>char\<close> of the program is the byte group of one code point (\<open>chars\<close>). The theory
  models the parts of the standard library the sources call: trimming, splitting,
  searching, ASCII case folding, char boundaries, slices (which panic off a boundary) and
  \<open>String::from_utf8_lossy\<close>.
\<close>

section \<open>Bytes and code points\<close>

abbreviation byte :: "char \<Rightarrow> nat" where
  "byte c \<equiv> of_char c"

definition is_cont :: "char \<Rightarrow> bool" where
  "is_cont c \<longleftrightarrow> 0x80 \<le> byte c \<and> byte c < 0xC0"

definition utf8_width :: "char \<Rightarrow> nat" where
  "utf8_width b =
     (if byte b < 0xC0 then 1 else if byte b < 0xE0 then 2 else if byte b < 0xF0 then 3 else 4)"

fun chars :: "string \<Rightarrow> string list" where
  "chars [] = []"
| "chars (b # bs) = (b # take (utf8_width b - 1) bs) # chars (drop (utf8_width b - 1) bs)"

text \<open>Which second byte may follow a lead byte.\<close>

definition second_ok :: "char \<Rightarrow> char \<Rightarrow> bool" where
  "second_ok a b \<longleftrightarrow> is_cont b \<and>
     (byte a = 0xE0 \<longrightarrow> 0xA0 \<le> byte b) \<and> (byte a = 0xED \<longrightarrow> byte b \<le> 0x9F) \<and>
     (byte a = 0xF0 \<longrightarrow> 0x90 \<le> byte b) \<and> (byte a = 0xF4 \<longrightarrow> byte b \<le> 0x8F)"

fun valid_char :: "string \<Rightarrow> bool" where
  "valid_char [a] = (byte a < 0x80)"
| "valid_char [a, b] = (0xC2 \<le> byte a \<and> byte a \<le> 0xDF \<and> second_ok a b)"
| "valid_char [a, b, c] = (0xE0 \<le> byte a \<and> byte a \<le> 0xEF \<and> second_ok a b \<and> is_cont c)"
| "valid_char [a, b, c, d] =
     (0xF0 \<le> byte a \<and> byte a \<le> 0xF4 \<and> second_ok a b \<and> is_cont c \<and> is_cont d)"
| "valid_char _ = False"

definition str_ok :: "string \<Rightarrow> bool" where
  "str_ok s \<longleftrightarrow> list_all valid_char (chars s)"

definition ascii :: "string \<Rightarrow> bool" where
  "ascii s \<longleftrightarrow> list_all (\<lambda>b. byte b < 0x80) s"

definition is_char_boundary :: "string \<Rightarrow> nat \<Rightarrow> bool" where
  "is_char_boundary s i \<longleftrightarrow>
     i = 0 \<or> i = length s \<or> (i < length s \<and> \<not> is_cont (s ! i))"

text \<open>\<open>&s[..i]\<close> and \<open>&s[i..]\<close>: \<^const>\<open>None\<close> is the panic off a char boundary.\<close>

definition slice_to :: "string \<Rightarrow> nat \<Rightarrow> string option" where
  "slice_to s i = (if is_char_boundary s i then Some (take i s) else None)"

definition slice_from :: "string \<Rightarrow> nat \<Rightarrow> string option" where
  "slice_from s i = (if is_char_boundary s i then Some (drop i s) else None)"

text \<open>The two multi-byte characters the sources' literals contain: an ellipsis and a dash.\<close>

definition ellipsis :: string where
  "ellipsis = [CHR 0xE2, CHR 0x80, CHR 0xA6]"

definition em_dash :: string where
  "em_dash = [CHR 0xE2, CHR 0x80, CHR 0x94]"

definition replacement_char :: string where
  "replacement_char = [CHR 0xEF, CHR 0xBF, CHR 0xBD]"

section \<open>Lossy decoding\<close>

definition lead_width :: "char \<Rightarrow> nat" where
  "lead_width a =
     (if byte a < 0x80 then 1 else if byte a < 0xC2 then 0 else if byte a < 0xE0 then 2
      else if byte a < 0xF0 then 3 else if byte a < 0xF5 then 4 else 0)"

text \<open>
  One step of \<open>from_utf8_lossy\<close>: the next code point with the rest, or the
  replacement character for the longest prefix that could have begun one.
\<close>

fun lossy_step :: "char \<Rightarrow> string \<Rightarrow> string \<times> string" where
  "lossy_step a bs =
     (if lead_width a = 1 then ([a], bs)
      else if lead_width a = 0 then (replacement_char, bs)
      else case bs of
        [] \<Rightarrow> (replacement_char, [])
      | b # bs1 \<Rightarrow>
          if \<not> second_ok a b then (replacement_char, bs)
          else if lead_width a = 2 then ([a, b], bs1)
          else (case bs1 of
            [] \<Rightarrow> (replacement_char, [])
          | c # bs2 \<Rightarrow>
              if \<not> is_cont c then (replacement_char, bs1)
              else if lead_width a = 3 then ([a, b, c], bs2)
              else (case bs2 of
                [] \<Rightarrow> (replacement_char, [])
              | d # bs3 \<Rightarrow>
                  if \<not> is_cont d then (replacement_char, bs2)
                  else ([a, b, c, d], bs3))))"

declare lossy_step.simps [simp del]

lemma lossy_step_shrinks: "length (snd (lossy_step a bs)) \<le> length bs"
  by (auto simp: lossy_step.simps split: list.splits)

function from_utf8_lossy :: "string \<Rightarrow> string" where
  "from_utf8_lossy [] = []"
| "from_utf8_lossy (a # bs) =
     fst (lossy_step a bs) @ from_utf8_lossy (snd (lossy_step a bs))"
  by pat_completeness auto
termination
  by (relation "measure length") (auto simp: le_imp_less_Suc lossy_step_shrinks)

section \<open>ASCII classes and case\<close>

definition is_ascii_upper :: "char \<Rightarrow> bool" where
  "is_ascii_upper c \<longleftrightarrow> 65 \<le> byte c \<and> byte c \<le> 90"

definition is_ascii_lower :: "char \<Rightarrow> bool" where
  "is_ascii_lower c \<longleftrightarrow> 97 \<le> byte c \<and> byte c \<le> 122"

definition is_ascii_digit :: "char \<Rightarrow> bool" where
  "is_ascii_digit c \<longleftrightarrow> 48 \<le> byte c \<and> byte c \<le> 57"

definition is_ascii_alphanumeric :: "char \<Rightarrow> bool" where
  "is_ascii_alphanumeric c \<longleftrightarrow> is_ascii_upper c \<or> is_ascii_lower c \<or> is_ascii_digit c"

definition is_ascii_hexdigit :: "char \<Rightarrow> bool" where
  "is_ascii_hexdigit c \<longleftrightarrow> is_ascii_digit c \<or> (65 \<le> byte c \<and> byte c \<le> 70) \<or>
     (97 \<le> byte c \<and> byte c \<le> 102)"

definition ascii_down :: "char \<Rightarrow> char" where
  "ascii_down c = (if is_ascii_upper c then char_of (byte c + 32) else c)"

definition ascii_up :: "char \<Rightarrow> char" where
  "ascii_up c = (if is_ascii_lower c then char_of (byte c - 32) else c)"

definition to_ascii_lowercase :: "string \<Rightarrow> string" where
  "to_ascii_lowercase s = map ascii_down s"

definition to_ascii_uppercase :: "string \<Rightarrow> string" where
  "to_ascii_uppercase s = map ascii_up s"

definition eq_ignore_ascii_case :: "string \<Rightarrow> string \<Rightarrow> bool" where
  "eq_ignore_ascii_case a b \<longleftrightarrow> to_ascii_lowercase a = to_ascii_lowercase b"

section \<open>Trimming, splitting, searching\<close>

text \<open>\<open>char::is_whitespace\<close>: the code points with the Unicode property White\_Space.\<close>

fun is_whitespace :: "string \<Rightarrow> bool" where
  "is_whitespace [a] = (byte a = 32 \<or> (9 \<le> byte a \<and> byte a \<le> 13))"
| "is_whitespace [a, b] = (byte a = 0xC2 \<and> (byte b = 0x85 \<or> byte b = 0xA0))"
| "is_whitespace [a, b, c] =
     ((byte a = 0xE1 \<and> byte b = 0x9A \<and> byte c = 0x80) \<or>
      (byte a = 0xE2 \<and> byte b = 0x80 \<and>
        ((0x80 \<le> byte c \<and> byte c \<le> 0x8A) \<or> byte c = 0xA8 \<or> byte c = 0xA9 \<or> byte c = 0xAF)) \<or>
      (byte a = 0xE2 \<and> byte b = 0x81 \<and> byte c = 0x9F) \<or>
      (byte a = 0xE3 \<and> byte b = 0x80 \<and> byte c = 0x80))"
| "is_whitespace _ = False"

definition trim_chars :: "string list \<Rightarrow> string list" where
  "trim_chars cs = rev (dropWhile is_whitespace (rev (dropWhile is_whitespace cs)))"

definition trim :: "string \<Rightarrow> string" where
  "trim s = concat (trim_chars (chars s))"

definition trim_end_matches :: "char \<Rightarrow> string \<Rightarrow> string" where
  "trim_end_matches c s = rev (dropWhile (\<lambda>b. b = c) (rev s))"

definition trim_matches :: "char \<Rightarrow> string \<Rightarrow> string" where
  "trim_matches c s = trim_end_matches c (dropWhile (\<lambda>b. b = c) s)"

fun words_of :: "string list \<Rightarrow> string \<Rightarrow> string list" where
  "words_of [] acc = (if acc = [] then [] else [acc])"
| "words_of (c # cs) acc =
     (if is_whitespace c then (if acc = [] then words_of cs [] else acc # words_of cs [])
      else words_of cs (acc @ c))"

definition split_whitespace :: "string \<Rightarrow> string list" where
  "split_whitespace s = words_of (chars s) []"

fun split_on :: "char \<Rightarrow> string \<Rightarrow> string list" where
  "split_on c [] = [[]]"
| "split_on c (b # bs) =
     (if b = c then [] # split_on c bs
      else (case split_on c bs of [] \<Rightarrow> [[b]] | w # ws \<Rightarrow> (b # w) # ws))"

fun find_byte :: "char \<Rightarrow> string \<Rightarrow> nat option" where
  "find_byte c [] = None"
| "find_byte c (b # bs) = (if b = c then Some 0 else map_option Suc (find_byte c bs))"

fun rfind_byte :: "char \<Rightarrow> string \<Rightarrow> nat option" where
  "rfind_byte c [] = None"
| "rfind_byte c (b # bs) =
     (case rfind_byte c bs of Some i \<Rightarrow> Some (Suc i) | None \<Rightarrow> if b = c then Some 0 else None)"

fun find_str :: "string \<Rightarrow> string \<Rightarrow> nat option" where
  "find_str p [] = (if p = [] then Some 0 else None)"
| "find_str p (b # bs) =
     (if prefix p (b # bs) then Some 0 else map_option Suc (find_str p bs))"

fun str_contains :: "string \<Rightarrow> string \<Rightarrow> bool" where
  "str_contains p [] = (p = [])"
| "str_contains p (b # bs) = (prefix p (b # bs) \<or> str_contains p bs)"

definition strip_prefix_str :: "string \<Rightarrow> string \<Rightarrow> string option" where
  "strip_prefix_str p s = (if prefix p s then Some (drop (length p) s) else None)"

fun str_join :: "string \<Rightarrow> string list \<Rightarrow> string" where
  "str_join sep [] = []"
| "str_join sep [w] = w"
| "str_join sep (w # ws) = w @ sep @ str_join sep ws"

definition str_replace :: "char \<Rightarrow> char \<Rightarrow> string \<Rightarrow> string" where
  "str_replace a b s = map (\<lambda>c. if c = a then b else c) s"

text \<open>\<open>str::lines\<close>: split at newlines, drop one trailing \<open>\r\<close>, no final empty line.\<close>

definition chomp_cr :: "string \<Rightarrow> string" where
  "chomp_cr l = (if l \<noteq> [] \<and> last l = CHR 0x0D then butlast l else l)"

definition str_lines :: "string \<Rightarrow> string list" where
  "str_lines s =
     (let ls = split_on (CHR 0x0A) s
      in map chomp_cr (if last ls = [] then butlast ls else ls))"

section \<open>Lemmas\<close>

subsection \<open>Code points\<close>

lemma utf8_width_bounds: "1 \<le> utf8_width b" "utf8_width b \<le> 4"
  by (simp_all add: utf8_width_def)

lemma concat_chars [simp]: "concat (chars s) = s"
  by (induction s rule: chars.induct) simp_all

lemma chars_nonempty: "c \<in> set (chars s) \<Longrightarrow> c \<noteq> []"
  by (induction s rule: chars.induct) auto

lemma chars_length_le: "c \<in> set (chars s) \<Longrightarrow> length c \<le> 4"
proof (induction s rule: chars.induct)
  case 1
  then show ?case by simp
next
  case (2 b bs)
  then show ?case using utf8_width_bounds [of b] by auto
qed

lemma chars_eq_Nil [simp]: "chars s = [] \<longleftrightarrow> s = []"
  by (cases s) auto

lemma valid_char_width:
  "valid_char c \<Longrightarrow> \<exists>a bs. c = a # bs \<and> length bs = utf8_width a - 1 \<and> \<not> is_cont a \<and> list_all is_cont bs"
  by (induction c rule: valid_char.induct)
    (auto simp: utf8_width_def is_cont_def second_ok_def)

lemma chars_valid_append: "valid_char c \<Longrightarrow> chars (c @ s) = c # chars s"
  using valid_char_width [of c] by auto

lemma chars_concat: "list_all valid_char cs \<Longrightarrow> chars (concat cs) = cs"
  by (induction cs) (auto simp: chars_valid_append)

lemma chars_concat_append:
  "list_all valid_char cs \<Longrightarrow> chars (concat cs @ t) = cs @ chars t"
  by (induction cs) (auto simp: chars_valid_append)

lemma chars_append: "str_ok s \<Longrightarrow> chars (s @ t) = chars s @ chars t"
  using chars_concat_append [of "chars s" t] by (simp add: str_ok_def)

lemma str_ok_Nil [simp]: "str_ok []"
  by (simp add: str_ok_def)

lemma str_ok_append: "str_ok s \<Longrightarrow> str_ok (s @ t) \<longleftrightarrow> str_ok t"
  by (simp add: str_ok_def chars_append [unfolded str_ok_def])

lemma str_ok_appendI [intro]: "str_ok s \<Longrightarrow> str_ok t \<Longrightarrow> str_ok (s @ t)"
  by (simp add: str_ok_append)

lemma str_ok_concat: "list_all valid_char cs \<Longrightarrow> str_ok (concat cs)"
  by (simp add: str_ok_def chars_concat)

lemma str_ok_concat_strs: "(\<And>s. s \<in> set ss \<Longrightarrow> str_ok s) \<Longrightarrow> str_ok (concat ss)"
  by (induction ss) auto

lemma str_ok_valid_char: "valid_char c \<Longrightarrow> str_ok c"
  using str_ok_concat [of "[c]"] by simp

lemma str_ok_ascii_Cons: "byte b < 0x80 \<Longrightarrow> str_ok (b # s) \<longleftrightarrow> str_ok s"
  by (simp add: str_ok_def utf8_width_def)

lemma ascii_str_ok: "ascii s \<Longrightarrow> str_ok s"
  by (induction s) (auto simp: ascii_def str_ok_ascii_Cons)

lemma chars_ascii: "ascii s \<Longrightarrow> chars s = map (\<lambda>b. [b]) s"
  by (induction s) (auto simp: ascii_def utf8_width_def)

lemma ascii_not_cont: "ascii s \<Longrightarrow> i < length s \<Longrightarrow> \<not> is_cont (s ! i)"
  by (auto simp: ascii_def is_cont_def list_all_length)

lemma ascii_boundary: "ascii s \<Longrightarrow> i \<le> length s \<Longrightarrow> is_char_boundary s i"
  by (auto simp: is_char_boundary_def ascii_not_cont)

lemma boundary_0 [simp]: "is_char_boundary s 0"
  by (simp add: is_char_boundary_def)

lemma boundary_length [simp]: "is_char_boundary s (length s)"
  by (simp add: is_char_boundary_def)

lemma boundary_le: "is_char_boundary s i \<Longrightarrow> i \<le> length s"
  by (auto simp: is_char_boundary_def)

text \<open>A boundary inside valid text falls between two code points.\<close>

lemma boundary_split:
  assumes "list_all valid_char cs" and "is_char_boundary (concat cs) i"
  shows "\<exists>k. take i (concat cs) = concat (take k cs) \<and> drop i (concat cs) = concat (drop k cs)"
  using assms
proof (induction cs arbitrary: i)
  case Nil
  then show ?case by (simp add: is_char_boundary_def)
next
  case (Cons c cs)
  from Cons.prems(1) obtain a bs where c: "c = a # bs" and bs: "list_all is_cont bs"
    using valid_char_width [of c] by auto
  show ?case
  proof (cases "i < length c")
    case True
    have "i = 0"
    proof (rule ccontr)
      assume "i \<noteq> 0"
      with True c have "concat (c # cs) ! i = bs ! (i - 1)" "i - 1 < length bs"
        by (auto simp: nth_append nth_Cons')
      with bs have "is_cont (concat (c # cs) ! i)" by (simp add: list_all_length)
      with \<open>i \<noteq> 0\<close> True Cons.prems(2) show False by (auto simp: is_char_boundary_def)
    qed
    then show ?thesis by (intro exI [of _ 0]) simp
  next
    case False
    define j where "j = i - length c"
    have i: "i = length c + j" using False by (simp add: j_def)
    from Cons.prems(2) i c have "is_char_boundary (concat cs) j"
      by (auto simp: is_char_boundary_def nth_append)
    with Cons.IH Cons.prems(1) obtain k where
      "take j (concat cs) = concat (take k cs)" "drop j (concat cs) = concat (drop k cs)"
      by auto
    with i show ?thesis by (intro exI [of _ "Suc k"]) simp
  qed
qed

lemma str_ok_take:
  assumes "str_ok s" and "is_char_boundary s i"
  shows "str_ok (take i s)"
proof -
  obtain k where "take i s = concat (take k (chars s))"
    using boundary_split [of "chars s" i] assms by (auto simp: str_ok_def)
  moreover have "list_all valid_char (take k (chars s))"
    using assms(1) by (auto simp: str_ok_def list_all_iff dest: in_set_takeD)
  ultimately show ?thesis by (simp add: str_ok_concat)
qed

lemma str_ok_drop:
  assumes "str_ok s" and "is_char_boundary s i"
  shows "str_ok (drop i s)"
proof -
  obtain k where "drop i s = concat (drop k (chars s))"
    using boundary_split [of "chars s" i] assms by (auto simp: str_ok_def)
  moreover have "list_all valid_char (drop k (chars s))"
    using assms(1) by (auto simp: str_ok_def list_all_iff dest: in_set_dropD)
  ultimately show ?thesis by (simp add: str_ok_concat)
qed

lemma str_ok_ellipsis [simp]: "str_ok ellipsis"
  by (simp add: str_ok_def ellipsis_def utf8_width_def second_ok_def is_cont_def)

lemma str_ok_em_dash [simp]: "str_ok em_dash"
  by (simp add: str_ok_def em_dash_def utf8_width_def second_ok_def is_cont_def)

lemma valid_replacement_char: "valid_char replacement_char"
  by (simp add: replacement_char_def second_ok_def is_cont_def)

subsection \<open>Lossy decoding\<close>

lemma lossy_step_valid: "valid_char (fst (lossy_step a bs))"
  by (auto simp: lossy_step.simps valid_replacement_char lead_width_def split: list.splits if_splits)

lemma from_utf8_lossy_ok: "str_ok (from_utf8_lossy s)"
  by (induction s rule: from_utf8_lossy.induct) (auto intro: str_ok_valid_char lossy_step_valid)

lemma lossy_step_id: "valid_char (a # bs) \<Longrightarrow> lossy_step a (bs @ s) = (a # bs, s)"
  by (induction "a # bs" rule: valid_char.induct)
    (auto simp: lossy_step.simps lead_width_def)

lemma lossy_step_length: "length (fst (lossy_step a bs)) + 3 * length (snd (lossy_step a bs)) \<le> 3 * Suc (length bs)"
  by (auto simp: lossy_step.simps replacement_char_def split: list.splits)

lemma from_utf8_lossy_length: "length (from_utf8_lossy s) \<le> 3 * length s"
proof (induction s rule: from_utf8_lossy.induct)
  case (2 a bs)
  then show ?case using lossy_step_length [of a bs] by simp
qed simp

lemma from_utf8_lossy_concat: "list_all valid_char cs \<Longrightarrow> from_utf8_lossy (concat cs) = concat cs"
proof (induction cs)
  case Nil
  then show ?case by simp
next
  case (Cons c cs)
  then obtain a bs where "c = a # bs" using valid_char_width [of c] by auto
  with Cons show ?case by (simp add: lossy_step_id)
qed

lemma from_utf8_lossy_id: "str_ok s \<Longrightarrow> from_utf8_lossy s = s"
  using from_utf8_lossy_concat [of "chars s"] by (simp add: str_ok_def)

subsection \<open>Searching\<close>

lemma str_contains_iff: "str_contains p s \<longleftrightarrow> sublist p s"
proof (induction s)
  case Nil
  then show ?case by simp
next
  case (Cons b bs)
  then show ?case by (auto simp: sublist_Cons_right)
qed

lemma find_byte_None: "find_byte c s = None \<longleftrightarrow> c \<notin> set s"
  by (induction s) auto

lemma find_byte_Some:
  "find_byte c s = Some i \<Longrightarrow> i < length s \<and> s ! i = c \<and> c \<notin> set (take i s)"
  by (induction s arbitrary: i) (auto split: if_splits)

lemma find_byte_append: "c \<notin> set u \<Longrightarrow> find_byte c (u @ c # v) = Some (length u)"
  by (induction u) auto

lemma rfind_byte_None: "rfind_byte c s = None \<longleftrightarrow> c \<notin> set s"
  by (induction s) (auto split: option.splits)

lemma rfind_byte_append: "c \<notin> set v \<Longrightarrow> rfind_byte c (u @ c # v) = Some (length u)"
  by (induction u) (auto simp: rfind_byte_None split: option.splits)

lemma find_str_append:
  "p \<noteq> [] \<Longrightarrow> hd p \<notin> set u \<Longrightarrow> find_str p (u @ p @ v) = Some (length u)"
proof (induction u)
  case Nil
  then show ?case by (cases p) auto
next
  case (Cons b u)
  then have "\<not> prefix p ((b # u) @ p @ v)" by (cases p) auto
  with Cons show ?case by auto
qed

lemma split_on_nonempty [simp]: "split_on c s \<noteq> []"
  by (induction s) (auto split: list.splits)

lemma sublist_inside: "str_contains w b \<Longrightarrow> sublist w (a @ b @ c)"
  using sublist_order.order_trans [OF _ sublist_appendI] by (auto simp: str_contains_iff)

lemma str_contains_right: "str_contains w b \<Longrightarrow> str_contains w (a @ b)"
  using sublist_inside [of w b a "[]"] by (simp add: str_contains_iff)

lemma split_on_Cons: "c \<notin> set w \<Longrightarrow> split_on c (w @ c # s) = w # split_on c s"
  by (induction w) auto

lemma split_on_whole: "c \<notin> set w \<Longrightarrow> split_on c w = [w]"
  by (induction w) auto

lemma split_on_no_sep: "w \<in> set (split_on c s) \<Longrightarrow> c \<notin> set w"
proof (induction s arbitrary: w)
  case Nil
  then show ?case by simp
next
  case (Cons b s)
  then show ?case by (cases "split_on c s") (auto split: if_splits)
qed

lemma str_join_split_on: "str_join [c] (split_on c s) = s"
proof (induction s)
  case Nil
  then show ?case by simp
next
  case (Cons b s)
  then show ?case
    by (cases "split_on c s"; cases "tl (split_on c s)") (auto simp: neq_Nil_conv)
qed

subsection \<open>Case folding\<close>

lemma byte_char_of [simp]: "n < 256 \<Longrightarrow> byte (char_of n) = n"
  by simp

lemma ascii_down_idem [simp]: "ascii_down (ascii_down c) = ascii_down c"
  by (simp add: ascii_down_def is_ascii_upper_def)

lemma to_ascii_lowercase_idem [simp]:
  "to_ascii_lowercase (to_ascii_lowercase s) = to_ascii_lowercase s"
  by (simp add: to_ascii_lowercase_def)

lemma length_to_ascii_lowercase [simp]: "length (to_ascii_lowercase s) = length s"
  by (simp add: to_ascii_lowercase_def)

lemma to_ascii_lowercase_append:
  "to_ascii_lowercase (s @ t) = to_ascii_lowercase s @ to_ascii_lowercase t"
  by (simp add: to_ascii_lowercase_def)

subsection \<open>Trimming\<close>

lemma set_dropWhile_sub: "set (dropWhile P xs) \<subseteq> set xs"
  by (induction xs) auto

lemma trim_chars_sub: "set (trim_chars cs) \<subseteq> set cs"
  using set_dropWhile_sub [of is_whitespace "rev (dropWhile is_whitespace cs)"]
    set_dropWhile_sub [of is_whitespace cs]
  by (auto simp: trim_chars_def)

lemma trim_chars_ends:
  assumes "trim_chars cs \<noteq> []"
  shows "\<not> is_whitespace (hd (trim_chars cs))" and "\<not> is_whitespace (last (trim_chars cs))"
proof -
  let ?d = "dropWhile is_whitespace cs" and ?e = "dropWhile is_whitespace (rev (dropWhile is_whitespace cs))"
  from assms have e: "?e \<noteq> []" by (simp add: trim_chars_def)
  then have "\<not> is_whitespace (hd ?e)" by (rule hd_dropWhile)
  then show "\<not> is_whitespace (last (trim_chars cs))"
    by (simp add: trim_chars_def last_rev)
  have d: "?d \<noteq> []"
  proof
    assume "?d = []"
    then have "?e = []" by (simp only: rev.simps dropWhile.simps)
    with e show False ..
  qed
  then have hd_d: "\<not> is_whitespace (hd ?d)" by (rule hd_dropWhile)
  obtain p where p: "rev ?d = p @ ?e" by (metis takeWhile_dropWhile_id)
  then have "?d = rev ?e @ rev p" by (metis rev_append rev_rev_ident)
  with e have "hd (rev ?e) = hd ?d" by (metis hd_append rev_is_Nil_conv)
  with hd_d show "\<not> is_whitespace (hd (trim_chars cs))"
    by (simp add: trim_chars_def)
qed

lemma dropWhile_no_hd: "(xs \<noteq> [] \<Longrightarrow> \<not> P (hd xs)) \<Longrightarrow> dropWhile P xs = xs"
  by (cases xs) auto

lemma trim_chars_idem [simp]: "trim_chars (trim_chars cs) = trim_chars cs"
proof -
  have 1: "dropWhile is_whitespace (trim_chars cs) = trim_chars cs"
    by (rule dropWhile_no_hd) (rule trim_chars_ends(1))
  have 2: "dropWhile is_whitespace (rev (trim_chars cs)) = rev (trim_chars cs)"
    by (rule dropWhile_no_hd) (simp add: hd_rev trim_chars_ends(2))
  show ?thesis unfolding trim_chars_def [of "trim_chars cs"] 1 2 by simp
qed

lemma list_all_trim_chars: "list_all P cs \<Longrightarrow> list_all P (trim_chars cs)"
  using trim_chars_sub [of cs] by (auto simp: list_all_iff)

lemma chars_trim: "str_ok s \<Longrightarrow> chars (trim s) = trim_chars (chars s)"
  by (simp add: trim_def chars_concat list_all_trim_chars str_ok_def)

lemma str_ok_trim: "str_ok s \<Longrightarrow> str_ok (trim s)"
  by (simp add: str_ok_def chars_trim list_all_trim_chars)

lemma trim_idem: "str_ok s \<Longrightarrow> trim (trim s) = trim s"
  by (simp add: trim_def [of "trim s"] chars_trim) (simp add: trim_def)

lemma trim_id:
  assumes "chars s \<noteq> [] \<Longrightarrow> \<not> is_whitespace (hd (chars s)) \<and> \<not> is_whitespace (last (chars s))"
  shows "trim s = s"
proof -
  have "dropWhile is_whitespace (chars s) = chars s"
    using assms by (intro dropWhile_no_hd) auto
  moreover have "dropWhile is_whitespace (rev (chars s)) = rev (chars s)"
    using assms by (intro dropWhile_no_hd) (auto simp: hd_rev)
  ultimately show ?thesis by (simp add: trim_def trim_chars_def)
qed

lemma trim_end_matches_last: "trim_end_matches c s \<noteq> [] \<Longrightarrow> last (trim_end_matches c s) \<noteq> c"
proof -
  assume "trim_end_matches c s \<noteq> []"
  then have "dropWhile (\<lambda>b. b = c) (rev s) \<noteq> []" by (simp add: trim_end_matches_def)
  then have "\<not> (hd (dropWhile (\<lambda>b. b = c) (rev s)) = c)" by (rule hd_dropWhile)
  then show ?thesis by (simp add: trim_end_matches_def last_rev)
qed

lemma set_trim_end_matches: "set (trim_end_matches c s) \<subseteq> set s"
  by (auto simp: trim_end_matches_def dest: set_dropWhileD)

lemma trim_end_matches_id: "(s \<noteq> [] \<Longrightarrow> last s \<noteq> c) \<Longrightarrow> trim_end_matches c s = s"
  by (cases s rule: rev_cases) (auto simp: trim_end_matches_def)

lemma set_trim_matches: "set (trim_matches c s) \<subseteq> set s"
  using set_trim_end_matches [of c "dropWhile (\<lambda>b. b = c) s"]
  by (auto simp: trim_matches_def dest: set_dropWhileD)

text \<open>Trimming text of ASCII bytes.\<close>

lemma takeWhile_dropWhile_rev:
  "xs = takeWhile P xs @ rev (dropWhile P (rev (dropWhile P xs))) @ rev (takeWhile P (rev (dropWhile P xs)))"
  by (metis append.assoc rev_append rev_rev_ident takeWhile_dropWhile_id)

definition blank :: "char \<Rightarrow> bool" where
  "blank b \<longleftrightarrow> byte b = 32 \<or> 9 \<le> byte b \<and> byte b \<le> 13"

lemma ws_byte: "is_whitespace [b] \<longleftrightarrow> blank b"
  by (simp add: blank_def)

lemma concat_bytes: "concat (map (\<lambda>b. [b]) t) = t"
  by (induction t) simp_all

lemma drop_bytes:
  "dropWhile is_whitespace (map (\<lambda>b. [b]) t) = map (\<lambda>b. [b]) (dropWhile blank t)"
  "dropWhile (\<lambda>c. \<not> is_whitespace c) (map (\<lambda>b. [b]) t) = map (\<lambda>b. [b]) (dropWhile (\<lambda>b. \<not> blank b) t)"
  "takeWhile (\<lambda>c. \<not> is_whitespace c) (map (\<lambda>b. [b]) t) = map (\<lambda>b. [b]) (takeWhile (\<lambda>b. \<not> blank b) t)"
  by (induction t) (simp_all add: ws_byte del: is_whitespace.simps)

lemma trim_ascii: "ascii s \<Longrightarrow> trim s = rev (dropWhile blank (rev (dropWhile blank s)))"
  by (simp add: trim_def trim_chars_def chars_ascii drop_bytes rev_map concat_bytes del: is_whitespace.simps)

lemma ascii_append [simp]: "ascii (s @ t) \<longleftrightarrow> ascii s \<and> ascii t"
  by (simp add: ascii_def)

lemma trim_split:
  assumes "ascii s"
  obtains w w' where "s = w @ trim s @ w'" "list_all blank w" "list_all blank w'"
    "trim s \<noteq> [] \<Longrightarrow> \<not> blank (hd (trim s)) \<and> \<not> blank (last (trim s))"
proof
  let ?d = "dropWhile blank s"
  have t: "trim s = rev (dropWhile blank (rev ?d))" by (rule trim_ascii [OF assms])
  show "s = takeWhile blank s @ trim s @ rev (takeWhile blank (rev ?d))"
    unfolding t by (rule takeWhile_dropWhile_rev)
  show "list_all blank (takeWhile blank s)" "list_all blank (rev (takeWhile blank (rev ?d)))"
    by (auto simp: list_all_iff dest: set_takeWhileD)
  show "\<not> blank (hd (trim s)) \<and> \<not> blank (last (trim s))" if "trim s \<noteq> []"
  proof
    have ne: "dropWhile blank (rev ?d) \<noteq> []" using that by (simp add: t)
    then show "\<not> blank (last (trim s))" unfolding t by (metis hd_dropWhile last_rev)
    have "?d \<noteq> []" using ne by (metis dropWhile.simps(1) rev.simps(1))
    then have "\<not> blank (hd ?d)" by (rule hd_dropWhile)
    moreover have "?d = trim s @ rev (takeWhile blank (rev ?d))"
      unfolding t by (metis rev_append rev_rev_ident takeWhile_dropWhile_id)
    ultimately show "\<not> blank (hd (trim s))" using that by (metis hd_append2)
  qed
qed

lemma trim_between:
  assumes "ascii t" "list_all blank w" "list_all blank w'" and "t \<noteq> []" "\<not> blank (hd t)" "\<not> blank (last t)"
    and "ascii w" "ascii w'"
  shows "trim (w @ t @ w') = t"
proof -
  have d: "dropWhile blank (w @ t @ w') = t @ w'"
    using assms(2,4,5) by (cases t) (simp_all add: dropWhile_append2 list_all_iff)
  have "dropWhile blank (rev w' @ rev t) = rev t"
    using assms(3,4,6) by (cases t rule: rev_cases) (simp_all add: dropWhile_append3 list_all_iff)
  with d assms(1,7,8) show ?thesis by (simp add: trim_ascii)
qed

end
