(* ===== verification/Errors.thy ===== *)
theory Errors
  imports Rust_Str
begin

text \<open>
  \<open>src/error.rs\<close>: every failure the program surfaces, its HTTP status, its machine
  readable code, its \<open>Display\<close> text and the JSON body \<open>IntoResponse\<close> renders.
  Errors of the standard library and of third-party crates appear as the text they
  display; an I/O error keeps the kind the shell executor asks for.
\<close>

section \<open>JSON values\<close>

datatype json =
    JNull
  | JBool bool
  | JNum int
  | JStr string
  | JArr "json list"
  | JObj "(string \<times> json) list"

fun json_field :: "string \<Rightarrow> json \<Rightarrow> json option" where
  "json_field k (JObj kvs) = map_of kvs k"
| "json_field k _ = None"

section \<open>Errors\<close>

datatype io_kind = ExecutableFileBusy | OtherKind

datatype io_error = IoError io_kind string

fun io_kind_of :: "io_error \<Rightarrow> io_kind" where
  "io_kind_of (IoError k m) = k"

fun io_message :: "io_error \<Rightarrow> string" where
  "io_message (IoError k m) = m"

datatype CronManagerError =
    JobNotFound string string
  | JobAlreadyRunning string string
  | InvalidJobDefinition string string
  | InvalidConfig string string
  | InvalidCron string string
  | RequestTooLarge nat
  | TooManyQueryParams nat nat
  | Unauthorized
  | Forbidden string
  | TooManyRequests nat
  | BadRequest string
  | UpstreamHttpError nat string
  | UpstreamTimeout nat
  | UpstreamBodyTooLarge nat
  | ShellFailed string
  | ShellTimeout nat
  | Io io_error
  | YamlParse string string
  | Database string
  | Internal string

fun status :: "CronManagerError \<Rightarrow> nat" where
  "status (JobNotFound _ _) = 404"
| "status (JobAlreadyRunning _ _) = 409"
| "status (InvalidJobDefinition _ _) = 400"
| "status (InvalidConfig _ _) = 400"
| "status (InvalidCron _ _) = 400"
| "status (BadRequest _) = 400"
| "status Unauthorized = 401"
| "status (Forbidden _) = 403"
| "status (TooManyRequests _) = 429"
| "status (RequestTooLarge _) = 413"
| "status (TooManyQueryParams _ _) = 413"
| "status (UpstreamHttpError _ _) = 502"
| "status (UpstreamBodyTooLarge _) = 502"
| "status (UpstreamTimeout _) = 504"
| "status (ShellFailed _) = 500"
| "status (ShellTimeout _) = 500"
| "status (Io _) = 500"
| "status (YamlParse _ _) = 500"
| "status (Database _) = 500"
| "status (Internal _) = 500"

fun code :: "CronManagerError \<Rightarrow> string" where
  "code (JobNotFound _ _) = ''job_not_found''"
| "code (JobAlreadyRunning _ _) = ''job_already_running''"
| "code (InvalidJobDefinition _ _) = ''invalid_job_definition''"
| "code (InvalidConfig _ _) = ''invalid_config''"
| "code (InvalidCron _ _) = ''invalid_cron''"
| "code (RequestTooLarge _) = ''request_too_large''"
| "code (TooManyQueryParams _ _) = ''too_many_query_params''"
| "code Unauthorized = ''unauthorized''"
| "code (Forbidden _) = ''forbidden''"
| "code (TooManyRequests _) = ''too_many_requests''"
| "code (BadRequest _) = ''bad_request''"
| "code (UpstreamHttpError _ _) = ''upstream_http_error''"
| "code (UpstreamTimeout _) = ''upstream_timeout''"
| "code (UpstreamBodyTooLarge _) = ''upstream_body_too_large''"
| "code (ShellFailed _) = ''shell_failed''"
| "code (ShellTimeout _) = ''shell_timeout''"
| "code (Io _) = ''io_error''"
| "code (YamlParse _ _) = ''yaml_parse_error''"
| "code (Database _) = ''database_error''"
| "code (Internal _) = ''internal_error''"

text \<open>The \<open>Display\<close> text derived from the \<open>#[error(...)]\<close> attributes.\<close>

fun to_string :: "CronManagerError \<Rightarrow> string" where
  "to_string (JobNotFound g n) = ''job not found: '' @ g @ ''/'' @ n"
| "to_string (JobAlreadyRunning g n) = ''job already running: '' @ g @ ''/'' @ n"
| "to_string (InvalidJobDefinition p r) = ''invalid job definition '' @ p @ '': '' @ r"
| "to_string (InvalidConfig p r) = ''invalid config file '' @ p @ '': '' @ r"
| "to_string (InvalidCron x r) = ''invalid cron expression '' @ [CHR 0x27] @ x @ [CHR 0x27] @ '': '' @ r"
| "to_string (RequestTooLarge l) = ''request body exceeds '' @ show_nat l @ '' bytes''"
| "to_string (TooManyQueryParams c l) =
     ''too many query parameters: '' @ show_nat c @ '' exceeds cap '' @ show_nat l"
| "to_string Unauthorized = ''missing or invalid admin bearer token''"
| "to_string (Forbidden m) = ''forbidden: '' @ m"
| "to_string (TooManyRequests r) = ''too many requests: '' @ show_nat r @ ''s minimum interval''"
| "to_string (BadRequest m) = ''bad request: '' @ m"
| "to_string (UpstreamHttpError s b) = ''upstream HTTP error '' @ show_nat s @ '': '' @ b"
| "to_string (UpstreamTimeout s) = ''upstream request timed out after '' @ show_nat s @ ''s''"
| "to_string (UpstreamBodyTooLarge l) = ''upstream response exceeds '' @ show_nat l @ '' bytes''"
| "to_string (ShellFailed m) = ''shell command exited non-zero: '' @ m"
| "to_string (ShellTimeout s) = ''shell command exceeded '' @ show_nat s @ ''s wall clock''"
| "to_string (Io e) = ''io error: '' @ io_message e"
| "to_string (YamlParse p e) = ''yaml parse error at '' @ p @ '': '' @ e"
| "to_string (Database m) = ''database error: '' @ m"
| "to_string (Internal m) = ''internal error: '' @ m"

text \<open>Status and JSON body of the response an error turns into.\<close>

definition into_response :: "CronManagerError \<Rightarrow> nat \<times> json" where
  "into_response e =
     (status e,
      JObj ([(''error'', JStr (code e)), (''message'', JStr (to_string e))] @
        (case e of
           RequestTooLarge l \<Rightarrow> [(''limit'', JNum (int l))]
         | UpstreamBodyTooLarge l \<Rightarrow> [(''limit'', JNum (int l))]
         | TooManyQueryParams c l \<Rightarrow> [(''count'', JNum (int c)), (''limit'', JNum (int l))]
         | TooManyRequests r \<Rightarrow> [(''retry_after_secs'', JNum (int r))]
         | _ \<Rightarrow> [])))"

section \<open>Lemmas\<close>

text \<open>The code of an error determines its status, so a client may dispatch on either.\<close>

lemma code_determines_status: "code e = code e' \<Longrightarrow> status e = status e'"
  by (cases e; cases e') simp_all

lemma status_is_error: "400 \<le> status e \<and> status e < 600"
  by (cases e) simp_all

end
