(* ===== verification/Dsl.thy ===== *)
theory Dsl
  imports Errors
begin

text \<open>
  \<open>src/dsl/mod.rs\<close>: the data the loader produces and the scheduler and executors
  consume. Retry counts keep their 32 bits; epoch milliseconds (\<open>i64\<close>, only compared)
  are integers and durations are milliseconds.
\<close>

section \<open>Job data\<close>

record JobKey =
  group :: string
  name :: string

definition job_key :: "string \<Rightarrow> string \<Rightarrow> JobKey" where
  "job_key g n = \<lparr>group = g, name = n\<rparr>"

datatype Trigger = Cron string | Manual

record TimeWindow =
  start_ms :: "int option"
  end_ms :: "int option"

definition allows :: "TimeWindow \<Rightarrow> int \<Rightarrow> bool" where
  "allows w now_ms =
     (if (case start_ms w of Some s \<Rightarrow> now_ms < s | None \<Rightarrow> False) then False
      else if (case end_ms w of Some e \<Rightarrow> now_ms > e | None \<Rightarrow> False) then False
      else True)"

record RetryPolicy =
  count :: u32
  delay :: nat
  ignore_failures :: bool

definition default_retry_policy :: RetryPolicy where
  "default_retry_policy = \<lparr>count = 0, delay = 1000, ignore_failures = False\<rparr>"

datatype HeaderSource = Literal string | Env string

record HttpHeader =
  hdr_name :: string
  hdr_source :: HeaderSource

datatype JobKind =
    Http string string "HttpHeader list"
  | Exec "string list" "string list"

fun exec_command_display :: "JobKind \<Rightarrow> string option" where
  "exec_command_display (Exec argv _) = Some (str_join '' '' argv)"
| "exec_command_display _ = None"

fun type_label :: "JobKind \<Rightarrow> string" where
  "type_label (Http _ _ _) = ''http''"
| "type_label (Exec _ _) = ''exec''"

record JobSpec =
  key :: JobKey
  trigger :: Trigger
  window :: TimeWindow
  retry :: RetryPolicy
  kind :: JobKind

record LoadedJob =
  spec :: JobSpec
  source_path :: "string list"

section \<open>Lemmas\<close>

lemma allows_iff:
  "allows w t \<longleftrightarrow> (\<forall>s. start_ms w = Some s \<longrightarrow> s \<le> t) \<and> (\<forall>e. end_ms w = Some e \<longrightarrow> t \<le> e)"
  by (auto simp: allows_def split: option.splits)

end
