(* ===== verification/Rust_Net.thy ===== *)
theory Rust_Net
  imports Rust_Str
begin

text \<open>
  The parts of \<open>std::net\<close> the sources use: \<open>Ipv4Addr\<close> and \<open>Ipv6Addr\<close> with their
  classification methods, \<open>IpAddr::from_str\<close> as the standard library's backtracking
  parser, and the \<open>Display\<close> form that appears in error messages. Octets and segments
  keep their width.
\<close>

unbundle bit_operations_syntax

section \<open>Addresses\<close>

datatype ipv4 = Ipv4Addr u8 u8 u8 u8

datatype ipv6 = Ipv6Addr u16 u16 u16 u16 u16 u16 u16 u16

datatype IpAddr = V4 ipv4 | V6 ipv6

fun octets :: "ipv4 \<Rightarrow> u8 list" where
  "octets (Ipv4Addr a b c d) = [a, b, c, d]"

fun segments :: "ipv6 \<Rightarrow> u16 list" where
  "segments (Ipv6Addr a b c d e f g h) = [a, b, c, d, e, f, g, h]"

fun v4_is_loopback :: "ipv4 \<Rightarrow> bool" where
  "v4_is_loopback (Ipv4Addr a b c d) = (a = 127)"

fun v4_is_link_local :: "ipv4 \<Rightarrow> bool" where
  "v4_is_link_local (Ipv4Addr a b c d) = (a = 169 \<and> b = 254)"

fun v4_is_private :: "ipv4 \<Rightarrow> bool" where
  "v4_is_private (Ipv4Addr a b c d) =
     (a = 10 \<or> (a = 172 \<and> 16 \<le> b \<and> b \<le> 31) \<or> (a = 192 \<and> b = 168))"

fun v4_is_unspecified :: "ipv4 \<Rightarrow> bool" where
  "v4_is_unspecified (Ipv4Addr a b c d) = (a = 0 \<and> b = 0 \<and> c = 0 \<and> d = 0)"

fun v4_is_multicast :: "ipv4 \<Rightarrow> bool" where
  "v4_is_multicast (Ipv4Addr a b c d) = (224 \<le> a \<and> a \<le> 239)"

fun v4_is_broadcast :: "ipv4 \<Rightarrow> bool" where
  "v4_is_broadcast (Ipv4Addr a b c d) = (a = 255 \<and> b = 255 \<and> c = 255 \<and> d = 255)"

definition v6_is_unspecified :: "ipv6 \<Rightarrow> bool" where
  "v6_is_unspecified a \<longleftrightarrow> segments a = [0, 0, 0, 0, 0, 0, 0, 0]"

definition v6_is_loopback :: "ipv6 \<Rightarrow> bool" where
  "v6_is_loopback a \<longleftrightarrow> segments a = [0, 0, 0, 0, 0, 0, 0, 1]"

fun v6_is_multicast :: "ipv6 \<Rightarrow> bool" where
  "v6_is_multicast (Ipv6Addr a b c d e f g h) = (a AND 0xFF00 = 0xFF00)"

text \<open>The two octets of a segment, high one first.\<close>

definition seg_hi :: "u16 \<Rightarrow> u8" where
  "seg_hi w = ucast (drop_bit 8 w)"

definition seg_lo :: "u16 \<Rightarrow> u8" where
  "seg_lo w = ucast w"

definition seg_of :: "u8 \<Rightarrow> u8 \<Rightarrow> u16" where
  "seg_of a b = push_bit 8 (ucast a) OR ucast b"

fun to_ipv4_mapped :: "ipv6 \<Rightarrow> ipv4 option" where
  "to_ipv4_mapped (Ipv6Addr a b c d e f g h) =
     (if a = 0 \<and> b = 0 \<and> c = 0 \<and> d = 0 \<and> e = 0 \<and> f = 0xFFFF
      then Some (Ipv4Addr (seg_hi g) (seg_lo g) (seg_hi h) (seg_lo h)) else None)"

fun ip_is_loopback :: "IpAddr \<Rightarrow> bool" where
  "ip_is_loopback (V4 a) = v4_is_loopback a"
| "ip_is_loopback (V6 a) = v6_is_loopback a"

section \<open>Parsing\<close>

type_synonym 'a parser = "string \<Rightarrow> ('a \<times> string) option"

definition digit_val :: "char \<Rightarrow> nat" where
  "digit_val c =
     (if is_ascii_digit c then byte c - 48
      else if is_ascii_upper c then byte c - 55 else byte c - 87)"

definition is_radix_digit :: "nat \<Rightarrow> char \<Rightarrow> bool" where
  "is_radix_digit radix c = (if radix = 16 then is_ascii_hexdigit c else is_ascii_digit c)"

definition digits_val :: "nat \<Rightarrow> string \<Rightarrow> nat" where
  "digits_val radix ds = foldl (\<lambda>n d. n * radix + digit_val d) 0 ds"

text \<open>
  \<open>read_number\<close>: as many digits as there are; none, too many, a leading zero where it is
  not allowed, or a value that does not fit leave the input unread.
\<close>

definition read_number :: "nat \<Rightarrow> nat \<Rightarrow> bool \<Rightarrow> nat \<Rightarrow> nat parser" where
  "read_number radix max_digits allow_zero_prefix max_val s =
     (let ds = takeWhile (is_radix_digit radix) s
      in if ds = [] \<or> max_digits < length ds \<or>
            (\<not> allow_zero_prefix \<and> hd ds = CHR ''0'' \<and> 1 < length ds) \<or>
            max_val < digits_val radix ds
         then None
         else Some (digits_val radix ds, dropWhile (is_radix_digit radix) s))"

text \<open>\<open>read_separator\<close>: the separator precedes every group but the first.\<close>

definition read_separator :: "char \<Rightarrow> bool \<Rightarrow> 'a parser \<Rightarrow> 'a parser" where
  "read_separator sep first p s =
     (if first then p s
      else case s of [] \<Rightarrow> None | c # r \<Rightarrow> if c = sep then p r else None)"

definition read_octet :: "bool \<Rightarrow> nat parser" where
  "read_octet first = read_separator (CHR ''.'') first (read_number 10 3 False 255)"

definition read_ipv4_addr :: "ipv4 parser" where
  "read_ipv4_addr s =
     (case read_octet True s of None \<Rightarrow> None | Some (a, s1) \<Rightarrow>
     (case read_octet False s1 of None \<Rightarrow> None | Some (b, s2) \<Rightarrow>
     (case read_octet False s2 of None \<Rightarrow> None | Some (c, s3) \<Rightarrow>
     (case read_octet False s3 of None \<Rightarrow> None | Some (d, s4) \<Rightarrow>
       Some (Ipv4Addr (of_nat a) (of_nat b) (of_nat c) (of_nat d), s4)))))"

fun ipv4_groups :: "ipv4 \<Rightarrow> u16 list" where
  "ipv4_groups (Ipv4Addr a b c d) = [seg_of a b, seg_of c d]"

text \<open>
  \<open>read_groups\<close> over the groups that are left: an embedded IPv4 address where at least
  two are, else one group of up to four hexadecimal digits.
\<close>

function read_groups :: "nat \<Rightarrow> bool \<Rightarrow> string \<Rightarrow> u16 list \<times> bool \<times> string" where
  "read_groups n first s =
     (if n = 0 then ([], False, s)
      else case (if 1 < n then read_separator (CHR '':'') first read_ipv4_addr s else None) of
        Some (a, r) \<Rightarrow> (ipv4_groups a, True, r)
      | None \<Rightarrow>
          (case read_separator (CHR '':'') first (read_number 16 4 True 65535) s of
             None \<Rightarrow> ([], False, s)
           | Some (g, r) \<Rightarrow>
               (let (gs, v4, r') = read_groups (n - 1) False r in (of_nat g # gs, v4, r'))))"
  by pat_completeness auto
termination
  by (relation "measure (\<lambda>(n, _, _). n)") auto

declare read_groups.simps [simp del]

definition ipv6_of_list :: "u16 list \<Rightarrow> ipv6" where
  "ipv6_of_list gs =
     Ipv6Addr (gs ! 0) (gs ! 1) (gs ! 2) (gs ! 3) (gs ! 4) (gs ! 5) (gs ! 6) (gs ! 7)"

definition read_ipv6_addr :: "ipv6 parser" where
  "read_ipv6_addr s =
     (let (head, head_v4, s1) = read_groups 8 True s
      in if length head = 8 then Some (ipv6_of_list head, s1)
         else if head_v4 then None
         else case s1 of
           c1 # c2 # s2 \<Rightarrow>
             if c1 = CHR '':'' \<and> c2 = CHR '':'' then
               (let (tl6, _, s3) = read_groups (8 - (length head + 1)) True s2
                in Some (ipv6_of_list (head @ replicate (8 - length head - length tl6) 0 @ tl6), s3))
             else None
         | _ \<Rightarrow> None)"

text \<open>\<open>str::parse::<IpAddr>()\<close>: the whole text has to be consumed.\<close>

definition parse_ip :: "string \<Rightarrow> IpAddr option" where
  "parse_ip s =
     (case read_ipv4_addr s of
        Some (a, r) \<Rightarrow> if r = [] then Some (V4 a) else None
      | None \<Rightarrow>
          (case read_ipv6_addr s of
             Some (a, r) \<Rightarrow> if r = [] then Some (V6 a) else None
           | None \<Rightarrow> None))"

section \<open>Display\<close>

fun show_ipv4 :: "ipv4 \<Rightarrow> string" where
  "show_ipv4 (Ipv4Addr a b c d) =
     str_join ''.'' [show_nat (unat a), show_nat (unat b), show_nat (unat c), show_nat (unat d)]"

fun show_hex :: "nat \<Rightarrow> string" where
  "show_hex n = (if n < 16 then [hex_digit n] else show_hex (n div 16) @ [hex_digit (n mod 16)])"

declare show_hex.simps [simp del]

definition fmt_subslice :: "u16 list \<Rightarrow> string" where
  "fmt_subslice gs = str_join '':'' (map (\<lambda>g. show_hex (unat g)) gs)"

text \<open>The longest run of zero segments, as start and length.\<close>

fun zero_span :: "nat \<Rightarrow> u16 list \<Rightarrow> nat \<times> nat \<Rightarrow> nat \<times> nat \<Rightarrow> nat \<times> nat" where
  "zero_span i [] cur longest = longest"
| "zero_span i (g # gs) (cs, cl) (ls, ll) =
     (if g = 0 then
        (let c = (if cl = 0 then i else cs, cl + 1)
         in zero_span (i + 1) gs c (if ll < cl + 1 then c else (ls, ll)))
      else zero_span (i + 1) gs (0, 0) (ls, ll))"

definition show_ipv6 :: "ipv6 \<Rightarrow> string" where
  "show_ipv6 a =
     (case to_ipv4_mapped a of
        Some v4 \<Rightarrow> ''::ffff:'' @ show_ipv4 v4
      | None \<Rightarrow>
          (let (st, ln) = zero_span 0 (segments a) (0, 0) (0, 0)
           in if 1 < ln
              then fmt_subslice (take st (segments a)) @ ''::'' @ fmt_subslice (drop (st + ln) (segments a))
              else fmt_subslice (segments a)))"

fun show_ip :: "IpAddr \<Rightarrow> string" where
  "show_ip (V4 a) = show_ipv4 a"
| "show_ip (V6 a) = show_ipv6 a"

section \<open>Lemmas\<close>

subsection \<open>An octet as the prefix of a dotted quad\<close>

lemma digits_val_append: "digits_val r (ds @ [d]) = digits_val r ds * r + digit_val d"
  by (simp add: digits_val_def)

lemma digit_val_show: "n < 10 \<Longrightarrow> digit_val (char_of (48 + n)) = n"
  by (simp add: digit_val_def is_ascii_digit_def)

lemma digits_val_show_nat: "digits_val 10 (show_nat n) = n"
proof (induction n rule: show_nat.induct)
  case (1 n)
  show ?case
  proof (cases "n < 10")
    case True
    then show ?thesis
      by (simp add: show_nat.simps [of n] digits_val_def digit_val_show del: of_char_of)
  next
    case False
    with "1.IH" show ?thesis
      by (simp add: show_nat.simps [of n] digits_val_append digit_val_show del: of_char_of)
  qed
qed

lemma show_nat_all_digits: "\<forall>c\<in>set (show_nat n). is_radix_digit 10 c"
  using show_nat_digits [of _ n] by (auto simp: is_radix_digit_def is_ascii_digit_def)

lemma hd_show_nat: "0 < n \<Longrightarrow> hd (show_nat n) \<noteq> CHR ''0''"
proof (induction n rule: show_nat.induct)
  case (1 n)
  show ?case
  proof (cases "n < 10")
    case True
    have "char_of (48 + n) \<noteq> CHR ''0''"
    proof
      assume "char_of (48 + n) = CHR ''0''"
      then have "byte (char_of (48 + n)) = byte (CHR ''0'')" by (rule arg_cong)
      with True "1.prems" show False by simp
    qed
    then show ?thesis using True by (simp add: show_nat.simps [of n])
  next
    case False
    then have "hd (show_nat (n div 10)) \<noteq> CHR ''0''" using "1.IH" by simp
    with False show ?thesis by (simp add: show_nat.simps [of n])
  qed
qed

lemma show_nat_len: "n < 1000 \<Longrightarrow> length (show_nat n) \<le> 3"
  using show_nat_length_mono [of n 999] by (simp add: show_nat.simps)

lemma read_number_octet:
  assumes "n < 256" and "r = [] \<or> \<not> is_radix_digit 10 (hd r)"
  shows "read_number 10 3 False 255 (show_nat n @ r) = Some (n, r)"
proof -
  have tw: "takeWhile (is_radix_digit 10) (show_nat n @ r) = show_nat n"
    using assms(2) show_nat_all_digits [of n]
    by (cases r) (auto simp: takeWhile_append_stop)
  have dw: "dropWhile (is_radix_digit 10) (show_nat n @ r) = r"
    using assms(2) show_nat_all_digits [of n]
    by (cases r) (auto simp: dropWhile_append_stop)
  have len: "length (show_nat n) \<le> 3" using assms(1) show_nat_len [of n] by simp
  have zero: "hd (show_nat n) = CHR ''0'' \<Longrightarrow> length (show_nat n) = 1"
    using hd_show_nat [of n] by (cases "n = 0") (auto simp: show_nat.simps [of 0])
  show ?thesis
    unfolding read_number_def Let_def tw dw
    using assms(1) len zero by (auto simp: digits_val_show_nat)
qed

lemma dot_not_digit: "\<not> is_radix_digit 10 (CHR ''.'')"
  by (simp add: is_radix_digit_def is_ascii_digit_def)

text \<open>Printing an IPv4 address and parsing it back is the identity.\<close>

lemma parse_show_ipv4: "parse_ip (show_ipv4 a) = Some (V4 a)"
proof (cases a)
  case (Ipv4Addr p q r s)
  have u8: "unat w < 256" for w :: u8
    using unsigned_less [where 'a = nat, of w] by simp
  have b: "unat p < 256" "unat q < 256" "unat r < 256" "unat s < 256"
    by (rule u8)+
  show ?thesis
    by (simp add: Ipv4Addr parse_ip_def read_ipv4_addr_def read_octet_def read_separator_def b
        read_number_octet dot_not_digit read_number_octet [of _ "[]", simplified])
qed

lemmas parse_ip_eval = parse_ip_def read_ipv6_addr_def read_groups.simps read_separator_def
  read_ipv4_addr_def read_octet_def read_number_def is_radix_digit_def is_ascii_hexdigit_def
  is_ascii_digit_def digits_val_def digit_val_def

end
