(* ===== verification/Security.thy ===== *)
theory Security
  imports Rust_Net
begin

text \<open>
  \<open>src/security.rs\<close>: the dangerous-environment blacklist, the address classifier of
  the SSRF guard, the allowlist normaliser, the two sanitisers, the head-and-tail cap on
  stored bodies and the short client hash. The locale \<open>text_sanitizer\<close> states what both
  sanitisers promise; each is an interpretation of it.
\<close>

section \<open>Dangerous environment variables\<close>

definition DANGEROUS_ENVS :: "string list" where
  "DANGEROUS_ENVS =
    [''PATH'', ''LD_PRELOAD'', ''LD_LIBRARY_PATH'', ''LD_AUDIT'', ''DYLD_INSERT_LIBRARIES'',
     ''DYLD_LIBRARY_PATH'', ''DYLD_FALLBACK_LIBRARY_PATH'', ''PYTHONPATH'', ''PYTHONHOME'',
     ''PYTHONSTARTUP'', ''NODE_OPTIONS'', ''NODE_PATH'', ''RUBYOPT'', ''RUBYLIB'', ''PERL5OPT'',
     ''PERL5LIB'', ''JAVA_TOOL_OPTIONS'', ''_JAVA_OPTIONS'', ''MallocPreloadClass'']"

definition is_dangerous_env :: "string \<Rightarrow> bool" where
  "is_dangerous_env k =
     (let upper = to_ascii_uppercase k
      in if list_ex (\<lambda>d. eq_ignore_ascii_case d upper) DANGEROUS_ENVS then True
         else prefix ''LD_'' upper \<or> prefix ''DYLD_'' upper)"

section \<open>Address classes\<close>

fun private_or_local_v4 :: "ipv4 \<Rightarrow> bool" where
  "private_or_local_v4 v4 =
     (if v4_is_loopback v4 \<or> v4_is_link_local v4 \<or> v4_is_private v4 \<or> v4_is_unspecified v4
      then True
      else if octets v4 ! 0 = 100 \<and> 64 \<le> octets v4 ! 1 \<and> octets v4 ! 1 \<le> 127 then True
      else if v4_is_multicast v4 \<or> v4_is_broadcast v4 then True
      else False)"

fun is_private_or_local :: "IpAddr \<Rightarrow> bool" where
  "is_private_or_local (V4 v4) = private_or_local_v4 v4"
| "is_private_or_local (V6 v6) =
     (if v6_is_loopback v6 \<or> v6_is_unspecified v6 \<or> v6_is_multicast v6 then True
      else case to_ipv4_mapped v6 of
        Some v4 \<Rightarrow> private_or_local_v4 v4
      | None \<Rightarrow>
          if segments v6 ! 0 AND 0xFFC0 = 0xFE80 then True
          else if segments v6 ! 0 AND 0xFE00 = 0xFC00 then True
          else False)"

fun always_blocked_v4 :: "ipv4 \<Rightarrow> bool" where
  "always_blocked_v4 v4 =
     (v4_is_link_local v4 \<or> v4_is_unspecified v4 \<or> v4_is_multicast v4 \<or> v4_is_broadcast v4)"

fun is_always_blocked :: "IpAddr \<Rightarrow> bool" where
  "is_always_blocked (V4 v4) = always_blocked_v4 v4"
| "is_always_blocked (V6 v6) =
     (case to_ipv4_mapped v6 of
        Some v4 \<Rightarrow> always_blocked_v4 v4
      | None \<Rightarrow>
          v6_is_unspecified v6 \<or> v6_is_multicast v6 \<or>
          segments v6 ! 0 AND 0xFFC0 = 0xFE80 \<or>
          segments v6 = [0xFD00, 0x0EC2, 0, 0, 0, 0, 0, 0x0254])"

section \<open>Allowlist entries\<close>

fun host_char :: "string \<Rightarrow> bool" where
  "host_char [b] = (is_ascii_alphanumeric b \<or> b = CHR ''-'' \<or> b = CHR ''.'' \<or> b = CHR ''_'')"
| "host_char _ = False"

definition normalize_allowed_host :: "string \<Rightarrow> string option" where
  "normalize_allowed_host entry =
     (let host = to_ascii_lowercase (trim_end_matches (CHR ''.'') (trim entry))
      in if host = [] \<or> parse_ip host \<noteq> None then None
         else if \<not> list_all host_char (chars host) then None
         else Some host)"

section \<open>Sanitisers\<close>

text \<open>\<open>format!("\\u{:04x}", c as u32)\<close> for a control character.\<close>

definition unicode_escape :: "nat \<Rightarrow> string" where
  "unicode_escape n =
     [CHR 0x5C, CHR ''u'', CHR ''0'', CHR ''0'', hex_digit (n div 16), hex_digit (n mod 16)]"

text \<open>The body of both loops' \<open>match c\<close>: the text to push and the bytes accounted for.\<close>

fun escape :: "string \<Rightarrow> string \<times> nat" where
  "escape [b] =
     (if b = CHR 0x0D then ([CHR 0x5C, CHR ''r''], 2)
      else if b = CHR 0x0A then ([CHR 0x5C, CHR ''n''], 2)
      else if b = CHR 0x09 then ([b], 1)
      else if byte b < 0x20 \<or> byte b = 0x7F then (unicode_escape (byte b), 6)
      else ([b], 1))"
| "escape c = (c, length c)"

definition log_marker :: string where
  "log_marker = ellipsis @ ''[truncated]''"

fun sanitize_for_log_loop :: "string list \<Rightarrow> nat \<Rightarrow> string" where
  "sanitize_for_log_loop [] written = []"
| "sanitize_for_log_loop (c # cs) written =
     (if written + 6 > 4096 then log_marker
      else fst (escape c) @ sanitize_for_log_loop cs (written + snd (escape c)))"

definition sanitize_for_log :: "string \<Rightarrow> string" where
  "sanitize_for_log s = sanitize_for_log_loop (chars s) 0"

definition sanitize_for_persistence :: "string \<Rightarrow> string" where
  "sanitize_for_persistence s = concat (map (\<lambda>c. fst (escape c)) (chars s))"

section \<open>Head-and-tail cap\<close>

fun floor_loop :: "string \<Rightarrow> nat \<Rightarrow> nat" where
  "floor_loop s 0 = 0"
| "floor_loop s (Suc i) = (if is_char_boundary s (Suc i) then Suc i else floor_loop s i)"

definition char_boundary_floor :: "string \<Rightarrow> nat \<Rightarrow> nat" where
  "char_boundary_floor s idx = (if idx \<ge> length s then length s else floor_loop s idx)"

function ceil_loop :: "string \<Rightarrow> nat \<Rightarrow> nat" where
  "ceil_loop s i = (if i \<ge> length s \<or> is_char_boundary s i then i else ceil_loop s (Suc i))"
  by pat_completeness auto
termination
  by (relation "measure (\<lambda>(s, i). length s - i)") auto

declare ceil_loop.simps [simp del]

definition char_boundary_ceil :: "string \<Rightarrow> nat \<Rightarrow> nat" where
  "char_boundary_ceil s idx = (if idx \<ge> length s then length s else ceil_loop s idx)"

definition truncation_marker :: "nat \<Rightarrow> string" where
  "truncation_marker n =
     [CHR 0x0A] @ ellipsis @ '' ['' @ show_nat n @ '' bytes truncated] '' @ ellipsis @ [CHR 0x0A]"

definition truncate_response_body :: "string \<Rightarrow> nat \<Rightarrow> string" where
  "truncate_response_body s max_len =
     (let clean = sanitize_for_persistence s
      in if length clean \<le> max_len then clean
         else
           (let half = max_len div 2;
                head_end = char_boundary_floor clean half;
                tail_start = char_boundary_ceil clean (length clean - half);
                truncated = length clean - (head_end + (length clean - tail_start))
            in take head_end clean @ truncation_marker truncated @ drop tail_start clean))"

section \<open>Client hash\<close>

definition hex2 :: "char \<Rightarrow> string" where
  "hex2 b = [hex_digit (byte b div 16), hex_digit (byte b mod 16)]"

text \<open>The digest function is a parameter; only its first four bytes are rendered.\<close>

definition short_client_hash :: "(string \<Rightarrow> string) \<Rightarrow> string \<Rightarrow> string" where
  "short_client_hash sha256 bytes = concat (map hex2 (take 4 (sha256 bytes)))"

section \<open>Reference definitions\<close>

text \<open>An IPv4 address as a number, and membership in a block \<open>net/len\<close>.\<close>

fun ip_nat :: "ipv4 \<Rightarrow> nat" where
  "ip_nat (Ipv4Addr a b c d) = unat a * 2 ^ 24 + unat b * 2 ^ 16 + unat c * 2 ^ 8 + unat d"

definition in_block :: "ipv4 \<Rightarrow> nat \<Rightarrow> ipv4 \<Rightarrow> bool" where
  "in_block net len a \<longleftrightarrow> ip_nat a div 2 ^ (32 - len) = ip_nat net div 2 ^ (32 - len)"

definition non_routable_blocks :: "(ipv4 \<times> nat) list" where
  "non_routable_blocks =
    [(Ipv4Addr 127 0 0 0, 8), (Ipv4Addr 169 254 0 0, 16), (Ipv4Addr 10 0 0 0, 8),
     (Ipv4Addr 172 16 0 0, 12), (Ipv4Addr 192 168 0 0, 16), (Ipv4Addr 0 0 0 0, 32),
     (Ipv4Addr 100 64 0 0, 10), (Ipv4Addr 224 0 0 0, 4), (Ipv4Addr 255 255 255 255, 32)]"

text \<open>The same for IPv6: an address as a number, most significant segment first.\<close>

definition seg_nat :: "u16 list \<Rightarrow> nat" where
  "seg_nat ss = foldl (\<lambda>n s. n * 65536 + unat s) 0 ss"

definition ip6_nat :: "ipv6 \<Rightarrow> nat" where
  "ip6_nat a = seg_nat (segments a)"

definition in_block6 :: "ipv6 \<Rightarrow> nat \<Rightarrow> ipv6 \<Rightarrow> bool" where
  "in_block6 net len a \<longleftrightarrow> ip6_nat a div 2 ^ (128 - len) = ip6_nat net div 2 ^ (128 - len)"

definition non_routable_blocks6 :: "(ipv6 \<times> nat) list" where
  "non_routable_blocks6 =
    [(Ipv6Addr 0 0 0 0 0 0 0 1, 128), (Ipv6Addr 0 0 0 0 0 0 0 0, 128), (Ipv6Addr 0xFF00 0 0 0 0 0 0 0, 8),
     (Ipv6Addr 0xFE80 0 0 0 0 0 0 0, 10), (Ipv6Addr 0xFC00 0 0 0 0 0 0 0, 7)]"

text \<open>Text without control bytes other than the tab.\<close>

definition control_free :: "string \<Rightarrow> bool" where
  "control_free s \<longleftrightarrow> list_all (\<lambda>b. byte b = 9 \<or> (0x20 \<le> byte b \<and> byte b \<noteq> 0x7F)) s"

section \<open>Lemmas\<close>

subsection \<open>Address classes\<close>

lemma u8_bound: "unat (w :: u8) < 256"
  using unsigned_less [where 'a = nat, of w] by simp

lemma u8_eq_iff: "(w :: u8) = v \<longleftrightarrow> unat w = unat v"
  by (simp add: word_unat_eq_iff)

lemma u8_le_iff: "(w :: u8) \<le> v \<longleftrightarrow> unat w \<le> unat v"
  by (simp add: word_le_nat_alt)

lemma ip_nat_prefixes:
  "ip_nat (Ipv4Addr a b c d) div 16777216 = unat a"
  "ip_nat (Ipv4Addr a b c d) div 65536 = unat a * 256 + unat b"
  "ip_nat (Ipv4Addr a b c d) div 1048576 = unat a * 16 + unat b div 16"
  "ip_nat (Ipv4Addr a b c d) div 4194304 = unat a * 4 + unat b div 64"
  "ip_nat (Ipv4Addr a b c d) div 268435456 = unat a div 16"
  using u8_bound [of a] u8_bound [of b] u8_bound [of c] u8_bound [of d]
  by simp_all

lemma positional_unique:
  fixes x x' y y' k :: nat
  assumes "y < k" and "y' < k"
  shows "x * k + y = x' * k + y' \<longleftrightarrow> x = x' \<and> y = y'"
proof
  assume eq: "x * k + y = x' * k + y'"
  have "(x * k + y) div k = x" "(x' * k + y') div k = x'" using assms by simp_all
  with eq show "x = x' \<and> y = y'" by simp
qed simp

lemma ip_nat_inj: "ip_nat a = ip_nat b \<longleftrightarrow> a = b"
proof
  assume eq: "ip_nat a = ip_nat b"
  obtain p q r s where a: "a = Ipv4Addr p q r s" by (cases a)
  obtain p' q' r' s' where b: "b = Ipv4Addr p' q' r' s'" by (cases b)
  note bounds = u8_bound [of p] u8_bound [of q] u8_bound [of r] u8_bound [of s]
    u8_bound [of p'] u8_bound [of q'] u8_bound [of r'] u8_bound [of s']
  from eq have "((unat p * 256 + unat q) * 256 + unat r) * 256 + unat s =
      ((unat p' * 256 + unat q') * 256 + unat r') * 256 + unat s'"
    by (simp add: a b)
  then have "unat p = unat p' \<and> unat q = unat q' \<and> unat r = unat r' \<and> unat s = unat s'"
    using bounds by (simp only: positional_unique)
  then show "a = b" by (simp add: a b u8_eq_iff)
qed simp

lemma in_block_8: "in_block (Ipv4Addr x y z w) 8 (Ipv4Addr a b c d) \<longleftrightarrow> a = x"
  by (simp add: in_block_def ip_nat_prefixes(1) u8_eq_iff del: ip_nat.simps)

lemma in_block_16: "in_block (Ipv4Addr x y z w) 16 (Ipv4Addr a b c d) \<longleftrightarrow> a = x \<and> b = y"
  using u8_bound [of b] u8_bound [of y]
  by (simp add: in_block_def ip_nat_prefixes(2) u8_eq_iff positional_unique del: ip_nat.simps)

lemma in_block_172:
  "in_block (Ipv4Addr 172 16 0 0) 12 (Ipv4Addr a b c d) \<longleftrightarrow> a = 172 \<and> 16 \<le> b \<and> b \<le> 31"
  using u8_bound [of b] positional_unique [of "unat b div 16" 16 1 "unat a" 172]
  by (auto simp add: in_block_def ip_nat_prefixes(3) u8_eq_iff u8_le_iff simp del: ip_nat.simps)

lemma in_block_100:
  "in_block (Ipv4Addr 100 64 0 0) 10 (Ipv4Addr a b c d) \<longleftrightarrow> a = 100 \<and> 64 \<le> b \<and> b \<le> 127"
  using u8_bound [of b] positional_unique [of "unat b div 64" 4 1 "unat a" 100]
  by (auto simp add: in_block_def ip_nat_prefixes(4) u8_eq_iff u8_le_iff simp del: ip_nat.simps)

lemma in_block_224:
  "in_block (Ipv4Addr 224 0 0 0) 4 (Ipv4Addr a b c d) \<longleftrightarrow> 224 \<le> a \<and> a \<le> 239"
  by (auto simp add: in_block_def ip_nat_prefixes(5) u8_le_iff simp del: ip_nat.simps)

lemma in_block_32: "in_block net 32 a \<longleftrightarrow> a = net"
  by (simp add: in_block_def ip_nat_inj)

lemmas in_blocks = in_block_8 in_block_16 in_block_172 in_block_100 in_block_224 in_block_32

lemma private_or_local_v4_blocks:
  "private_or_local_v4 v4 \<longleftrightarrow> list_ex (\<lambda>(net, len). in_block net len v4) non_routable_blocks"
  by (cases v4) (auto simp add: non_routable_blocks_def in_blocks)

lemma u16_bound: "unat (w :: u16) < 65536"
  using unsigned_less [where 'a = nat, of w] by simp

lemma seg_nat_snoc: "seg_nat [] = 0" "seg_nat (ss @ [s]) = seg_nat ss * 65536 + unat s"
  by (simp_all add: seg_nat_def)

lemma seg_nat_div: "seg_nat (ss @ ts) div 65536 ^ length ts = seg_nat ss"
proof (induction ts rule: rev_induct)
  case (snoc t ts)
  have "seg_nat (ss @ ts @ [t]) div 65536 = seg_nat (ss @ ts)"
    using u16_bound [of t] seg_nat_snoc(2) [of "ss @ ts" t] by simp
  with snoc show ?case by (simp add: div_mult2_eq)
qed simp

lemma seg_nat_inj: "length ss = length ts \<Longrightarrow> seg_nat ss = seg_nat ts \<longleftrightarrow> ss = ts"
proof (induction ss arbitrary: ts rule: rev_induct)
  case (snoc s ss)
  then obtain t ts' where "ts = ts' @ [t]" by (cases ts rule: rev_cases) auto
  with snoc show ?case by (simp add: seg_nat_snoc positional_unique u16_bound word_unat_eq_iff)
qed simp

lemma segments_eq: "segments a = segments b \<longleftrightarrow> a = b"
  by (cases a; cases b) simp

lemma length_segments: "length (segments a) = 8"
  by (cases a) simp

lemma in_block6_128: "in_block6 net 128 a \<longleftrightarrow> a = net"
  by (simp add: in_block6_def ip6_nat_def seg_nat_inj length_segments segments_eq)

lemma ip6_nat_first: "ip6_nat (Ipv6Addr a b c d e f g h) div 2 ^ 112 = unat a"
  using seg_nat_div [of "[a]" "[b, c, d, e, f, g, h]"] by (simp add: ip6_nat_def seg_nat_def [of "[a]"])

lemma in_block6_first:
  assumes "len \<le> 16"
  shows "in_block6 (Ipv6Addr x x1 x2 x3 x4 x5 x6 x7) len (Ipv6Addr a b c d e f g h) \<longleftrightarrow>
    drop_bit (16 - len) a = drop_bit (16 - len) x"
proof -
  have "n div 2 ^ (128 - len) = n div 2 ^ 112 div 2 ^ (16 - len)" for n :: nat
    using assms unfolding div_mult2_eq [symmetric] power_add [symmetric] by simp
  then show ?thesis
    by (simp only: in_block6_def ip6_nat_first word_unat_eq_iff unat_drop_bit_eq drop_bit_eq_div [where 'a = nat])
qed

lemma and_high_bits:
  fixes s :: u16
  shows "s AND NOT (mask n) = push_bit n (drop_bit n s)"
  by (rule bit_word_eqI) (auto simp: bit_simps)

lemma high_bits_eq:
  fixes s x m :: u16
  assumes "m = NOT (mask n)" and "x AND m = x" and "n < 16"
  shows "s AND m = x \<longleftrightarrow> drop_bit n s = drop_bit n x"
proof
  assume "s AND m = x"
  then have "drop_bit n x = drop_bit n s AND drop_bit n m" by auto
  also have "\<dots> = drop_bit n s"
    unfolding assms(1) by (rule bit_word_eqI) (auto simp: bit_simps dest: bit_imp_le_length)
  finally show "drop_bit n s = drop_bit n x" by simp
next
  assume "drop_bit n s = drop_bit n x"
  then show "s AND m = x" using assms(1,2) by (simp add: and_high_bits)
qed

lemma seg_masks:
  fixes s :: u16
  shows "s AND 0xFFC0 = 0xFE80 \<longleftrightarrow> drop_bit 6 s = drop_bit 6 0xFE80"
    "s AND 0xFE00 = 0xFC00 \<longleftrightarrow> drop_bit 9 s = drop_bit 9 0xFC00"
    "s AND 0xFF00 = 0xFF00 \<longleftrightarrow> drop_bit 8 s = drop_bit 8 0xFF00"
  by (rule high_bits_eq; simp add: mask_eq_exp_minus_1)+

lemma private_or_local_v6_blocks:
  "is_private_or_local (V6 v6) \<longleftrightarrow>
     list_ex (\<lambda>(net, len). in_block6 net len v6) non_routable_blocks6 \<or>
     (\<exists>v4. to_ipv4_mapped v6 = Some v4 \<and> private_or_local_v4 v4)"
proof -
  obtain a b c d e f g h where v6: "v6 = Ipv6Addr a b c d e f g h" by (cases v6)
  have "list_ex (\<lambda>(net, len). in_block6 net len v6) non_routable_blocks6 \<longleftrightarrow>
      v6_is_loopback v6 \<or> v6_is_unspecified v6 \<or> v6_is_multicast v6 \<or> a AND 0xFFC0 = 0xFE80 \<or> a AND 0xFE00 = 0xFC00"
    by (simp add: non_routable_blocks6_def in_block6_128 in_block6_first v6_is_loopback_def
        v6_is_unspecified_def v6 seg_masks)
  moreover have "to_ipv4_mapped v6 = Some v4 \<Longrightarrow> a = 0" for v4 by (auto simp: v6 split: if_splits)
  ultimately show ?thesis
    by (auto simp: v6 simp del: private_or_local_v4.simps to_ipv4_mapped.simps v6_is_multicast.simps split: option.splits)
qed
lemma always_blocked_private: "is_always_blocked ip \<Longrightarrow> is_private_or_local ip"
  by (cases ip) (auto split: option.splits)

subsection \<open>Escapes\<close>

lemma hex_digit_bounds: "d < 16 \<Longrightarrow> 48 \<le> byte (hex_digit d) \<and> byte (hex_digit d) \<le> 102"
  by (simp add: hex_digit_def)

lemma escape_length: "snd (escape c) = length (fst (escape c))"
  by (induction c rule: escape.induct) (auto simp: unicode_escape_def)

lemma valid_char_cases:
  assumes "valid_char c"
  obtains b where "c = [b]" "byte b < 0x80"
    | "1 < length c" "\<forall>b\<in>set c. 0x80 \<le> byte b"
  using assms
  by (induction c rule: valid_char.induct) (auto simp: second_ok_def is_cont_def)

lemma escape_multi: "1 < length c \<Longrightarrow> escape c = (c, length c)"
  by (induction c rule: escape.induct) auto

lemma byte_less_128_div: "byte b < 0x80 \<Longrightarrow> byte b div 16 < 16"
  by simp

lemma escape_control_free: "valid_char c \<Longrightarrow> control_free (fst (escape c))"
proof (erule valid_char_cases)
  fix b assume b: "c = [b]" "byte b < 0x80"
  have "48 \<le> byte (hex_digit (byte b div 16)) \<and> byte (hex_digit (byte b div 16)) \<le> 102"
    "48 \<le> byte (hex_digit (byte b mod 16)) \<and> byte (hex_digit (byte b mod 16)) \<le> 102"
    using hex_digit_bounds [of "byte b div 16"] hex_digit_bounds [of "byte b mod 16"] b(2)
    by simp_all
  with b show ?thesis by (auto simp: control_free_def unicode_escape_def)
next
  assume "1 < length c" "\<forall>b\<in>set c. 0x80 \<le> byte b"
  then show ?thesis by (auto simp: escape_multi control_free_def list_all_iff)
qed

lemma escape_ok:
  assumes "valid_char c"
  shows "str_ok (fst (escape c))"
  using assms
proof (cases rule: valid_char_cases)
  case b: (1 b)
  have "byte (hex_digit (byte b div 16)) \<le> 102" "byte (hex_digit (byte b mod 16)) \<le> 102"
    using hex_digit_bounds [of "byte b div 16"] hex_digit_bounds [of "byte b mod 16"] b(2)
    by simp_all
  with b show ?thesis by (auto simp: ascii_def unicode_escape_def intro!: ascii_str_ok)
next
  case 2
  with assms show ?thesis by (simp add: escape_multi str_ok_valid_char)
qed

lemma escape_written: "c \<in> set (chars s) \<Longrightarrow> snd (escape c) \<le> 6"
  using chars_length_le [of c s] by (induction c rule: escape.induct) auto

lemma control_free_append: "control_free (s @ t) \<longleftrightarrow> control_free s \<and> control_free t"
  by (simp add: control_free_def)

lemma control_free_concat: "(\<And>s. s \<in> set ss \<Longrightarrow> control_free s) \<Longrightarrow> control_free (concat ss)"
  by (induction ss) (auto simp: control_free_append control_free_def)

subsection \<open>What a sanitiser promises\<close>

text \<open>
  A sanitiser writes the escapes of the leading code points of its input, and of all of
  them unless it ends with its marker.
\<close>

locale text_sanitizer =
  fixes sanitize :: "string \<Rightarrow> string"
    and marker :: string
  assumes sanitize_shape:
    "\<exists>cs rest. chars s = cs @ rest \<and>
      (rest = [] \<and> sanitize s = concat (map (\<lambda>c. fst (escape c)) cs) \<or>
       sanitize s = concat (map (\<lambda>c. fst (escape c)) cs) @ marker)"
    and marker_ok: "str_ok marker"
    and marker_control_free: "control_free marker"
begin

lemma sanitize_control_free:
  assumes "str_ok s"
  shows "control_free (sanitize s)"
proof -
  obtain cs rest where cs: "chars s = cs @ rest"
    and eq: "rest = [] \<and> sanitize s = concat (map (\<lambda>c. fst (escape c)) cs) \<or>
       sanitize s = concat (map (\<lambda>c. fst (escape c)) cs) @ marker"
    using sanitize_shape [of s] by blast
  have "control_free (concat (map (\<lambda>c. fst (escape c)) cs))"
    using assms cs by (intro control_free_concat) (auto simp: str_ok_def list_all_iff escape_control_free)
  with eq show ?thesis by (auto simp: control_free_append marker_control_free)
qed

lemma sanitize_ok:
  assumes "str_ok s"
  shows "str_ok (sanitize s)"
proof -
  obtain cs rest where cs: "chars s = cs @ rest"
    and eq: "rest = [] \<and> sanitize s = concat (map (\<lambda>c. fst (escape c)) cs) \<or>
       sanitize s = concat (map (\<lambda>c. fst (escape c)) cs) @ marker"
    using sanitize_shape [of s] by blast
  have "str_ok (concat (map (\<lambda>c. fst (escape c)) cs))"
    using assms cs by (intro str_ok_concat_strs) (auto simp: str_ok_def list_all_iff intro: escape_ok [unfolded str_ok_def list_all_iff, rule_format])
  with eq show ?thesis by (auto simp: str_ok_append marker_ok)
qed

end

lemma sanitize_log_loop_shape:
  "\<exists>cs rest. xs = cs @ rest \<and>
     (rest = [] \<and> sanitize_for_log_loop xs w = concat (map (\<lambda>c. fst (escape c)) cs) \<or>
      sanitize_for_log_loop xs w = concat (map (\<lambda>c. fst (escape c)) cs) @ log_marker)"
proof (induction xs w rule: sanitize_for_log_loop.induct)
  case (1 w)
  then show ?case by simp
next
  case (2 c xs w)
  show ?case
  proof (cases "w + 6 > 4096")
    case True
    then show ?thesis by (intro exI [of _ "[]"] exI [of _ "c # xs"]) simp
  next
    case False
    with "2.IH" obtain cs rest where "xs = cs @ rest"
      "rest = [] \<and> sanitize_for_log_loop xs (w + snd (escape c)) = concat (map (\<lambda>c. fst (escape c)) cs) \<or>
       sanitize_for_log_loop xs (w + snd (escape c)) = concat (map (\<lambda>c. fst (escape c)) cs) @ log_marker"
      by blast
    with False show ?thesis by (intro exI [of _ "c # cs"] exI [of _ rest]) auto
  qed
qed

lemma log_marker_ok: "str_ok log_marker"
  unfolding log_marker_def by (intro str_ok_appendI str_ok_ellipsis ascii_str_ok) (simp add: ascii_def)

lemma log_marker_control_free: "control_free log_marker"
  by (simp add: log_marker_def control_free_def ellipsis_def)

interpretation log_san: text_sanitizer sanitize_for_log log_marker
  by unfold_locales
    (simp_all add: sanitize_for_log_def sanitize_log_loop_shape log_marker_ok log_marker_control_free)

interpretation persist_san: text_sanitizer sanitize_for_persistence "[]"
  by unfold_locales (auto simp: sanitize_for_persistence_def control_free_def)

lemma sanitize_log_loop_length:
  assumes "\<forall>c\<in>set cs. snd (escape c) \<le> 6" and "w \<le> 4096"
  shows "w + length (sanitize_for_log_loop cs w) \<le> 4096 + length log_marker"
  using assms
proof (induction cs w rule: sanitize_for_log_loop.induct)
  case (1 w)
  then show ?case by simp
next
  case (2 c cs w)
  show ?case
  proof (cases "w + 6 > 4096")
    case True
    with "2.prems" show ?thesis by simp
  next
    case False
    with "2.prems" have "w + snd (escape c) \<le> 4096" by auto
    with "2.IH" False "2.prems"(1)
    have "(w + snd (escape c)) + length (sanitize_for_log_loop cs (w + snd (escape c)))
        \<le> 4096 + length log_marker" by simp
    with False show ?thesis by (simp add: escape_length)
  qed
qed

lemma sanitize_for_log_length: "length (sanitize_for_log s) \<le> 4096 + length log_marker"
  using sanitize_log_loop_length [of "chars s" 0] escape_written [of _ s]
  by (simp add: sanitize_for_log_def)

lemma sanitize_log_loop_full:
  assumes "w + length (concat (map (\<lambda>c. fst (escape c)) cs)) \<le> 4090"
  shows "sanitize_for_log_loop cs w = concat (map (\<lambda>c. fst (escape c)) cs)"
  using assms by (induction cs w rule: sanitize_for_log_loop.induct) (auto simp: escape_length)

lemma sanitizers_agree:
  "length (sanitize_for_persistence s) \<le> 4090 \<Longrightarrow> sanitize_for_log s = sanitize_for_persistence s"
  by (simp add: sanitize_for_log_def sanitize_for_persistence_def sanitize_log_loop_full)

subsection \<open>Boundaries\<close>

lemma floor_loop_le: "floor_loop s i \<le> i"
  by (induction i) auto

lemma floor_loop_boundary: "is_char_boundary s (floor_loop s i)"
  by (induction i) auto

lemma char_boundary_floor_boundary: "is_char_boundary s (char_boundary_floor s i)"
  by (simp add: char_boundary_floor_def floor_loop_boundary)

lemma char_boundary_floor_le: "i \<le> length s \<Longrightarrow> char_boundary_floor s i \<le> i"
  by (simp add: char_boundary_floor_def floor_loop_le)

lemma ceil_loop_bounds: "i \<le> length s \<Longrightarrow> i \<le> ceil_loop s i \<and> ceil_loop s i \<le> length s"
proof (induction s i rule: ceil_loop.induct)
  case (1 s i)
  then show ?case by (subst (1 2) ceil_loop.simps) auto
qed

lemma ceil_loop_boundary: "i \<le> length s \<Longrightarrow> is_char_boundary s (ceil_loop s i)"
proof (induction s i rule: ceil_loop.induct)
  case (1 s i)
  show ?case
  proof (cases "i \<ge> length s \<or> is_char_boundary s i")
    case True
    with "1.prems" show ?thesis by (auto simp: ceil_loop.simps [of s i])
  next
    case False
    with "1.IH" show ?thesis by (simp add: ceil_loop.simps [of s i])
  qed
qed

lemma char_boundary_ceil_boundary: "is_char_boundary s (char_boundary_ceil s i)"
  by (simp add: char_boundary_ceil_def ceil_loop_boundary)

lemma char_boundary_ceil_bounds:
  "i \<le> length s \<Longrightarrow> i \<le> char_boundary_ceil s i \<and> char_boundary_ceil s i \<le> length s"
  by (simp add: char_boundary_ceil_def ceil_loop_bounds)

lemma show_nat_ok [simp]: "str_ok (show_nat n)"
  using show_nat_digits [of _ n] by (intro ascii_str_ok) (force simp: ascii_def list_all_iff)

lemma truncation_marker_ok: "str_ok (truncation_marker n)"
  unfolding truncation_marker_def
  by (intro str_ok_appendI str_ok_ellipsis show_nat_ok ascii_str_ok) (simp_all add: ascii_def)

lemma truncation_marker_length_mono: "m \<le> n \<Longrightarrow> length (truncation_marker m) \<le> length (truncation_marker n)"
  by (simp add: truncation_marker_def show_nat_length_mono)

lemma escape_growth: "length (fst (escape c)) \<le> 6 * length c"
  by (induction c rule: escape.induct) (auto simp: unicode_escape_def)

lemma sanitize_for_persistence_length: "length (sanitize_for_persistence s) \<le> 6 * length s"
proof -
  have "length (concat (map (\<lambda>c. fst (escape c)) cs)) \<le> 6 * length (concat cs)" for cs
  proof (induction cs)
    case (Cons c cs)
    then show ?case using escape_growth [of c] by simp
  qed simp
  from this [of "chars s"] show ?thesis by (simp add: sanitize_for_persistence_def)
qed

text \<open>The cut points of an over-long body: they are boundaries and do not cross.\<close>

lemma truncate_cuts:
  assumes "max_len < length clean"
  defines "h \<equiv> char_boundary_floor clean (max_len div 2)"
    and "t \<equiv> char_boundary_ceil clean (length clean - max_len div 2)"
  shows "h \<le> max_len div 2" "length clean - max_len div 2 \<le> t" "t \<le> length clean" "h \<le> t"
    "is_char_boundary clean h" "is_char_boundary clean t"
proof -
  have le: "max_len div 2 \<le> length clean" using assms(1) by simp
  show h: "h \<le> max_len div 2" unfolding h_def by (rule char_boundary_floor_le [OF le])
  show t: "length clean - max_len div 2 \<le> t" and "t \<le> length clean"
    unfolding t_def using char_boundary_ceil_bounds [of "length clean - max_len div 2" clean] by auto
  show "h \<le> t" using h t assms(1) by linarith
  show "is_char_boundary clean h" "is_char_boundary clean t"
    by (simp_all add: h_def t_def char_boundary_floor_boundary char_boundary_ceil_boundary)
qed

lemma truncate_response_body_ok:
  assumes "str_ok s"
  shows "str_ok (truncate_response_body s m)"
proof (cases "length (sanitize_for_persistence s) \<le> m")
  case True
  with persist_san.sanitize_ok [OF assms] show ?thesis by (simp add: truncate_response_body_def)
next
  case False
  let ?c = "sanitize_for_persistence s"
  have "m < length ?c" using False by simp
  note cuts = truncate_cuts [OF this]
  have "str_ok ?c" by (rule persist_san.sanitize_ok [OF assms])
  with False cuts show ?thesis
    by (simp add: truncate_response_body_def Let_def) (intro str_ok_appendI str_ok_take str_ok_drop truncation_marker_ok)
qed

subsection \<open>Allowlist entries\<close>

lemma host_char_single: "host_char c \<Longrightarrow> \<exists>b. c = [b] \<and> byte b < 0x80 \<and> \<not> is_whitespace c"
  by (induction c rule: host_char.induct)
    (auto simp: is_ascii_alphanumeric_def is_ascii_upper_def is_ascii_lower_def is_ascii_digit_def)

lemma host_chars_trim: "list_all host_char (chars h) \<Longrightarrow> trim h = h"
  by (rule trim_id) (auto simp: list_all_iff dest!: host_char_single intro: hd_in_set last_in_set)

lemma last_map_ascii_down: "s \<noteq> [] \<Longrightarrow> last (to_ascii_lowercase s) = ascii_down (last s)"
  by (simp add: to_ascii_lowercase_def last_map)

lemma ascii_down_dot: "ascii_down c = CHR ''.'' \<Longrightarrow> c = CHR ''.''"
proof -
  assume a: "ascii_down c = CHR ''.''"
  have "\<not> is_ascii_upper c"
  proof
    assume u: "is_ascii_upper c"
    then have "byte (ascii_down c) = byte c + 32" by (simp add: ascii_down_def is_ascii_upper_def)
    with a u show False by (simp add: is_ascii_upper_def)
  qed
  with a show ?thesis by (simp add: ascii_down_def)
qed

lemma normalize_allowed_host_shape:
  assumes "normalize_allowed_host e = Some h"
  shows "h \<noteq> []" "parse_ip h = None" "list_all host_char (chars h)" "to_ascii_lowercase h = h"
    "last h \<noteq> CHR ''.''"
proof -
  let ?t = "trim_end_matches (CHR ''.'') (trim e)"
  from assms have h: "h = to_ascii_lowercase ?t" and ne: "h \<noteq> []"
    by (auto simp: normalize_allowed_host_def Let_def split: if_splits)
  show "h \<noteq> []" "parse_ip h = None" "list_all host_char (chars h)" "to_ascii_lowercase h = h"
    using assms by (auto simp: normalize_allowed_host_def Let_def split: if_splits)
  from ne h have "?t \<noteq> []" by (auto simp: to_ascii_lowercase_def)
  then show "last h \<noteq> CHR ''.''"
    using trim_end_matches_last [of "CHR ''.''" "trim e"] ascii_down_dot
    by (auto simp: h last_map_ascii_down)
qed

section \<open>Properties\<close>

text \<open>
  C28. The SSRF class of an address is membership in a list of address blocks: for IPv4
  loopback, link-local, the three private blocks, unspecified, carrier-grade NAT, multicast
  and broadcast; for IPv6 loopback, unspecified, multicast, link-local and unique-local; an
  IPv4-mapped IPv6 address is classified as its IPv4 address.
\<close>

theorem private_or_local_is_block_membership:
  "is_private_or_local ip \<longleftrightarrow>
     (case ip of
        V4 v4 \<Rightarrow> list_ex (\<lambda>(net, len). in_block net len v4) non_routable_blocks
      | V6 v6 \<Rightarrow> list_ex (\<lambda>(net, len). in_block6 net len v6) non_routable_blocks6 \<or>
          (case to_ipv4_mapped v6 of
             Some v4 \<Rightarrow> list_ex (\<lambda>(net, len). in_block net len v4) non_routable_blocks
           | None \<Rightarrow> False))"
proof (cases ip)
  case (V4 v4)
  then show ?thesis by (simp only: is_private_or_local.simps private_or_local_v4_blocks IpAddr.case)
next
  case (V6 v6)
  then show ?thesis
    by (cases "to_ipv4_mapped v6")
      (simp_all only: private_or_local_v6_blocks private_or_local_v4_blocks IpAddr.case option.case option.simps, simp_all)
qed

text \<open>
  What no allowlist entry can open (metadata, link-local, unspecified, multicast and
  broadcast addresses) is always also blocked by the private-network check.
\<close>

theorem always_blocked_is_private: "is_always_blocked ip \<Longrightarrow> is_private_or_local ip"
  by (rule always_blocked_private)

theorem always_blocked_is_private_witness:
  "is_always_blocked (V4 (Ipv4Addr 169 254 169 254)) \<and> is_private_or_local (V4 (Ipv4Addr 169 254 169 254))"
  using always_blocked_is_private [of "V4 (Ipv4Addr 169 254 169 254)"] by simp

text \<open>
  Sanitising for the log yields valid UTF-8 without a single control byte other than
  the tab, so no line can be forged, and at most 4096 bytes and the truncation marker.
\<close>

theorem sanitize_for_log_safe:
  assumes "str_ok s"
  shows "control_free (sanitize_for_log s) \<and> str_ok (sanitize_for_log s) \<and>
    length (sanitize_for_log s) \<le> 4096 + length log_marker"
  using log_san.sanitize_control_free [OF assms] log_san.sanitize_ok [OF assms] sanitize_for_log_length
  by blast

theorem sanitize_for_log_safe_witness:
  "str_ok ''a'' \<and> control_free (sanitize_for_log [CHR 0x0A, CHR 0x1B])"
proof -
  have "str_ok ''a''" "str_ok [CHR 0x0A, CHR 0x1B]" by code_simp+
  with sanitize_for_log_safe [of "[CHR 0x0A, CHR 0x1B]"] show ?thesis by blast
qed

text \<open>
  C27. Capping a stored response body never panics and never underflows: both cut points
  are character boundaries in the right order, the stored text is valid UTF-8, keeps at
  most half the cap from each end around the marker that counts the bytes left out, and
  is the sanitised body itself when that fits.
\<close>

theorem truncate_response_body_correct:
  assumes "str_ok s"
  shows "str_ok (truncate_response_body s m) \<and>
    (if length (sanitize_for_persistence s) \<le> m
     then truncate_response_body s m = sanitize_for_persistence s
     else \<exists>h t. h \<le> t \<and> t \<le> length (sanitize_for_persistence s) \<and>
         h \<le> m div 2 \<and> length (sanitize_for_persistence s) - t \<le> m div 2 \<and>
         slice_to (sanitize_for_persistence s) h \<noteq> None \<and>
         slice_from (sanitize_for_persistence s) t \<noteq> None \<and>
         truncate_response_body s m = take h (sanitize_for_persistence s) @
           truncation_marker (t - h) @ drop t (sanitize_for_persistence s))"
proof (cases "length (sanitize_for_persistence s) \<le> m")
  case True
  with truncate_response_body_ok [OF assms, of m] show ?thesis by (simp add: truncate_response_body_def Let_def)
next
  case False
  let ?c = "sanitize_for_persistence s"
  let ?h = "char_boundary_floor ?c (m div 2)"
  let ?t = "char_boundary_ceil ?c (length ?c - m div 2)"
  have m: "m < length ?c" using False by simp
  note cuts = truncate_cuts [OF m]
  have eq: "truncate_response_body s m = take ?h ?c @ truncation_marker (?t - ?h) @ drop ?t ?c"
    using m cuts by (simp add: truncate_response_body_def Let_def algebra_simps)
  have "length ?c - ?t \<le> m div 2" using cuts(2) by linarith
  then show ?thesis
    using truncate_response_body_ok [OF assms, of m] False cuts eq
    by (simp only: if_False simp_thms) (intro exI [of _ ?h] exI [of _ ?t], simp add: slice_to_def slice_from_def)
qed

theorem truncate_response_body_correct_witness:
  "str_ok ''abcdef'' \<and> str_ok (truncate_response_body ''abcdef'' 4)"
proof -
  have "str_ok ''abcdef''" by code_simp
  with truncate_response_body_correct [of "''abcdef''" 4] show ?thesis by blast
qed

text \<open>
  An accepted allowlist entry is a plain lower-case host name, never an address
  literal and never ending in a dot, and normalising it again changes nothing.
\<close>

theorem normalize_allowed_host_canonical:
  assumes "normalize_allowed_host e = Some h"
  shows "parse_ip h = None \<and> to_ascii_lowercase h = h \<and> normalize_allowed_host h = Some h"
proof -
  note sh = normalize_allowed_host_shape [OF assms]
  have "trim h = h" by (rule host_chars_trim [OF sh(3)])
  moreover have "trim_end_matches (CHR ''.'') h = h" by (rule trim_end_matches_id) (rule sh(5))
  ultimately show ?thesis using sh by (simp add: normalize_allowed_host_def Let_def)
qed

theorem normalize_allowed_host_canonical_witness:
  "normalize_allowed_host '' Backend.Local. '' = Some ''backend.local'' \<and>
   normalize_allowed_host ''backend.local'' = Some ''backend.local''"
proof -
  have "to_ascii_lowercase (trim_end_matches (CHR ''.'') (trim '' Backend.Local. '')) = ''backend.local''"
    "list_all host_char (chars ''backend.local'')" by code_simp+
  moreover have "parse_ip ''backend.local'' = None" by (simp add: parse_ip_eval)
  ultimately have "normalize_allowed_host '' Backend.Local. '' = Some ''backend.local''"
    by (simp add: normalize_allowed_host_def)
  with normalize_allowed_host_canonical [of "'' Backend.Local. ''" "''backend.local''"] show ?thesis by blast
qed

end
