(* ===== verification/Rust_Path.thy ===== *)
theory Rust_Path
  imports Rust_Str
begin

text \<open>
  \<open>std::path\<close> as far as the sources use it: a path is the list of its components, with
  the component \<open>/\<close> first for an absolute one. Components are names without separators.
\<close>

type_synonym path = "string list"

fun path_display :: "path \<Rightarrow> string" where
  "path_display [] = []"
| "path_display (c # cs) =
     (if c = ''/'' then ''/'' @ str_join ''/'' cs else str_join ''/'' (c # cs))"

definition path_join :: "path \<Rightarrow> string \<Rightarrow> path" where
  "path_join p n = p @ [n]"

definition file_name :: "path \<Rightarrow> string option" where
  "file_name p =
     (if p = [] \<or> last p = ''..'' \<or> last p = ''/'' then None else Some (last p))"

text \<open>\<open>rsplit_file_at_dot\<close>: a leading dot alone does not start an extension.\<close>

definition rsplit_file_at_dot :: "string \<Rightarrow> string option \<times> string option" where
  "rsplit_file_at_dot f =
     (if f = ''..'' then (Some f, None)
      else case rfind_byte (CHR ''.'') f of
        None \<Rightarrow> (None, Some f)
      | Some i \<Rightarrow> if i = 0 then (Some f, None) else (Some (take i f), Some (drop (Suc i) f)))"

definition extension :: "path \<Rightarrow> string option" where
  "extension p =
     (case file_name p of
        None \<Rightarrow> None
      | Some f \<Rightarrow>
          (case rsplit_file_at_dot f of (Some b, Some a) \<Rightarrow> Some a | _ \<Rightarrow> None))"

definition file_stem :: "string \<Rightarrow> string" where
  "file_stem f =
     (case rsplit_file_at_dot f of
        (Some b, _) \<Rightarrow> b | (None, Some a) \<Rightarrow> a | (None, None) \<Rightarrow> f)"

text \<open>\<open>Path::with_extension("")\<close>.\<close>

definition drop_extension :: "path \<Rightarrow> path" where
  "drop_extension p =
     (case file_name p of None \<Rightarrow> p | Some f \<Rightarrow> butlast p @ [file_stem f])"

text \<open>\<open>Path::strip_prefix\<close>: component-wise.\<close>

fun path_strip_prefix :: "path \<Rightarrow> path \<Rightarrow> path option" where
  "path_strip_prefix [] p = Some p"
| "path_strip_prefix (r # rs) [] = None"
| "path_strip_prefix (r # rs) (c # cs) = (if r = c then path_strip_prefix rs cs else None)"

section \<open>Lemmas\<close>

lemma path_strip_prefix_append [simp]: "path_strip_prefix r (r @ p) = Some p"
  by (induction r) auto

lemma path_strip_prefix_Some: "path_strip_prefix r p = Some q \<longleftrightarrow> p = r @ q"
  by (induction r p rule: path_strip_prefix.induct) auto

lemma rsplit_file_dotted:
  "b \<noteq> [] \<Longrightarrow> CHR ''.'' \<notin> set a \<Longrightarrow> b @ ''.'' @ a \<noteq> ''..'' \<Longrightarrow>
    rsplit_file_at_dot (b @ ''.'' @ a) = (Some b, Some a)"
  by (auto simp: rsplit_file_at_dot_def rfind_byte_append)

end
