(* ===== verification/Config.thy ===== *)
theory Config
  imports Dsl Security Rust_Path
begin

text \<open>
  \<open>src/config.rs\<close>: the configuration records with their defaults, the search for the
  configuration file, the preflight against JVM wrappers, the splicing of the database
  password, token resolution, the loopback classifier and the boot diagnostics. The
  process environment (\<open>std::env::var\<close>), the command line, the file system and the YAML
  deserialiser are parameters.
\<close>

type_synonym env = "string \<Rightarrow> string option"

section \<open>Records\<close>

record Limits =
  max_request_bytes :: nat
  max_response_bytes :: nat
  request_timeout_secs :: nat
  shell_timeout_secs :: nat

record AdminConfig =
  bearer_token_env :: string
  trust_network :: bool

record SecurityConfig =
  block_private_networks :: bool
  allow_dangerous_env_overrides :: bool
  max_query_params :: nat
  max_dsl_file_bytes :: nat
  dsl_load_timeout_secs :: nat
  max_retry_count :: u32
  min_cron_interval_secs :: int
  stored_response_body_max_bytes :: nat
  reload_min_interval_secs :: nat
  expose_jobs_publicly :: bool
  expose_running_publicly :: bool
  per_group_token_envs :: "(string \<times> string) list"
  allowed_private_hosts :: "string list"
  allow_dev_fixture_dsls :: bool

record DatabaseCfg =
  db_url :: string
  password_env :: string

record AppConfig =
  port :: nat
  dsl_path :: path
  app_root_path :: path
  allowed_origins :: "string list"
  shell_environment :: "(string \<times> string) list"
  limits :: Limits
  admin :: AdminConfig
  security :: SecurityConfig
  database :: "DatabaseCfg option"

section \<open>Defaults\<close>

definition default_port :: nat where "default_port = 8080"

definition default_dsl_path :: path where "default_dsl_path = [''.'', ''DSL'']"

definition default_app_root_path :: path where "default_app_root_path = [''/'', ''app'']"

definition default_max_request_bytes :: nat where "default_max_request_bytes = 1048576"

definition default_max_response_bytes :: nat where "default_max_response_bytes = 16777216"

definition default_request_timeout_secs :: nat where "default_request_timeout_secs = 30"

definition default_shell_timeout_secs :: nat where "default_shell_timeout_secs = 300"

definition default_password_env :: string where
  "default_password_env = ''CRONMANAGER_DB_PASSWORD''"

definition default_admin_token_env :: string where
  "default_admin_token_env = ''CRONMANAGER_ADMIN_TOKEN''"

definition default_max_query_params :: nat where "default_max_query_params = 64"

definition default_max_dsl_file_bytes :: nat where "default_max_dsl_file_bytes = 1048576"

definition default_dsl_load_timeout_secs :: nat where "default_dsl_load_timeout_secs = 15"

definition default_max_retry_count :: u32 where "default_max_retry_count = 10"

definition default_min_cron_interval_secs :: int where "default_min_cron_interval_secs = 10"

definition default_stored_response_body_max_bytes :: nat where
  "default_stored_response_body_max_bytes = 65536"

definition default_reload_min_interval_secs :: nat where "default_reload_min_interval_secs = 60"

definition default_limits :: Limits where
  "default_limits =
     \<lparr>max_request_bytes = default_max_request_bytes,
      max_response_bytes = default_max_response_bytes,
      request_timeout_secs = default_request_timeout_secs,
      shell_timeout_secs = default_shell_timeout_secs\<rparr>"

definition default_admin :: AdminConfig where
  "default_admin = \<lparr>bearer_token_env = default_admin_token_env, trust_network = False\<rparr>"

definition default_security :: SecurityConfig where
  "default_security =
     \<lparr>block_private_networks = True,
      allow_dangerous_env_overrides = False,
      max_query_params = default_max_query_params,
      max_dsl_file_bytes = default_max_dsl_file_bytes,
      dsl_load_timeout_secs = default_dsl_load_timeout_secs,
      max_retry_count = default_max_retry_count,
      min_cron_interval_secs = default_min_cron_interval_secs,
      stored_response_body_max_bytes = default_stored_response_body_max_bytes,
      reload_min_interval_secs = default_reload_min_interval_secs,
      expose_jobs_publicly = True,
      expose_running_publicly = True,
      per_group_token_envs = [],
      allowed_private_hosts = [],
      allow_dev_fixture_dsls = False\<rparr>"

definition default_config :: AppConfig where
  "default_config =
     \<lparr>port = default_port, dsl_path = default_dsl_path, app_root_path = default_app_root_path,
      allowed_origins = [], shell_environment = [], limits = default_limits,
      admin = default_admin, security = default_security, database = None\<rparr>"

section \<open>Allowlist\<close>

fun split_hosts :: "string list \<Rightarrow> string list \<times> string list" where
  "split_hosts [] = ([], [])"
| "split_hosts (entry # es) =
     (let (valid, invalid) = split_hosts es
      in case normalize_allowed_host entry of
           Some host \<Rightarrow> (host # valid, invalid)
         | None \<Rightarrow> (valid, entry # invalid))"

definition split_allowed_private_hosts :: "SecurityConfig \<Rightarrow> string list \<times> string list" where
  "split_allowed_private_hosts sec = split_hosts (allowed_private_hosts sec)"

section \<open>Finding and loading the file\<close>

fun cli_config :: "string list \<Rightarrow> string option" where
  "cli_config [] = None"
| "cli_config (a # rest) =
     (if a = ''--config'' \<and> rest \<noteq> [] then Some (hd rest)
      else case strip_prefix_str ''--config='' a of
        Some r \<Rightarrow> Some r
      | None \<Rightarrow> cli_config rest)"

definition config_search_paths :: "string list \<Rightarrow> env \<Rightarrow> string list" where
  "config_search_paths args env =
     (case cli_config (drop 1 args) of Some p \<Rightarrow> [p] | None \<Rightarrow> []) @
     (case env ''CRONMANAGER_CONFIG'' of Some p \<Rightarrow> if p \<noteq> [] then [p] else [] | None \<Rightarrow> []) @
     [''./cronmanager.yaml'', ''./cronmanager.yml'']"

definition jvm_wrappers :: "string list" where
  "jvm_wrappers = [''application:'', ''spring:'', ''management:'', ''logging:'']"

definition wrapper_of_line :: "string \<Rightarrow> string option" where
  "wrapper_of_line line =
     (if (case chars line of c # _ \<Rightarrow> is_whitespace c | [] \<Rightarrow> False) \<or> prefix ''#'' line
      then None
      else List.find (\<lambda>w. prefix w line) jvm_wrappers)"

definition wrapper_message :: "string \<Rightarrow> string" where
  "wrapper_message w =
     ''top-level `'' @ w @ ''` is the JVM Spring wrapper. CronManager uses a flat config schema ''
     @ em_dash @ '' unwrap the child fields to the top level (e.g. `application.configPath: X` ''
     @ ''becomes `dsl_path: X` at the top level; `spring.datasource.*` becomes `database.url` + ''
     @ ''env-var `CRONMANAGER_DB_PASSWORD`).''"

fun reject_wrapper_lines :: "string list \<Rightarrow> string \<Rightarrow> CronManagerError + unit" where
  "reject_wrapper_lines [] p = Ok ()"
| "reject_wrapper_lines (l # ls) p =
     (case wrapper_of_line l of
        Some w \<Rightarrow> Err (InvalidConfig p (wrapper_message w))
      | None \<Rightarrow> reject_wrapper_lines ls p)"

definition reject_jvm_wrappers :: "string \<Rightarrow> string \<Rightarrow> CronManagerError + unit" where
  "reject_jvm_wrappers body p = reject_wrapper_lines (str_lines body) p"

text \<open>
  The files that exist, each with what reading it yields, and the deserialiser are
  parameters.
\<close>

type_synonym config_fs = "string \<Rightarrow> (io_error + string) option"

fun load_first ::
  "config_fs \<Rightarrow> (string \<Rightarrow> string + AppConfig) \<Rightarrow> string list
     \<Rightarrow> CronManagerError + AppConfig \<times> string option" where
  "load_first fs yaml [] = Ok (default_config, None)"
| "load_first fs yaml (p # ps) =
     (case fs p of
        None \<Rightarrow> load_first fs yaml ps
      | Some content \<Rightarrow>
          and_then (map_err Io content) (\<lambda>body.
          and_then (reject_jvm_wrappers body p) (\<lambda>_.
          and_then (map_err (\<lambda>e. YamlParse p e) (yaml body)) (\<lambda>cfg.
          Ok (cfg, Some p)))))"

definition load_or_default ::
  "config_fs \<Rightarrow> (string \<Rightarrow> string + AppConfig) \<Rightarrow> string list \<Rightarrow> env
     \<Rightarrow> CronManagerError + AppConfig \<times> string option" where
  "load_or_default fs yaml args env = load_first fs yaml (config_search_paths args env)"

section \<open>Origins\<close>

datatype OneOrMany = One string | Many "string list"

fun de_origins :: "OneOrMany \<Rightarrow> string list" where
  "de_origins (One s) = filter (\<lambda>p. p \<noteq> []) (map trim (split_on (CHR '','') s))"
| "de_origins (Many l) = filter (\<lambda>p. p \<noteq> []) (map trim l)"

section \<open>Database password\<close>

definition unreserved :: "char \<Rightarrow> bool" where
  "unreserved b \<longleftrightarrow>
     is_ascii_alphanumeric b \<or> b = CHR ''-'' \<or> b = CHR ''.'' \<or> b = CHR ''_'' \<or> b = CHR ''~''"

definition percent_encode :: "string \<Rightarrow> string" where
  "percent_encode s =
     concat (map (\<lambda>b. if unreserved b then [b]
       else [CHR ''%'', hex_digit_upper (byte b div 16), hex_digit_upper (byte b mod 16)]) s)"

definition splice_password :: "string \<Rightarrow> string \<Rightarrow> string" where
  "splice_password url password =
     (let encoded = percent_encode password
      in case find_str ''://'' url of
           None \<Rightarrow> url
         | Some scheme_end \<Rightarrow>
             (let scheme = take (scheme_end + 3) url;
                  after = drop (scheme_end + 3) url;
                  (authority, rest) = (case find_byte (CHR ''/'') after of
                     Some i \<Rightarrow> (take i after, drop i after) | None \<Rightarrow> (after, []));
                  (userinfo, host) = (case rfind_byte (CHR ''@'') authority of
                     Some i \<Rightarrow> (take i authority, drop (i + 1) authority) | None \<Rightarrow> ([], authority));
                  user = (case find_byte (CHR '':'') userinfo of
                     Some i \<Rightarrow> take i userinfo | None \<Rightarrow> userinfo);
                  new_authority =
                    (if user = [] then '':'' @ encoded @ ''@'' @ host
                     else user @ '':'' @ encoded @ ''@'' @ host)
              in scheme @ new_authority @ rest))"

definition database_dsn :: "AppConfig \<Rightarrow> env \<Rightarrow> CronManagerError + string option" where
  "database_dsn cfg env =
     (case database cfg of
        None \<Rightarrow> Ok None
      | Some db \<Rightarrow>
          and_then (ok_or (env (password_env db))
            (Internal (''env var '' @ password_env db @ '' is unset but database.url is configured'')))
          (\<lambda>password. Ok (Some (splice_password (db_url db) password))))"

section \<open>Tokens\<close>

definition non_empty_var :: "env \<Rightarrow> string \<Rightarrow> string option" where
  "non_empty_var env v = (case env v of Some s \<Rightarrow> if s = [] then None else Some s | None \<Rightarrow> None)"

definition resolve_admin_token :: "AppConfig \<Rightarrow> env \<Rightarrow> string option" where
  "resolve_admin_token cfg env = non_empty_var env (bearer_token_env (admin cfg))"

definition resolve_per_group_tokens :: "AppConfig \<Rightarrow> env \<Rightarrow> string btree" where
  "resolve_per_group_tokens cfg env =
     foldl (\<lambda>out (group, env_var).
         case env env_var of
           Some v \<Rightarrow> if v \<noteq> [] then btree_insert group v out else out
         | None \<Rightarrow> out)
       [] (per_group_token_envs (security cfg))"

section \<open>Bind address\<close>

definition bind_host :: "string \<Rightarrow> string" where
  "bind_host bind =
     (case strip_prefix_str ''['' bind of
        Some rest \<Rightarrow> hd (split_on (CHR '']'') rest)
      | None \<Rightarrow>
          (case rfind_byte (CHR '':'') bind of Some i \<Rightarrow> take i bind | None \<Rightarrow> bind))"

definition bind_is_loopback :: "string \<Rightarrow> bool" where
  "bind_is_loopback bind =
     (let host = bind_host bind
      in if host = [] \<or> host = ''*'' then False
         else case parse_ip host of
           Some ip \<Rightarrow> ip_is_loopback ip
         | None \<Rightarrow> host = ''localhost'')"

section \<open>Boot diagnostics\<close>

text \<open>One constructor per \<open>tracing\<close> call of \<open>boot_diagnostics\<close>, with its level.\<close>

datatype diag =
    ConfigSummary
  | RequestTimeoutDisabled
  | ShellTimeoutDisabled
  | WildcardOrigin
  | HistoryDisabled
  | SecuritySummary bool
  | NoAdminToken string
  | TrustNetwork
  | PrivateNetworksAllowed
  | AllowedHosts "string list"
  | AllowedHostIgnored string
  | AllowlistInert
  | DangerousEnvAllowed
  | DevFixturesAllowed
  | JobsPublic
  | RunningPublic
  | GroupTokens nat nat
  | GroupTokenUnset string string

datatype level = INFO | WARN

fun diag_level :: "diag \<Rightarrow> level" where
  "diag_level ConfigSummary = INFO"
| "diag_level HistoryDisabled = INFO"
| "diag_level (SecuritySummary _) = INFO"
| "diag_level (AllowedHosts _) = INFO"
| "diag_level (GroupTokens _ _) = INFO"
| "diag_level _ = WARN"

definition emit_if :: "bool \<Rightarrow> 'a list \<Rightarrow> 'a list" where
  "emit_if c xs = (if c then xs else [])"

definition boot_diagnostics :: "AppConfig \<Rightarrow> env \<Rightarrow> diag list" where
  "boot_diagnostics cfg env =
     (let token_present = resolve_admin_token cfg env \<noteq> None;
          sec = security cfg
      in [ConfigSummary] @
         emit_if (request_timeout_secs (limits cfg) = 0) [RequestTimeoutDisabled] @
         emit_if (shell_timeout_secs (limits cfg) = 0) [ShellTimeoutDisabled] @
         emit_if (''*'' \<in> set (allowed_origins cfg)) [WildcardOrigin] @
         emit_if (database cfg = None) [HistoryDisabled] @
         [SecuritySummary token_present] @
         emit_if (\<not> token_present) [NoAdminToken (bearer_token_env (admin cfg))] @
         emit_if (trust_network (admin cfg)) [TrustNetwork] @
         emit_if (\<not> block_private_networks sec) [PrivateNetworksAllowed] @
         emit_if (allowed_private_hosts sec \<noteq> [])
           (let (valid, invalid) = split_allowed_private_hosts sec
            in [AllowedHosts valid] @ map AllowedHostIgnored invalid @
               emit_if (\<not> block_private_networks sec) [AllowlistInert]) @
         emit_if (allow_dangerous_env_overrides sec) [DangerousEnvAllowed] @
         emit_if (allow_dev_fixture_dsls sec) [DevFixturesAllowed] @
         emit_if (expose_jobs_publicly sec \<and> token_present) [JobsPublic] @
         emit_if (expose_running_publicly sec \<and> token_present) [RunningPublic] @
         emit_if (per_group_token_envs sec \<noteq> [])
           (let resolved = resolve_per_group_tokens cfg env
            in [GroupTokens (length (per_group_token_envs sec)) (length resolved)] @
               concat (map (\<lambda>(group, env_var).
                 emit_if (map_of resolved group = None) [GroupTokenUnset group env_var])
                 (per_group_token_envs sec))))"

section \<open>Lemmas\<close>

lemma set_emit_if [simp]: "set (emit_if c xs) = (if c then set xs else {})"
  by (simp add: emit_if_def)

subsection \<open>Percent encoding\<close>

text \<open>The reference decoder: \<open>%XY\<close> is one byte, anything else stands for itself.\<close>

definition hex_val :: "char \<Rightarrow> nat" where
  "hex_val c = (if byte c < 58 then byte c - 48 else byte c - 55)"

fun percent_decode :: "string \<Rightarrow> string" where
  "percent_decode (p # h # l # s) =
     (if p = CHR ''%'' then char_of (hex_val h * 16 + hex_val l) # percent_decode s
      else p # percent_decode (h # l # s))"
| "percent_decode (p # s) = p # percent_decode s"
| "percent_decode [] = []"

lemma hex_val_upper: "d < 16 \<Longrightarrow> hex_val (hex_digit_upper d) = d"
  by (simp add: hex_val_def hex_digit_upper_def)

lemma percent_decode_plain: "p \<noteq> CHR ''%'' \<Longrightarrow> percent_decode (p # s) = p # percent_decode s"
  by (cases s; cases "tl s") auto

lemma percent_not_unreserved: "\<not> unreserved (CHR ''%'')"
  by (simp add: unreserved_def is_ascii_alphanumeric_def is_ascii_upper_def is_ascii_lower_def
      is_ascii_digit_def)

lemma byte_lt_256: "byte c < 256"
  using of_char_mod_256 [where 'a = nat, of c] by (metis mod_less_divisor zero_less_numeral)

lemma byte_nibbles: "byte c div 16 < 16" "byte c mod 16 < 16"
  using byte_lt_256 [of c] less_mult_imp_div_less [of "byte c" 16 16] by auto

lemma percent_roundtrip: "percent_decode (percent_encode s) = s"
proof (induction s)
  case Nil
  then show ?case by (simp add: percent_encode_def)
next
  case (Cons b s)
  have enc: "percent_encode (b # s) = (if unreserved b then [b]
      else [CHR ''%'', hex_digit_upper (byte b div 16), hex_digit_upper (byte b mod 16)]) @ percent_encode s"
    by (simp add: percent_encode_def)
  show ?case
  proof (cases "unreserved b")
    case True
    then have "b \<noteq> CHR ''%''" using percent_not_unreserved by blast
    with True Cons show ?thesis by (simp add: enc percent_decode_plain)
  next
    case False
    with Cons byte_nibbles [of b] show ?thesis by (simp add: enc hex_val_upper)
  qed
qed

lemma hex_digit_upper_alnum: "d < 16 \<Longrightarrow> is_ascii_alphanumeric (hex_digit_upper d)"
  by (simp add: hex_digit_upper_def is_ascii_alphanumeric_def is_ascii_upper_def is_ascii_digit_def)

lemma percent_encode_chars: "b \<in> set (percent_encode s) \<Longrightarrow> unreserved b \<or> b = CHR ''%''"
  by (auto simp: percent_encode_def unreserved_def hex_digit_upper_alnum byte_nibbles split: if_splits)

lemma reserved_not_encoded:
  "c \<in> {CHR ''@'', CHR '':'', CHR ''/''} \<Longrightarrow> c \<notin> set (percent_encode s)"
  by (auto dest!: percent_encode_chars simp: unreserved_def is_ascii_alphanumeric_def
      is_ascii_upper_def is_ascii_lower_def is_ascii_digit_def)

subsection \<open>Splicing\<close>

text \<open>A DSN taken apart: the part before the path and what follows.\<close>

definition rest_ok :: "string \<Rightarrow> bool" where
  "rest_ok rest \<longleftrightarrow> rest = [] \<or> hd rest = CHR ''/''"

lemma cut_authority:
  assumes "CHR ''/'' \<notin> set auth" and "rest_ok rest"
  shows "(case find_byte (CHR ''/'') (auth @ rest) of
      Some i \<Rightarrow> (take i (auth @ rest), drop i (auth @ rest)) | None \<Rightarrow> (auth @ rest, [])) = (auth, rest)"
  using assms
  by (cases rest) (auto simp: rest_ok_def find_byte_append find_byte_None [THEN iffD2])

lemma cut_scheme:
  assumes "CHR '':'' \<notin> set sch"
  shows "find_str ''://'' (sch @ ''://'' @ s) = Some (length sch)"
  using find_str_append [of "''://''" sch s] assms by simp

lemma cut_user:
  "(case find_byte (CHR '':'') userinfo of Some i \<Rightarrow> take i userinfo | None \<Rightarrow> userinfo)
     = takeWhile (\<lambda>c. c \<noteq> CHR '':'') userinfo"
proof (cases "find_byte (CHR '':'') userinfo")
  case None
  then have "CHR '':'' \<notin> set userinfo" by (simp add: find_byte_None)
  then have "takeWhile (\<lambda>c. c \<noteq> CHR '':'') userinfo = userinfo" by (auto simp: takeWhile_eq_all_conv)
  with None show ?thesis by (simp only: option.case)
next
  case (Some i)
  then have "i < length userinfo" "userinfo ! i = CHR '':''" "CHR '':'' \<notin> set (take i userinfo)"
    by (auto dest: find_byte_Some)
  then have "takeWhile (\<lambda>c. c \<noteq> CHR '':'') (take i userinfo @ CHR '':'' # drop (Suc i) userinfo) = take i userinfo"
    by (intro takeWhile_append_stop) auto
  moreover have "take i userinfo @ CHR '':'' # drop (Suc i) userinfo = userinfo"
    using id_take_nth_drop [OF \<open>i < length userinfo\<close>] \<open>userinfo ! i = _\<close> by simp
  ultimately show ?thesis using Some by (simp only: option.case)
qed

lemma splice_password_with_user:
  assumes "CHR '':'' \<notin> set sch" and "CHR ''/'' \<notin> set (userinfo @ ''@'' @ host)"
    and "CHR ''@'' \<notin> set host" and "rest_ok rest"
  shows "splice_password (sch @ ''://'' @ userinfo @ ''@'' @ host @ rest) pw =
    sch @ ''://'' @ takeWhile (\<lambda>c. c \<noteq> CHR '':'') userinfo @ '':'' @ percent_encode pw @ ''@'' @ host @ rest"
proof -
  let ?auth = "userinfo @ ''@'' @ host"
  have sp: "find_str ''://'' (sch @ ''://'' @ ?auth @ rest) = Some (length sch)"
    by (rule cut_scheme [OF assms(1)])
  note au = cut_authority [OF assms(2,4), simplified append_assoc append.simps]
  have at: "rfind_byte (CHR ''@'') ?auth = Some (length userinfo)"
    using rfind_byte_append [OF assms(3), of userinfo] by simp
  show ?thesis
    using sp at
    by (simp add: splice_password_def Let_def au cut_user)
qed

subsection \<open>Bind address\<close>

lemma bind_host_wildcard: "bind_host (''0.0.0.0:'' @ show_nat p) = ''0.0.0.0''"
proof -
  have "CHR '':'' \<notin> set (show_nat p)" using show_nat_digits [of "CHR '':''" p] by auto
  then have "rfind_byte (CHR '':'') (''0.0.0.0'' @ CHR '':'' # show_nat p) = Some (length ''0.0.0.0'')"
    by (rule rfind_byte_append)
  then show ?thesis by (simp add: bind_host_def strip_prefix_str_def)
qed

lemma parse_unspecified: "parse_ip ''0.0.0.0'' = Some (V4 (Ipv4Addr 0 0 0 0))"
  by code_simp

text \<open>
  The address the server binds, \<open>0.0.0.0\<close> with any port, is never classified as
  loopback, so the missing-token refusal always applies to it.
\<close>

lemma wildcard_not_loopback: "\<not> bind_is_loopback (''0.0.0.0:'' @ show_nat p)"
  unfolding bind_is_loopback_def bind_host_wildcard Let_def parse_unspecified by simp

subsection \<open>Allowlist and tokens\<close>

lemma split_hosts_Cons:
  "fst (split_hosts (e # es)) =
     (case normalize_allowed_host e of Some h \<Rightarrow> h # fst (split_hosts es) | None \<Rightarrow> fst (split_hosts es))"
  "snd (split_hosts (e # es)) =
     (case normalize_allowed_host e of Some h \<Rightarrow> snd (split_hosts es) | None \<Rightarrow> e # snd (split_hosts es))"
  by (simp_all add: case_prod_beta Let_def split: option.splits)

lemma split_hosts_valid:
  "h \<in> set (fst (split_hosts es)) \<longleftrightarrow> (\<exists>e\<in>set es. normalize_allowed_host e = Some h)"
  by (induction es) (auto simp: split_hosts_Cons simp del: split_hosts.simps(2) split: option.splits)

lemma split_hosts_invalid:
  "e \<in> set (snd (split_hosts es)) \<longleftrightarrow> e \<in> set es \<and> normalize_allowed_host e = None"
  by (induction es) (auto simp: split_hosts_Cons simp del: split_hosts.simps(2) split: option.splits)

lemma resolve_admin_token_nonempty: "resolve_admin_token cfg env = Some t \<Longrightarrow> t \<noteq> []"
  by (auto simp: resolve_admin_token_def non_empty_var_def split: option.splits if_splits)

section \<open>Properties\<close>

text \<open>
  C29. The encoded database password decodes to the password, and every byte of it is an ASCII
  letter or digit or one of \<open>- . _ ~ %\<close>. So it contains no delimiter of a URL (the general and the sub
  delimiters of RFC 3986, and the space), in particular none of those that end the user part or the
  authority, and a password cannot move the connection to another host.
\<close>

theorem percent_encode_roundtrip:
  "percent_decode (percent_encode pw) = pw \<and>
   list_all (\<lambda>b. is_ascii_alphanumeric b \<or> b \<in> set ''-._~%'') (percent_encode pw) \<and>
   set (percent_encode pw) \<inter> set (''@:/?#[]!$&()*+,;='' @ [CHR 0x27, CHR 0x20]) = {}"
proof -
  have "list_all (\<lambda>b. is_ascii_alphanumeric b \<or> b \<in> set ''-._~%'') (percent_encode pw)"
    using percent_encode_chars [of _ pw] by (auto simp: list_all_iff unreserved_def)
  moreover from this have "set (percent_encode pw) \<inter> set (''@:/?#[]!$&()*+,;='' @ [CHR 0x27, CHR 0x20]) = {}"
    by (auto simp: list_all_iff is_ascii_alphanumeric_def is_ascii_upper_def is_ascii_lower_def is_ascii_digit_def)
  ultimately show ?thesis using percent_roundtrip by blast
qed

text \<open>
  Splicing replaces exactly the password of the user part: scheme, user name, host
  and the rest of the DSN are kept, also when the user part itself holds an at sign.
\<close>

theorem splice_password_replaces:
  assumes "CHR '':'' \<notin> set sch" and "CHR ''/'' \<notin> set (userinfo @ ''@'' @ host)"
    and "CHR ''@'' \<notin> set host" and "rest_ok rest"
  shows "splice_password (sch @ ''://'' @ userinfo @ ''@'' @ host @ rest) pw =
    sch @ ''://'' @ takeWhile (\<lambda>c. c \<noteq> CHR '':'') userinfo @ '':'' @ percent_encode pw @ ''@'' @ host @ rest"
  by (rule splice_password_with_user [OF assms])

theorem splice_password_replaces_witness:
  "splice_password ''postgres://cron:old@db:5432/jobs'' ''p@ss'' = ''postgres://cron:p%40ss@db:5432/jobs''"
proof -
  have "takeWhile (\<lambda>c. c \<noteq> CHR '':'') ''cron:old'' = ''cron''" "percent_encode ''p@ss'' = ''p%40ss''" by code_simp+
  with splice_password_replaces [of "''postgres''" "''cron:old''" "''db:5432''" "''/jobs''" "''p@ss''"]
  show ?thesis by (simp add: rest_ok_def)
qed

text \<open>
  The first existing candidate file decides: it is the one loaded, or its error is
  the result; the defaults are used only when no candidate exists.
\<close>

theorem load_first_existing:
  "load_first fs yaml ps =
     (case List.find (\<lambda>p. fs p \<noteq> None) ps of
        None \<Rightarrow> Ok (default_config, None)
      | Some p \<Rightarrow>
          (case the (fs p) of
             Err e \<Rightarrow> Err (Io e)
           | Ok body \<Rightarrow> and_then (reject_jvm_wrappers body p) (\<lambda>_.
               and_then (map_err (\<lambda>e. YamlParse p e) (yaml body)) (\<lambda>cfg. Ok (cfg, Some p)))))"
proof (induction ps)
  case (Cons p ps)
  show ?case
  proof (cases "fs p")
    case (Some content)
    then show ?thesis by (cases content) simp_all
  qed (simp add: Cons.IH)
qed simp

end
