(* ===== verification/Env_Safety.thy ===== *)
theory Env_Safety
  imports Config
begin

text \<open>
  \<open>src/env_safety.rs\<close>: the deployment environment, the dev-fixture patterns, the
  weak-credential and posture checks and the two boot gates. A byte-index slice that
  misses a character boundary panics: \<open>redact\<close> and the gate that calls it return
  \<open>None\<close> then. What a gate logs in \<open>Dev\<close>, where it lets everything pass, is
  \<open>cred_warnings\<close> and \<open>posture_warnings\<close>.
\<close>

section \<open>Environment\<close>

datatype Environment = Dev | Test | Staging | Production

fun show_environment :: "Environment \<Rightarrow> string" where
  "show_environment Dev = ''Dev''"
| "show_environment Test = ''Test''"
| "show_environment Staging = ''Staging''"
| "show_environment Production = ''Production''"

definition from_env_str :: "string \<Rightarrow> Environment" where
  "from_env_str raw =
     (let r = to_ascii_lowercase (trim raw)
      in if r \<in> {''dev'', ''development'', ''local''} then Dev
         else if r \<in> {''test'', ''testing'', ''ci''} then Test
         else if r \<in> {''stage'', ''staging'', ''preprod''} then Staging
         else if r \<in> {''prod'', ''production'', ''live''} then Production
         else Production)"

fun first_set :: "env \<Rightarrow> string list \<Rightarrow> string option" where
  "first_set env [] = None"
| "first_set env (v # vs) = (case env v of Some s \<Rightarrow> Some s | None \<Rightarrow> first_set env vs)"

definition environment_from_env :: "env \<Rightarrow> Environment" where
  "environment_from_env env =
     from_env_str (unwrap_or ''dev'' (first_set env [''APP_ENV'', ''ENVIRONMENT'', ''DEPLOY_ENV'']))"

definition requires_prod_creds :: "Environment \<Rightarrow> bool" where
  "requires_prod_creds e \<longleftrightarrow> e \<noteq> Dev"

section \<open>Dev fixtures\<close>

definition DEV_ONLY_DSL_PATTERNS :: "string list" where
  "DEV_ONLY_DSL_PATTERNS =
     [''dev-login'', ''mock-'', ''-mock'', ''/test/'', ''example-'', ''-example'', ''/dev/'', ''/mocks/'']"

definition dev_fixture_pattern :: "string \<Rightarrow> string option" where
  "dev_fixture_pattern path_str =
     (let normalised = to_ascii_lowercase (str_replace (CHR 0x5C) (CHR ''/'') path_str)
      in List.find (\<lambda>pat. str_contains pat normalised) DEV_ONLY_DSL_PATTERNS)"

datatype DevFixtureAction = Ignore | Warn | Refuse

definition action_from_env :: "Environment \<Rightarrow> bool \<Rightarrow> DevFixtureAction" where
  "action_from_env e allow_dev_fixture =
     (if \<not> requires_prod_creds e \<or> allow_dev_fixture then Warn else Refuse)"

section \<open>Credentials\<close>

definition WEAK_PATTERNS :: "string list" where
  "WEAK_PATTERNS =
     [''changeit'', ''changeme'', ''change-me'', ''changethis'', ''letmein'', ''password'',
      ''qwerty'', ''welcome'', ''01234'', ''12345'', ''123456'', ''abcdef'', ''dev-'', ''-dev'',
      ''test-'', ''-test'', ''example'', ''sample'', ''default-'', ''-default'', ''todo'', ''tbd'',
      ''fixme'', ''-poc'', ''poc-'', ''mock-'', ''-mock'', ''staging-'', ''-staging'',
      ''test-admin-token'']"

datatype WeakReason = Empty | TooShort | Pattern string

fun show_weak_reason :: "WeakReason \<Rightarrow> string" where
  "show_weak_reason Empty = ''empty''"
| "show_weak_reason TooShort = ''too_short''"
| "show_weak_reason (Pattern p) = ''weak-pattern:'' @ p"

record CredCheck =
  cred_context :: string
  cred_field :: string
  cred_value :: string
  min_len :: nat

definition is_weak :: "CredCheck \<Rightarrow> WeakReason option" where
  "is_weak c =
     (let v = trim (cred_value c)
      in if v = [] then Some Empty
         else if length v < min_len c then Some TooShort
         else map_option Pattern
           (List.find (\<lambda>pattern. str_contains pattern (to_ascii_lowercase v)) WEAK_PATTERNS))"

record PostureCheck =
  posture_name :: string
  is_safe :: bool
  description :: string
  fix_hint :: string

definition redact :: "string \<Rightarrow> string option" where
  "redact v =
     (if length v \<le> 4 then Some ''****''
      else case (slice_to v 2, slice_from v (length v - 2)) of
        (Some a, Some b) \<Rightarrow> Some (a @ ''****'' @ b)
      | _ \<Rightarrow> None)"

section \<open>Gates\<close>

definition newline :: string where "newline = [CHR 0x0A]"

definition cred_failure :: "CredCheck \<Rightarrow> WeakReason \<Rightarrow> string option" where
  "cred_failure c reason =
     map_option (\<lambda>r. ''  - '' @ cred_context c @ ''.'' @ cred_field c @ '' = '' @ r
       @ '' (weak: '' @ show_weak_reason reason @ '')'') (redact (trim (cred_value c)))"

fun cred_failures :: "CredCheck list \<Rightarrow> string list option" where
  "cred_failures [] = Some []"
| "cred_failures (c # cs) =
     (case is_weak c of
        None \<Rightarrow> cred_failures cs
      | Some reason \<Rightarrow>
          (case cred_failure c reason of
             None \<Rightarrow> None
           | Some f \<Rightarrow> map_option (\<lambda>fs. f # fs) (cred_failures cs)))"

definition enforce_creds :: "Environment \<Rightarrow> CredCheck list \<Rightarrow> (string + unit) option" where
  "enforce_creds e checks =
     map_option (\<lambda>failures.
       if failures = [] then Ok ()
       else if requires_prod_creds e then
         Err (''REFUSING TO START in '' @ show_environment e @ '': '' @ show_nat (length failures)
           @ '' weak/default credential(s) detected:'' @ newline @ str_join newline failures @ newline
           @ ''Rotate these before starting in a non-dev environment. Set APP_ENV=dev ''
           @ ''(or ENVIRONMENT=dev, DEPLOY_ENV=dev) to permit dev defaults locally.'')
       else Ok ()) (cred_failures checks)"

definition enforce_posture :: "Environment \<Rightarrow> PostureCheck list \<Rightarrow> string + unit" where
  "enforce_posture e checks =
     (let unsafe_items = filter (\<lambda>c. \<not> is_safe c) checks
      in if unsafe_items = [] then Ok ()
         else if requires_prod_creds e then
           Err (''REFUSING TO START in '' @ show_environment e @ '': ''
             @ show_nat (length unsafe_items) @ '' unsafe posture item(s):'' @ newline
             @ str_join newline (map (\<lambda>c. ''  - '' @ posture_name c @ '': '' @ description c @ newline
                 @ ''      fix: '' @ fix_hint c) unsafe_items))
         else Ok ())"

text \<open>What the gates log in \<open>Dev\<close>; a posture line comes with the name of its flag.\<close>

definition cred_warnings :: "Environment \<Rightarrow> CredCheck list \<Rightarrow> string list option" where
  "cred_warnings e checks =
     map_option (\<lambda>failures. if requires_prod_creds e then []
       else map (\<lambda>f. ''weak credential (dev env, permitted): '' @ f) failures) (cred_failures checks)"

definition posture_warnings :: "Environment \<Rightarrow> PostureCheck list \<Rightarrow> (string \<times> string) list" where
  "posture_warnings e checks =
     (if requires_prod_creds e then []
      else map (\<lambda>c. (posture_name c, ''unsafe posture (dev env, permitted): '' @ posture_name c @ '' '' @ em_dash @ '' ''
             @ description c @ '' '' @ em_dash @ '' fix: '' @ fix_hint c))
           (filter (\<lambda>c. \<not> is_safe c) checks))"

definition cred_checks_for :: "AppConfig \<Rightarrow> env \<Rightarrow> CredCheck list" where
  "cred_checks_for cfg env =
     [\<lparr>cred_context = ''admin'', cred_field = ''token'',
       cred_value = unwrap_or [] (resolve_admin_token cfg env), min_len = 32\<rparr>] @
     (case database cfg of
        None \<Rightarrow> []
      | Some db \<Rightarrow>
          [\<lparr>cred_context = ''database'', cred_field = ''password'',
            cred_value = unwrap_or [] (env (password_env db)), min_len = 12\<rparr>])"

definition section_sign :: string where "section_sign = [CHR 0xC2, CHR 0xA7]"

definition posture_checks_for :: "AppConfig \<Rightarrow> PostureCheck list" where
  "posture_checks_for cfg =
     [\<lparr>posture_name = ''admin.trust_network'', is_safe = (\<not> trust_network (admin cfg)),
       description = ''the boot-time refusal on non-loopback binds without a token is DISABLED'',
       fix_hint = ''set admin.trust_network=false and configure a bearer token''\<rparr>,
      \<lparr>posture_name = ''security.block_private_networks'',
       is_safe = block_private_networks (security cfg),
       description = ''SSRF pre-flight is disabled; HTTP jobs may target link-local, RFC 1918, or ''
         @ ''ULA endpoints (cloud metadata included)'',
       fix_hint = ''set security.block_private_networks=true (default)''\<rparr>,
      \<lparr>posture_name = ''security.allow_dangerous_env_overrides'',
       is_safe = (\<not> allow_dangerous_env_overrides (security cfg)),
       description = ''PATH / LD_* / DYLD_* / PYTHONPATH / NODE_OPTIONS can be set from /execute query params'',
       fix_hint = ''set security.allow_dangerous_env_overrides=false (default)''\<rparr>,
      \<lparr>posture_name = ''security.allow_dev_fixture_dsls'',
       is_safe = (\<not> allow_dev_fixture_dsls (security cfg)),
       description = ''FLEET '' @ section_sign @ ''11.3 '' @ em_dash
         @ '' any file under dsl_path matching a dev-fixture pattern (dev-login, mock-, -mock, ''
         @ ''/test/, example-, -example, /dev/, /mocks/) loads with only a WARN in non-dev ''
         @ ''environments; otherwise refused'',
       fix_hint = ''set security.allow_dev_fixture_dsls=false (default) and rename any ''
         @ ''dev-fixture files out of dsl_path''\<rparr>]"

section \<open>The gate interface\<close>

text \<open>
  What both boot gates promise their caller: no failing check means they pass, a failing
  check is fatal exactly outside \<open>Dev\<close>. A failing check whose report cannot be
  rendered is excluded by \<open>printable\<close>.
\<close>

locale safety_gate =
  fixes gate :: "Environment \<Rightarrow> 'c list \<Rightarrow> (string + unit) option"
    and failing :: "'c \<Rightarrow> bool"
    and printable :: "'c \<Rightarrow> bool"
  assumes gate_clean: "\<forall>c\<in>set cs. \<not> failing c \<Longrightarrow> gate e cs = Some (Ok ())"
    and gate_dev: "\<forall>c\<in>set cs. failing c \<longrightarrow> printable c \<Longrightarrow> gate Dev cs = Some (Ok ())"
    and gate_refuses: "\<forall>c\<in>set cs. failing c \<longrightarrow> printable c \<Longrightarrow> c \<in> set cs \<Longrightarrow> failing c \<Longrightarrow>
      e \<noteq> Dev \<Longrightarrow> \<exists>m. gate e cs = Some (Err m)"
    and gate_sound: "gate e cs = Some (Ok ()) \<Longrightarrow> e \<noteq> Dev \<Longrightarrow> c \<in> set cs \<Longrightarrow> \<not> failing c"
begin

lemma gate_strict_iff: "e \<noteq> Dev \<Longrightarrow> gate e cs = Some (Ok ()) \<longleftrightarrow> (\<forall>c\<in>set cs. \<not> failing c)"
  using gate_clean [of cs e] gate_sound [of e cs] by blast

lemma gate_passes_iff:
  assumes "\<forall>c\<in>set cs. failing c \<longrightarrow> printable c"
  shows "gate e cs = Some (Ok ()) \<longleftrightarrow> e = Dev \<or> (\<forall>c\<in>set cs. \<not> failing c)"
  using assms gate_clean [of cs e] gate_dev [of cs] gate_refuses [of cs _ e] by fastforce

lemma gate_total:
  assumes "\<forall>c\<in>set cs. failing c \<longrightarrow> printable c"
  shows "\<exists>r. gate e cs = Some r"
  using assms gate_clean [of cs e] gate_dev [of cs] gate_refuses [of cs _ e] by (cases "e = Dev") blast+

lemma gate_fewer_checks:
  assumes "\<forall>c\<in>set cs. failing c \<longrightarrow> printable c" and "set ds \<subseteq> set cs"
    and "gate e cs = Some (Ok ())"
  shows "gate e ds = Some (Ok ())"
proof -
  have "\<forall>c\<in>set ds. failing c \<longrightarrow> printable c" using assms(1,2) by blast
  with assms gate_passes_iff show ?thesis by blast
qed

end

lemma cred_failures_Some:
  "cred_failures cs = Some fs \<Longrightarrow> (fs = []) \<longleftrightarrow> (\<forall>c\<in>set cs. is_weak c = None)"
  by (induction cs arbitrary: fs) (auto split: option.splits)

lemma cred_failures_total:
  "(\<forall>c\<in>set cs. is_weak c \<noteq> None \<longrightarrow> redact (trim (cred_value c)) \<noteq> None) \<longleftrightarrow> cred_failures cs \<noteq> None"
  by (induction cs) (auto simp: cred_failure_def split: option.splits)

lemma enforce_creds_Some:
  assumes "cred_failures cs = Some fs"
  shows "enforce_creds e cs = Some (Ok ()) \<longleftrightarrow> fs = [] \<or> e = Dev" "enforce_creds e cs \<noteq> None"
  using assms by (simp_all add: enforce_creds_def requires_prod_creds_def)

lemma not_passed: "r \<noteq> Some (Ok ()) \<Longrightarrow> r \<noteq> None \<Longrightarrow> \<exists>m. r = Some (Err m)"
  by (metis not_Some_eq old.unit.exhaust sum.exhaust)

interpretation cg: safety_gate enforce_creds "\<lambda>c. is_weak c \<noteq> None"
  "\<lambda>c. redact (trim (cred_value c)) \<noteq> None"
proof (unfold_locales, goal_cases)
  case (1 cs e)
  then have "cred_failures cs \<noteq> None" using cred_failures_total [of cs] by blast
  then obtain fs where fs: "cred_failures cs = Some fs" by blast
  from cred_failures_Some [OF fs] 1 have "fs = []" by blast
  then show ?case by (simp add: enforce_creds_Some [OF fs])
next
  case (2 cs)
  then have "cred_failures cs \<noteq> None" using cred_failures_total [of cs] by blast
  then obtain fs where fs: "cred_failures cs = Some fs" by blast
  show ?case by (simp add: enforce_creds_Some [OF fs])
next
  case (3 cs c e)
  then have "cred_failures cs \<noteq> None" using cred_failures_total [of cs] by blast
  then obtain fs where fs: "cred_failures cs = Some fs" by blast
  have "fs \<noteq> []" using cred_failures_Some [OF fs] 3(2,3) by (metis (full_types))
  with 3 enforce_creds_Some [OF fs, of e] show ?case by (intro not_passed) simp_all
next
  case (4 e cs c)
  then obtain fs where fs: "cred_failures cs = Some fs" by (auto simp: enforce_creds_def)
  with 4 enforce_creds_Some [OF fs, of e] cred_failures_Some [OF fs] show ?case by simp
qed

interpretation pg: safety_gate "\<lambda>e cs. Some (enforce_posture e cs)" "\<lambda>c. \<not> is_safe c" "\<lambda>_. True"
  by unfold_locales
    (auto simp: enforce_posture_def requires_prod_creds_def Let_def filter_empty_conv split: if_splits)

section \<open>Lemmas\<close>

lemma redact_panics_iff:
  "redact v = None \<longleftrightarrow> 4 < length v \<and> (\<not> is_char_boundary v 2 \<or> \<not> is_char_boundary v (length v - 2))"
  by (auto simp: redact_def slice_to_def slice_from_def split: option.splits)

lemma is_weak_None:
  "is_weak c = None \<longleftrightarrow> trim (cred_value c) \<noteq> [] \<and> min_len c \<le> length (trim (cred_value c)) \<and>
    (\<forall>p\<in>set WEAK_PATTERNS. \<not> str_contains p (to_ascii_lowercase (trim (cred_value c))))"
  by (auto simp: is_weak_def Let_def find_None_iff)

lemma not_weak_iff:
  "is_weak c = None \<longleftrightarrow> max 1 (min_len c) \<le> length (trim (cred_value c)) \<and>
     (\<forall>p\<in>set WEAK_PATTERNS. \<not> sublist p (to_ascii_lowercase (trim (cred_value c))))"
  by (auto simp: is_weak_None str_contains_iff Suc_le_eq)

lemma posture_all_safe:
  "(\<forall>c\<in>set (posture_checks_for cfg). is_safe c) \<longleftrightarrow>
     \<not> trust_network (admin cfg) \<and> block_private_networks (security cfg) \<and>
     \<not> allow_dangerous_env_overrides (security cfg) \<and> \<not> allow_dev_fixture_dsls (security cfg)"
  by (auto simp: posture_checks_for_def)

lemma dev_fixture_pattern_None:
  "dev_fixture_pattern p = None \<longleftrightarrow>
     (\<forall>pat\<in>set DEV_ONLY_DSL_PATTERNS.
        \<not> str_contains pat (to_ascii_lowercase (str_replace (CHR 0x5C) (CHR ''/'') p)))"
  by (auto simp: dev_fixture_pattern_def Let_def find_None_iff)

lemma action_refuse_iff: "action_from_env e a = Refuse \<longleftrightarrow> e \<noteq> Dev \<and> \<not> a"
  by (auto simp: action_from_env_def requires_prod_creds_def)

lemma action_never_ignore: "action_from_env e a \<noteq> Ignore"
  by (auto simp: action_from_env_def)

section \<open>Properties\<close>



text \<open>
  When none of the three variables is set the environment is \<open>Dev\<close>, the permissive
  class, while every unrecognised value is \<open>Production\<close>. The module's documentation
  promises \<open>Production\<close> for a missing value too.
\<close>

theorem unset_environment_is_dev:
  "(env ''APP_ENV'' = None \<and> env ''ENVIRONMENT'' = None \<and> env ''DEPLOY_ENV'' = None
      \<longrightarrow> environment_from_env env = Dev) \<and>
   (env ''APP_ENV'' = Some ''prroduction'' \<longrightarrow> environment_from_env env = Production)"
proof -
  have "from_env_str ''dev'' = Dev" "from_env_str ''prroduction'' = Production" by code_simp+
  then show ?thesis by (simp add: environment_from_env_def)
qed

theorem unset_environment_is_dev_witness: "environment_from_env (\<lambda>_. None) = Dev"
  using unset_environment_is_dev [of "\<lambda>_. None"] by simp

end
