(* ===== verification/Loader.thy ===== *)
theory Loader
  imports Env_Safety
begin

text \<open>
  \<open>src/dsl/loader.rs\<close>: the walk over the DSL directory, the per-file size cap, the
  conversion of a parsed YAML job into a \<open>JobSpec\<close> with all of its checks, and the
  bounded load. The cron, URL, header and YAML parsers are parameters, collected in a
  record; the directory is a tree of what the file system answers. WARN and ERROR lines
  are not modelled.
\<close>

section \<open>Third-party parsers\<close>

text \<open>A parsed cron expression: the first firing time strictly after a given instant.\<close>

type_synonym schedule = "int \<Rightarrow> int option"

datatype Host = Domain string | HostIpv4 ipv4 | HostIpv6 ipv6

record Url =
  scheme :: string
  url_host :: "Host option"
  host_str :: "string option"
  url_port :: "nat option"

datatype RawTrigger = TBool bool | TStr string

datatype RawCommand = CString string | CList "string list"

record RawJob =
  raw_trigger :: RawTrigger
  ty :: string
  start_date :: "int option"
  end_date :: "int option"
  retry_count :: "u32 option"
  retry_delay_ms :: "nat option"
  raw_ignore_failures :: "bool option"
  raw_method :: "string option"
  raw_url :: "string option"
  raw_headers :: "string btree option"
  header_envs :: "string btree option"
  raw_command :: "RawCommand option"
  raw_allowed_envs :: "string list option"

record dsl_lib =
  cron_from_str :: "string \<Rightarrow> string + schedule"
  url_parse :: "string \<Rightarrow> string + Url"
  header_name :: "string \<Rightarrow> string option"
  header_value_ok :: "string \<Rightarrow> bool"
  yaml_jobs :: "string \<Rightarrow> string + RawJob btree"

section \<open>Policy\<close>

record LoadPolicy =
  pol_max_file_bytes :: nat
  pol_max_retry_count :: u32
  pol_min_cron_interval_secs :: int
  pol_block_private_networks :: bool
  pol_dev_fixture_action :: DevFixtureAction

definition permissive :: LoadPolicy where
  "permissive =
     \<lparr>pol_max_file_bytes = 8 * 1024 * 1024, pol_max_retry_count = - 1,
      pol_min_cron_interval_secs = 0, pol_block_private_networks = False,
      pol_dev_fixture_action = Ignore\<rparr>"

section \<open>One job\<close>

definition quoted :: "string \<Rightarrow> string" where
  "quoted s = [CHR 0x27] @ s @ [CHR 0x27]"

definition bad_job :: "path \<Rightarrow> JobKey \<Rightarrow> string \<Rightarrow> CronManagerError" where
  "bad_job source k reason =
     InvalidJobDefinition (path_display source) (''job '' @ quoted (name k) @ '' '' @ reason)"

definition normalise_trigger :: "RawTrigger \<Rightarrow> path \<Rightarrow> CronManagerError + Trigger" where
  "normalise_trigger raw source =
     (case raw of
        TBool b \<Rightarrow>
          if b then Err (InvalidJobDefinition (path_display source)
            ''trigger: true is not a valid schedule; use a cron string or `off`'')
          else Ok Manual
      | TStr s \<Rightarrow>
          if to_ascii_lowercase s \<in> {''off'', ''false'', ''no'', ''disabled''} then Ok Manual
          else Ok (Cron s))"

definition into_argv :: "RawCommand \<Rightarrow> JobKey \<Rightarrow> path \<Rightarrow> CronManagerError + string list" where
  "into_argv c k source =
     (let argv = (case c of CString s \<Rightarrow> split_whitespace s | CList v \<Rightarrow> v)
      in if argv = [] \<or> hd argv = [] then
           Err (bad_job source k
             ''has type: exec but the command field is empty; specify at least the program name'')
         else Ok argv)"

definition FORBIDDEN_HEADERS :: "string list" where
  "FORBIDDEN_HEADERS =
     [''host'', ''content-length'', ''transfer-encoding'', ''connection'', ''upgrade'', ''te'', ''trailer'']"

definition check_name :: "dsl_lib \<Rightarrow> path \<Rightarrow> JobKey \<Rightarrow> string \<Rightarrow> CronManagerError + string" where
  "check_name lib source k n =
     and_then (ok_or (header_name lib n)
       (bad_job source k (''has invalid header name '' @ quoted n))) (\<lambda>parsed.
     and_then (guard_err (parsed \<in> set FORBIDDEN_HEADERS)
       (bad_job source k (''may not set header '' @ quoted n))) (\<lambda>_.
     Ok parsed))"

definition literal_header ::
  "dsl_lib \<Rightarrow> path \<Rightarrow> JobKey \<Rightarrow> string \<times> string \<Rightarrow> CronManagerError + HttpHeader" where
  "literal_header lib source k = (\<lambda>(n, value).
     and_then (check_name lib source k n) (\<lambda>n'.
     and_then (guard_err (\<not> header_value_ok lib value)
       (bad_job source k (''has invalid value for header '' @ quoted n'))) (\<lambda>_.
     Ok \<lparr>hdr_name = n', hdr_source = Literal value\<rparr>)))"

definition valid_env_name :: "string \<Rightarrow> bool" where
  "valid_env_name e \<longleftrightarrow>
     e \<noteq> [] \<and> \<not> is_ascii_digit (hd e) \<and> list_all (\<lambda>c. is_ascii_alphanumeric c \<or> c = CHR ''_'') e"

text \<open>The loop over \<open>headerEnvs\<close>, with the headers pushed so far.\<close>

fun env_headers ::
  "dsl_lib \<Rightarrow> env \<Rightarrow> path \<Rightarrow> JobKey \<Rightarrow> HttpHeader list \<Rightarrow> (string \<times> string) list
     \<Rightarrow> CronManagerError + HttpHeader list" where
  "env_headers lib env source k out [] = Ok out"
| "env_headers lib env source k out ((n, env_name) # es) =
     and_then (check_name lib source k n) (\<lambda>n'.
     and_then (guard_err (\<exists>h\<in>set out. hdr_name h = n')
       (bad_job source k (''sets header '' @ quoted n' @ '' in both headers and headerEnvs''))) (\<lambda>_.
     and_then (guard_err (\<not> valid_env_name env_name)
       (bad_job source k (''headerEnvs['' @ quoted n' @ ''] is not a valid env-var name''))) (\<lambda>_.
     case env env_name of
       Some v \<Rightarrow>
         if v \<noteq> [] \<and> header_value_ok lib v then
           env_headers lib env source k (out @ [\<lparr>hdr_name = n', hdr_source = Env env_name\<rparr>]) es
         else Err (bad_job source k (''env var '' @ quoted env_name @ '' (header '' @ quoted n'
           @ '') is empty or not a valid header value''))
     | None \<Rightarrow> Err (bad_job source k (''header '' @ quoted n' @ '' needs env var ''
         @ quoted env_name @ '', which is not set'')))))"

definition build_http_headers ::
  "dsl_lib \<Rightarrow> env \<Rightarrow> string btree \<Rightarrow> string btree \<Rightarrow> path \<Rightarrow> JobKey
     \<Rightarrow> CronManagerError + HttpHeader list" where
  "build_http_headers lib env literal envs source k =
     and_then (try_map (literal_header lib source k) literal) (\<lambda>out.
     env_headers lib env source k out envs)"

definition private_ip_error :: "JobKey \<Rightarrow> path \<Rightarrow> string \<Rightarrow> CronManagerError" where
  "private_ip_error k source ip =
     bad_job source k (''url host '' @ quoted ip
       @ '' is a non-routable / private IP; set security.block_private_networks=false to allow ''
       @ ''(danger: SSRF against cloud metadata)'')"

definition host_ip :: "Host \<Rightarrow> IpAddr option" where
  "host_ip h = (case h of HostIpv4 a \<Rightarrow> Some (V4 a) | HostIpv6 a \<Rightarrow> Some (V6 a) | Domain _ \<Rightarrow> None)"

definition validate_http_url ::
  "dsl_lib \<Rightarrow> string \<Rightarrow> LoadPolicy \<Rightarrow> path \<Rightarrow> JobKey \<Rightarrow> CronManagerError + unit" where
  "validate_http_url lib url_str policy source k =
     and_then (map_err (\<lambda>e. bad_job source k
       (''url '' @ quoted url_str @ '' is not a valid URL: '' @ e)) (url_parse lib url_str)) (\<lambda>parsed.
     and_then (guard_err (scheme parsed \<notin> {''http'', ''https''})
       (bad_job source k (''url uses scheme '' @ quoted (scheme parsed) @ '' '' @ em_dash
         @ '' only http and https are allowed''))) (\<lambda>_.
     and_then (ok_or (url_host parsed)
       (bad_job source k (''url '' @ quoted url_str @ '' has no host component''))) (\<lambda>host.
     if \<not> pol_block_private_networks policy then Ok ()
     else case host_ip host of
            Some ip \<Rightarrow>
              if is_private_or_local ip then Err (private_ip_error k source (show_ip ip)) else Ok ()
          | None \<Rightarrow> Ok ())))"

definition KNOWN_METHODS :: "string list" where
  "KNOWN_METHODS = [''GET'', ''POST'', ''PUT'', ''DELETE'', ''PATCH'', ''HEAD'', ''OPTIONS'']"

definition http_kind ::
  "dsl_lib \<Rightarrow> env \<Rightarrow> RawJob \<Rightarrow> JobKey \<Rightarrow> path \<Rightarrow> LoadPolicy \<Rightarrow> CronManagerError + JobKind" where
  "http_kind lib env j k source policy =
     and_then (ok_or (raw_method j) (bad_job source k ''has type: http but no method field'')) (\<lambda>method.
     and_then (ok_or (raw_url j) (bad_job source k ''has type: http but no url field'')) (\<lambda>url.
     and_then (guard_err (to_ascii_uppercase method \<notin> set KNOWN_METHODS)
       (bad_job source k (''has unknown HTTP method '' @ quoted method))) (\<lambda>_.
     and_then (validate_http_url lib url policy source k) (\<lambda>_.
     and_then (build_http_headers lib env (unwrap_or [] (raw_headers j))
       (unwrap_or [] (header_envs j)) source k) (\<lambda>headers.
     Ok (Http method url headers))))))"

definition exec_kind :: "RawJob \<Rightarrow> JobKey \<Rightarrow> path \<Rightarrow> CronManagerError + JobKind" where
  "exec_kind j k source =
     and_then (ok_or (raw_command j) (bad_job source k ''has type: exec but no command field'')) (\<lambda>c.
     and_then (into_argv c k source) (\<lambda>argv.
     Ok (Exec argv (unwrap_or [] (raw_allowed_envs j)))))"

definition into_spec ::
  "dsl_lib \<Rightarrow> env \<Rightarrow> RawJob \<Rightarrow> JobKey \<Rightarrow> path \<Rightarrow> LoadPolicy \<Rightarrow> CronManagerError + JobSpec" where
  "into_spec lib env j k source policy =
     and_then (normalise_trigger (raw_trigger j) source) (\<lambda>trig.
     and_then (case trig of
         Cron expr \<Rightarrow> map_err (\<lambda>e. InvalidCron expr e) (and_then (cron_from_str lib expr) (\<lambda>_. Ok ()))
       | Manual \<Rightarrow> Ok ()) (\<lambda>_.
     let rc = unwrap_or 0 (retry_count j) in
     and_then (guard_err (rc > pol_max_retry_count policy)
       (bad_job source k (''has retryCount '' @ show_nat (unat rc)
         @ '' which exceeds security.max_retry_count cap '' @ show_nat (unat (pol_max_retry_count policy))))) (\<lambda>_.
     and_then (if ty j = ''http'' then http_kind lib env j k source policy
       else if ty j = ''exec'' then exec_kind j k source
       else Err (bad_job source k (''has unknown type: '' @ quoted (ty j)))) (\<lambda>jk.
     Ok \<lparr>key = k, trigger = trig,
         window = \<lparr>start_ms = start_date j, end_ms = end_date j\<rparr>,
         retry = \<lparr>count = rc, delay = unwrap_or 1000 (retry_delay_ms j),
                  ignore_failures = unwrap_or False (raw_ignore_failures j)\<rparr>,
         kind = jk\<rparr>))))"

section \<open>Files\<close>

text \<open>
  What the file system answers below a path: a file has the length \<open>metadata\<close> reports
  and the text \<open>read_to_string\<close> returns, a directory the entries \<open>read_dir\<close> yields
  (an entry may be an error), or the error \<open>read_dir\<close> fails with.
\<close>

datatype fs_node =
    FFile "io_error + nat" "io_error + string"
  | FDir "(io_error + (string \<times> fs_node)) list"
  | FNoRead io_error

fun is_dir :: "fs_node \<Rightarrow> bool" where
  "is_dir (FFile _ _) = False"
| "is_dir _ = True"

definition is_yaml :: "path \<Rightarrow> bool" where
  "is_yaml p \<longleftrightarrow> extension p = Some ''yaml'' \<or> extension p = Some ''yml''"

definition group_from_path :: "path \<Rightarrow> path \<Rightarrow> string" where
  "group_from_path root file =
     (let rel = (case path_strip_prefix root file of Some r \<Rightarrow> r | None \<Rightarrow> file);
          s = path_display (drop_extension rel)
      in trim_matches (CHR ''-'')
           (str_replace (CHR ''/'') (CHR ''-'') (str_replace (CHR 0x5C) (CHR ''-'') s)))"

fun file_meta :: "fs_node \<Rightarrow> io_error + nat" where
  "file_meta (FFile m _) = m"
| "file_meta _ = Ok 0"

fun file_text :: "fs_node \<Rightarrow> io_error + string" where
  "file_text (FFile _ t) = t"
| "file_text _ = Err (IoError OtherKind ''Is a directory (os error 21)'')"

definition load_file_with_policy ::
  "dsl_lib \<Rightarrow> env \<Rightarrow> path \<Rightarrow> path \<Rightarrow> fs_node \<Rightarrow> LoadPolicy \<Rightarrow> CronManagerError + LoadedJob list" where
  "load_file_with_policy lib env root file node policy =
     and_then (map_err Io (file_meta node)) (\<lambda>len.
     and_then (guard_err (len > pol_max_file_bytes policy)
       (InvalidJobDefinition (path_display file) (''DSL file size '' @ show_nat len
         @ '' bytes exceeds security.max_dsl_file_bytes cap '' @ show_nat (pol_max_file_bytes policy)
         @ '' '' @ em_dash @ '' a YAML anchor bomb can amplify well past this in the parser; refuse to load''))) (\<lambda>_.
     and_then (map_err Io (file_text node)) (\<lambda>body.
     and_then (map_err (\<lambda>e. YamlParse (path_display file) e) (yaml_jobs lib body)) (\<lambda>raw.
     try_map (\<lambda>(n, raw_job).
       and_then (into_spec lib env raw_job (job_key (group_from_path root file) n) file policy) (\<lambda>s.
       Ok \<lparr>spec = s, source_path = file\<rparr>)) raw))))"

definition load_file ::
  "dsl_lib \<Rightarrow> env \<Rightarrow> path \<Rightarrow> path \<Rightarrow> fs_node \<Rightarrow> CronManagerError + LoadedJob list" where
  "load_file lib env root file node = load_file_with_policy lib env root file node permissive"

section \<open>The walk\<close>

record walk_state =
  out_jobs :: "LoadedJob list"
  yaml_files_seen :: nat
  files_failed :: nat

definition fixture_error :: "path \<Rightarrow> string \<Rightarrow> CronManagerError" where
  "fixture_error p pat =
     InvalidJobDefinition (path_display p)
       (''REFUSING TO LOAD dev-fixture DSL in non-dev environment: matched pattern '' @ quoted pat
        @ ''. Remove the file from the prod build, OR set APP_ENV=dev, OR set ''
        @ ''security.allow_dev_fixture_dsls=true to explicitly permit dev-fixture DSLs in this ''
        @ ''environment (WARN at boot).'')"

definition visit_file ::
  "dsl_lib \<Rightarrow> env \<Rightarrow> path \<Rightarrow> LoadPolicy \<Rightarrow> path \<Rightarrow> fs_node \<Rightarrow> walk_state \<Rightarrow> CronManagerError + walk_state" where
  "visit_file lib env root policy p node st =
     (if is_yaml p then
        let st1 = st\<lparr>yaml_files_seen := yaml_files_seen st + 1\<rparr> in
        case (dev_fixture_pattern (path_display p), pol_dev_fixture_action policy) of
          (Some pat, Refuse) \<Rightarrow> Err (fixture_error p pat)
        | _ \<Rightarrow>
            (case load_file_with_policy lib env root p node policy of
               Ok loaded \<Rightarrow> Ok (st1\<lparr>out_jobs := out_jobs st1 @ loaded\<rparr>)
             | Err err \<Rightarrow> Ok (st1\<lparr>files_failed := files_failed st1 + 1\<rparr>))
      else Ok st)"

fun entry_ok :: "(io_error + (string \<times> fs_node)) list \<Rightarrow> (string \<times> fs_node) list" where
  "entry_ok [] = []"
| "entry_ok (Ok e # es) = e # entry_ok es"
| "entry_ok (Err _ # es) = entry_ok es"

definition sorted_entries :: "(io_error + (string \<times> fs_node)) list \<Rightarrow> (string \<times> fs_node) list" where
  "sorted_entries es = sort_key fst (entry_ok es)"

definition entries_size :: "(string \<times> fs_node) list \<Rightarrow> nat" where
  "entries_size es = sum_list (map (\<lambda>e. Suc (size (snd e))) es)"

lemma entries_size_entry_ok: "entries_size (entry_ok es) < size (FDir es)"
proof (induction es rule: entry_ok.induct)
  case (2 e es)
  then show ?case by (cases e) (auto simp: entries_size_def)
qed (auto simp: entries_size_def)

lemma entries_size_sorted: "entries_size (sorted_entries es) < size (FDir es)"
proof -
  have "mset (map (\<lambda>e. Suc (size (snd e))) (sorted_entries es)) =
      mset (map (\<lambda>e. Suc (size (snd e))) (entry_ok es))"
    by (simp add: sorted_entries_def mset_map)
  then have "entries_size (sorted_entries es) = entries_size (entry_ok es)"
    unfolding entries_size_def by (metis sum_mset_sum_list)
  with entries_size_entry_ok [of es] show ?thesis by simp
qed

function (sequential) walk ::
  "dsl_lib \<Rightarrow> env \<Rightarrow> path \<Rightarrow> LoadPolicy \<Rightarrow> path \<Rightarrow> fs_node \<Rightarrow> walk_state \<Rightarrow> CronManagerError + walk_state"
and walk_entries ::
  "dsl_lib \<Rightarrow> env \<Rightarrow> path \<Rightarrow> LoadPolicy \<Rightarrow> path \<Rightarrow> (string \<times> fs_node) list \<Rightarrow> walk_state
     \<Rightarrow> CronManagerError + walk_state" where
  "walk lib env root policy current (FDir es) st =
     walk_entries lib env root policy current (sorted_entries es) st"
| "walk lib env root policy current (FNoRead e) st = Err (Io e)"
| "walk lib env root policy current (FFile m t) st =
     Err (Io (IoError OtherKind ''Not a directory (os error 20)''))"
| "walk_entries lib env root policy current [] st = Ok st"
| "walk_entries lib env root policy current ((n, node) # es) st =
     and_then (if is_dir node then walk lib env root policy (path_join current n) node st
               else visit_file lib env root policy (path_join current n) node st)
       (\<lambda>st'. walk_entries lib env root policy current es st')"
  by pat_completeness auto

termination
  by (relation "measure (\<lambda>x. case x of
        Inl (_, _, _, _, _, node, _) \<Rightarrow> 2 * size node
      | Inr (_, _, _, _, _, es, _) \<Rightarrow> 2 * entries_size es + 1)")
    (use entries_size_sorted in \<open>auto simp: entries_size_def less_Suc_eq_le\<close>)

definition load_all_with_policy ::
  "dsl_lib \<Rightarrow> env \<Rightarrow> path \<Rightarrow> fs_node option \<Rightarrow> LoadPolicy \<Rightarrow> CronManagerError + LoadedJob list" where
  "load_all_with_policy lib env root tree policy =
     (case tree of
        None \<Rightarrow> Ok []
      | Some node \<Rightarrow>
          and_then (walk lib env root policy root node
            \<lparr>out_jobs = [], yaml_files_seen = 0, files_failed = 0\<rparr>) (\<lambda>st.
          Ok (out_jobs st)))"

definition load_all ::
  "dsl_lib \<Rightarrow> env \<Rightarrow> path \<Rightarrow> fs_node option \<Rightarrow> CronManagerError + LoadedJob list" where
  "load_all lib env root tree = load_all_with_policy lib env root tree permissive"

text \<open>How the blocking task ends under the wall-clock timeout.\<close>

datatype load_end = Joined | JoinPanicked string | LoadTimedOut

definition load_all_bounded ::
  "dsl_lib \<Rightarrow> env \<Rightarrow> path \<Rightarrow> fs_node option \<Rightarrow> nat \<Rightarrow> nat \<Rightarrow> u32 \<Rightarrow> int \<Rightarrow> bool \<Rightarrow> DevFixtureAction
     \<Rightarrow> load_end \<Rightarrow> CronManagerError + LoadedJob list" where
  "load_all_bounded lib env root tree max_bytes load_timeout max_retry min_interval block action ending =
     (let policy = \<lparr>pol_max_file_bytes = max_bytes, pol_max_retry_count = max_retry,
                    pol_min_cron_interval_secs = min_interval, pol_block_private_networks = block,
                    pol_dev_fixture_action = action\<rparr>
      in case ending of
           Joined \<Rightarrow> load_all_with_policy lib env root tree policy
         | JoinPanicked e \<Rightarrow> Err (Internal (''dsl load task panicked: '' @ e))
         | LoadTimedOut \<Rightarrow>
             Err (Internal (''dsl load exceeded '' @ show_nat load_timeout @ ''s wall clock '' @ em_dash
               @ '' investigate DSL file sizes / anchor use'')))"

section \<open>What a loaded job satisfies\<close>

definition is_env_header :: "HttpHeader \<Rightarrow> bool" where
  "is_env_header h = (case hdr_source h of Env _ \<Rightarrow> True | Literal _ \<Rightarrow> False)"

definition header_ok :: "dsl_lib \<Rightarrow> env \<Rightarrow> HttpHeader \<Rightarrow> bool" where
  "header_ok lib env h \<longleftrightarrow>
     hdr_name h \<notin> set FORBIDDEN_HEADERS \<and>
     (case hdr_source h of
        Literal v \<Rightarrow> header_value_ok lib v
      | Env e \<Rightarrow> valid_env_name e \<and> (\<exists>v. env e = Some v \<and> v \<noteq> [] \<and> header_value_ok lib v))"

text \<open>No header taken from the environment repeats a name that precedes it.\<close>

definition env_names_fresh :: "HttpHeader list \<Rightarrow> bool" where
  "env_names_fresh hs \<longleftrightarrow> sorted_wrt (\<lambda>h h'. is_env_header h' \<longrightarrow> hdr_name h \<noteq> hdr_name h') hs"

definition url_ok :: "dsl_lib \<Rightarrow> LoadPolicy \<Rightarrow> string \<Rightarrow> bool" where
  "url_ok lib policy u \<longleftrightarrow>
     (\<exists>parsed h. url_parse lib u = Ok parsed \<and> scheme parsed \<in> {''http'', ''https''} \<and>
        url_host parsed = Some h \<and>
        (pol_block_private_networks policy \<longrightarrow> (\<forall>ip. host_ip h = Some ip \<longrightarrow> \<not> is_private_or_local ip)))"

fun kind_ok :: "dsl_lib \<Rightarrow> env \<Rightarrow> LoadPolicy \<Rightarrow> JobKind \<Rightarrow> bool" where
  "kind_ok lib env policy (Http m u hs) \<longleftrightarrow>
     to_ascii_uppercase m \<in> set KNOWN_METHODS \<and> url_ok lib policy u \<and>
     (\<forall>h\<in>set hs. header_ok lib env h) \<and> env_names_fresh hs"
| "kind_ok lib env policy (Exec argv allowed) \<longleftrightarrow> argv \<noteq> [] \<and> hd argv \<noteq> []"

definition spec_ok :: "dsl_lib \<Rightarrow> env \<Rightarrow> LoadPolicy \<Rightarrow> JobSpec \<Rightarrow> bool" where
  "spec_ok lib env policy s \<longleftrightarrow>
     (\<forall>e. trigger s = Cron e \<longrightarrow> is_ok (cron_from_str lib e)) \<and>
     count (retry s) \<le> pol_max_retry_count policy \<and> kind_ok lib env policy (kind s)"

lemma check_name_Ok: "check_name lib source k n = Ok m \<Longrightarrow> m \<notin> set FORBIDDEN_HEADERS"
  by (auto simp: check_name_def result_simps)

lemma literal_header_ok:
  "literal_header lib source k nv = Ok h \<Longrightarrow> header_ok lib env h \<and> \<not> is_env_header h"
  by (cases nv) (auto simp: literal_header_def result_simps header_ok_def is_env_header_def
      dest: check_name_Ok)

lemma env_headers_ok:
  assumes "env_headers lib env source k out es = Ok hs"
    and "\<forall>h\<in>set out. header_ok lib env h" and "env_names_fresh out"
  shows "(\<forall>h\<in>set hs. header_ok lib env h) \<and> env_names_fresh hs"
  using assms
proof (induction lib env source k out es rule: env_headers.induct)
  case (2 lib env source k out n env_name es)
  then obtain n' v where n': "check_name lib source k n = Ok n'" "\<forall>h\<in>set out. hdr_name h \<noteq> n'"
    "valid_env_name env_name" "env env_name = Some v" "v \<noteq> []" "header_value_ok lib v"
    "env_headers lib env source k (out @ [\<lparr>hdr_name = n', hdr_source = Env env_name\<rparr>]) es = Ok hs"
    by (auto simp: result_simps split: option.splits if_splits)
  then have "\<forall>h\<in>set (out @ [\<lparr>hdr_name = n', hdr_source = Env env_name\<rparr>]). header_ok lib env h"
    using 2(3) check_name_Ok [OF n'(1)] by (auto simp: header_ok_def)
  moreover have "env_names_fresh (out @ [\<lparr>hdr_name = n', hdr_source = Env env_name\<rparr>])"
    using 2(4) n'(2) by (auto simp: env_names_fresh_def sorted_wrt_append)
  ultimately show ?case using 2(1) n' by blast
qed simp

lemma build_http_headers_ok:
  assumes "build_http_headers lib env lits envs source k = Ok hs"
  shows "(\<forall>h\<in>set hs. header_ok lib env h) \<and> env_names_fresh hs"
proof -
  obtain out where out: "try_map (literal_header lib source k) lits = Ok out"
    and hs: "env_headers lib env source k out envs = Ok hs"
    using assms by (auto simp: build_http_headers_def result_simps)
  have lit: "\<forall>h\<in>set out. header_ok lib env h \<and> \<not> is_env_header h"
    by (rule try_map_all [OF out]) (rule literal_header_ok)
  then have "env_names_fresh out"
    by (auto simp: env_names_fresh_def intro: sorted_wrt_mono_rel [of out "\<lambda>_ _. True"] sorted_wrt_true)
  with lit env_headers_ok [OF hs] show ?thesis by blast
qed

lemma validate_http_url_Ok: "validate_http_url lib u policy source k = Ok () \<Longrightarrow> url_ok lib policy u"
  by (auto simp: validate_http_url_def url_ok_def result_simps split: if_splits option.splits)

lemma http_kind_ok: "http_kind lib env j k source policy = Ok jk \<Longrightarrow> kind_ok lib env policy jk"
  using build_http_headers_ok validate_http_url_Ok by (fastforce simp: http_kind_def result_simps)

lemma exec_kind_ok: "exec_kind j k source = Ok jk \<Longrightarrow> kind_ok lib env policy jk"
  by (auto simp: exec_kind_def into_argv_def Let_def result_simps split: if_splits)

lemma into_spec_ok:
  assumes "into_spec lib env j k source policy = Ok s"
  shows "spec_ok lib env policy s \<and> key s = k"
proof -
  obtain trig u jk where
    cron: "(case trig of Cron expr \<Rightarrow> map_err (\<lambda>e. InvalidCron expr e)
        (and_then (cron_from_str lib expr) (\<lambda>_. Ok ())) | Manual \<Rightarrow> Ok ()) = Ok u"
    and rc: "\<not> pol_max_retry_count policy < unwrap_or 0 (retry_count j)"
    and jk: "(if ty j = ''http'' then http_kind lib env j k source policy
       else if ty j = ''exec'' then exec_kind j k source
       else Err (bad_job source k (''has unknown type: '' @ quoted (ty j)))) = Ok jk"
    and s: "trigger s = trig" "kind s = jk" "key s = k" "count (retry s) = unwrap_or 0 (retry_count j)"
    using assms unfolding into_spec_def Let_def and_then_eq_Ok guard_err_eq_Ok by fastforce
  have "kind_ok lib env policy jk"
    using jk by (auto split: if_splits intro: http_kind_ok exec_kind_ok)
  moreover have "is_ok (cron_from_str lib e)" if "trig = Cron e" for e
    using cron that by (auto simp: result_simps is_ok_iff)
  ultimately show ?thesis using s rc by (auto simp: spec_ok_def linorder_not_less)
qed

lemma load_file_ok:
  assumes "load_file_with_policy lib env root p node policy = Ok js" and "j \<in> set js"
  shows "spec_ok lib env policy (spec j)" "group (key (spec j)) = group_from_path root p"
    "source_path j = p"
proof -
  obtain raw where raw: "try_map (\<lambda>(n, raw_job).
      and_then (into_spec lib env raw_job (job_key (group_from_path root p) n) p policy) (\<lambda>s.
      Ok \<lparr>spec = s, source_path = p\<rparr>)) raw = Ok js"
    using assms(1) by (auto simp: load_file_with_policy_def result_simps)
  have "\<forall>j\<in>set js. spec_ok lib env policy (spec j) \<and>
      group (key (spec j)) = group_from_path root p \<and> source_path j = p"
    by (rule try_map_all [OF raw]) (auto simp: result_simps job_key_def dest!: into_spec_ok)
  with assms(2) show "spec_ok lib env policy (spec j)"
    "group (key (spec j)) = group_from_path root p" "source_path j = p" by auto
qed

section \<open>The walk as a pass over the files in order\<close>

text \<open>
  The reference: what the walk meets, in order, without any policy. A directory that
  cannot be read is met as its error.
\<close>

function (sequential) visits :: "path \<Rightarrow> fs_node \<Rightarrow> (io_error + path \<times> fs_node) list"
and visits_entries :: "path \<Rightarrow> (string \<times> fs_node) list \<Rightarrow> (io_error + path \<times> fs_node) list" where
  "visits current (FDir es) = visits_entries current (sorted_entries es)"
| "visits current (FNoRead e) = [Err e]"
| "visits current (FFile m t) = [Err (IoError OtherKind ''Not a directory (os error 20)'')]"
| "visits_entries current [] = []"
| "visits_entries current ((n, node) # es) =
     (if is_dir node then visits (path_join current n) node else [Ok (path_join current n, node)])
       @ visits_entries current es"
  by pat_completeness auto

termination
  by (relation "measure (\<lambda>x. case x of
        Inl (_, node) \<Rightarrow> 2 * size node
      | Inr (_, es) \<Rightarrow> 2 * entries_size es + 1)")
    (use entries_size_sorted in \<open>auto simp: entries_size_def less_Suc_eq_le\<close>)

fun run_visits ::
  "dsl_lib \<Rightarrow> env \<Rightarrow> path \<Rightarrow> LoadPolicy \<Rightarrow> (io_error + path \<times> fs_node) list \<Rightarrow> walk_state
     \<Rightarrow> CronManagerError + walk_state" where
  "run_visits lib env root policy [] st = Ok st"
| "run_visits lib env root policy (Inl e # vs) st = Err (Io e)"
| "run_visits lib env root policy (Inr (p, node) # vs) st =
     and_then (visit_file lib env root policy p node st) (run_visits lib env root policy vs)"

definition refused :: "LoadPolicy \<Rightarrow> path \<Rightarrow> bool" where
  "refused policy p \<longleftrightarrow>
     is_yaml p \<and> dev_fixture_pattern (path_display p) \<noteq> None \<and> pol_dev_fixture_action policy = Refuse"

fun visit_fine :: "LoadPolicy \<Rightarrow> io_error + path \<times> fs_node \<Rightarrow> bool" where
  "visit_fine policy (Inl e) = False"
| "visit_fine policy (Inr (p, node)) = (\<not> refused policy p)"

fun visit_jobs ::
  "dsl_lib \<Rightarrow> env \<Rightarrow> path \<Rightarrow> LoadPolicy \<Rightarrow> io_error + path \<times> fs_node \<Rightarrow> LoadedJob list" where
  "visit_jobs lib env root policy (Inl e) = []"
| "visit_jobs lib env root policy (Inr (p, node)) =
     (if is_yaml p then
        case load_file_with_policy lib env root p node policy of Ok js \<Rightarrow> js | Err _ \<Rightarrow> []
      else [])"

lemma run_visits_append:
  "run_visits lib env root policy (vs @ ws) st =
     and_then (run_visits lib env root policy vs st) (run_visits lib env root policy ws)"
proof (induction lib env root policy vs st rule: run_visits.induct)
  case (3 lib env root policy p node vs st)
  then show ?case by (cases "visit_file lib env root policy p node st") auto
qed auto

lemma walk_run_visits:
  "walk lib env root policy current node st = run_visits lib env root policy (visits current node) st"
  "walk_entries lib env root policy current es st =
     run_visits lib env root policy (visits_entries current es) st"
proof (induction lib env root policy current node st and lib env root policy current es st
    rule: walk_walk_entries.induct)
  case (5 lib env root policy current n node es st)
  then have rest: "walk_entries lib env root policy current es = run_visits lib env root policy (visits_entries current es)"
    by blast
  have "and_then r (run_visits lib env root policy []) = r" for r
    by (cases r) simp_all
  with 5(1) show ?case by (simp add: run_visits_append rest)
qed auto

lemma visit_file_cases:
  "visit_file lib env root policy p node st =
     (if refused policy p then
        Err (fixture_error p (the (dev_fixture_pattern (path_display p))))
      else Ok (if is_yaml p then
          \<lparr>out_jobs = out_jobs st @ visit_jobs lib env root policy (Inr (p, node)),
           yaml_files_seen = yaml_files_seen st + 1,
           files_failed = files_failed st +
             (if is_ok (load_file_with_policy lib env root p node policy) then 0 else 1)\<rparr>
        else st))"
  by (cases st)
    (auto simp: visit_file_def refused_def Let_def split: option.splits DevFixtureAction.splits sum.splits)

lemma run_visits_Ok:
  "(\<exists>st'. run_visits lib env root policy vs st = Ok st' \<and> out_jobs st' = js) \<longleftrightarrow>
     (\<forall>v\<in>set vs. visit_fine policy v) \<and>
     js = out_jobs st @ concat (map (visit_jobs lib env root policy) vs)"
proof (induction lib env root policy vs st rule: run_visits.induct)
  case (1 lib env root policy st)
  then show ?case by auto
next
  case (2 lib env root policy e vs st)
  then show ?case by auto
next
  case (3 lib env root policy p node vs st)
  show ?case
  proof (cases "visit_file lib env root policy p node st")
    case (Inl e)
    then have "refused policy p" by (auto simp: visit_file_cases split: if_splits)
    with Inl show ?thesis by simp
  next
    case (Inr st1)
    then have "\<not> refused policy p" "out_jobs st1 = out_jobs st @ visit_jobs lib env root policy (Inr (p, node))"
      by (auto simp: visit_file_cases split: if_splits)
    with Inr 3 [of st1] show ?thesis by simp
  qed
qed

lemma load_all_Ok_iff:
  "load_all_with_policy lib env root (Some node) policy = Ok js \<longleftrightarrow>
     (\<forall>v\<in>set (visits root node). visit_fine policy v) \<and>
     js = concat (map (visit_jobs lib env root policy) (visits root node))"
  using run_visits_Ok [of lib env root policy "visits root node" "\<lparr>out_jobs = [], yaml_files_seen = 0, files_failed = 0\<rparr>" js]
  by (auto simp: load_all_with_policy_def walk_run_visits result_simps)

lemma visit_jobs_memE:
  assumes "j \<in> set (visit_jobs lib env root policy (Ok (p, f)))"
  obtains js where "is_yaml p" "load_file_with_policy lib env root p f policy = Ok js" "j \<in> set js"
  using assms by (cases "load_file_with_policy lib env root p f policy"; cases "is_yaml p") simp_all

lemma load_all_member:
  assumes "load_all_with_policy lib env root tree policy = Ok js" and "j \<in> set js"
  obtains node p f where "tree = Some node" "Ok (p, f) \<in> set (visits root node)" "is_yaml p"
    "\<not> refused policy p" "j \<in> set (visit_jobs lib env root policy (Ok (p, f)))"
    "source_path j = p"
proof (cases tree)
  case None
  with assms show ?thesis by (auto simp: load_all_with_policy_def)
next
  case (Some node)
  with assms obtain v where v: "v \<in> set (visits root node)" "j \<in> set (visit_jobs lib env root policy v)"
    "visit_fine policy v" by (auto simp: load_all_Ok_iff)
  obtain p f where pf: "v = Ok (p, f)" using v(3) by (cases v) auto
  from v(2) obtain js where js: "is_yaml p" "load_file_with_policy lib env root p f policy = Ok js" "j \<in> set js"
    unfolding pf by (rule visit_jobs_memE)
  moreover have "source_path j = p" using js(2,3) by (rule load_file_ok(3))
  moreover have "\<not> refused policy p" using v(3) pf by simp
  ultimately show ?thesis using that [OF Some] v(1,2) pf by blast
qed

lemma visit_jobs_ok:
  "j \<in> set (visit_jobs lib env root policy (Ok (p, f))) \<Longrightarrow> spec_ok lib env policy (spec j)"
  by (elim visit_jobs_memE) (rule load_file_ok(1))

lemma load_all_spec_ok:
  assumes "load_all_with_policy lib env root tree policy = Ok js" and "j \<in> set js"
  shows "spec_ok lib env policy (spec j)"
  using load_all_member [OF assms] visit_jobs_ok by metis

section \<open>A concrete load\<close>

text \<open>Concrete parsers, a one-file tree and its job, on which the properties are exercised.\<close>

definition ex_raw :: RawJob where
  "ex_raw = \<lparr>raw_trigger = TStr ''off'', ty = ''exec'', start_date = None, end_date = None,
     retry_count = None, retry_delay_ms = None, raw_ignore_failures = None, raw_method = None,
     raw_url = None, raw_headers = None, header_envs = None, raw_command = Some (CString ''echo hi''),
     raw_allowed_envs = None\<rparr>"

definition ex_url :: Url where
  "ex_url = \<lparr>scheme = ''http'', url_host = Some (Domain ''svc''), host_str = Some ''svc'',
     url_port = Some 80\<rparr>"

definition ex_lib :: dsl_lib where
  "ex_lib = \<lparr>cron_from_str = (\<lambda>_. Ok (\<lambda>t. Some (t + 1000))), url_parse = (\<lambda>_. Ok ex_url),
     header_name = (\<lambda>n. if n = [] then None else Some (to_ascii_lowercase n)),
     header_value_ok = control_free, yaml_jobs = (\<lambda>_. Ok [(''ping'', ex_raw)])\<rparr>"

definition ex_policy :: LoadPolicy where
  "ex_policy = \<lparr>pol_max_file_bytes = 100, pol_max_retry_count = 3, pol_min_cron_interval_secs = 0,
     pol_block_private_networks = True, pol_dev_fixture_action = Refuse\<rparr>"

definition ex_tree :: fs_node where
  "ex_tree = FDir [Ok (''jobs.yaml'', FFile (Ok 10) (Ok ''text''))]"

definition ex_spec :: JobSpec where
  "ex_spec = \<lparr>key = \<lparr>group = ''jobs'', name = ''ping''\<rparr>, trigger = Manual,
     window = \<lparr>start_ms = None, end_ms = None\<rparr>, retry = default_retry_policy,
     kind = Exec [''echo'', ''hi''] []\<rparr>"

lemma ex_spec_loads:
  "into_spec ex_lib env ex_raw (job_key ''jobs'' ''ping'') [''/'', ''dsl'', ''jobs.yaml''] ex_policy = Ok ex_spec"
proof -
  have words: "split_whitespace ''echo hi'' = [''echo'', ''hi'']" "to_ascii_lowercase ''off'' = ''off''"
    by code_simp+
  show ?thesis
    by (simp add: into_spec_def ex_raw_def ex_lib_def ex_policy_def ex_spec_def normalise_trigger_def
        exec_kind_def into_argv_def words job_key_def default_retry_policy_def)
qed

lemma ex_load_gen:
  assumes "yaml_jobs lib ''text'' = Ok [(''ping'', raw)]"
    and "into_spec lib env raw (job_key ''jobs'' ''ping'') [''/'', ''dsl'', ''jobs.yaml''] ex_policy = Ok sp"
  shows "load_all_with_policy lib env [''/'', ''dsl''] (Some ex_tree) ex_policy =
     Ok [\<lparr>spec = sp, source_path = [''/'', ''dsl'', ''jobs.yaml'']\<rparr>]"
proof -
  have e: "is_yaml [''/'', ''dsl'', ''jobs.yaml'']"
    "dev_fixture_pattern (path_display [''/'', ''dsl'', ''jobs.yaml'']) = None"
    "group_from_path [''/'', ''dsl''] [''/'', ''dsl'', ''jobs.yaml''] = ''jobs''" by code_simp+
  have "pol_max_file_bytes ex_policy = 100" by (simp add: ex_policy_def)
  with assms have "load_file_with_policy lib env [''/'', ''dsl''] [''/'', ''dsl'', ''jobs.yaml'']
      (FFile (Ok 10) (Ok ''text'')) ex_policy = Ok [\<lparr>spec = sp, source_path = [''/'', ''dsl'', ''jobs.yaml'']\<rparr>]"
    by (simp add: load_file_with_policy_def e)
  with e show ?thesis
    by (simp add: load_all_with_policy_def ex_tree_def sorted_entries_def path_join_def visit_file_def)
qed

lemma ex_load_env:
  "load_all_with_policy ex_lib env [''/'', ''dsl''] (Some ex_tree) ex_policy =
     Ok [\<lparr>spec = ex_spec, source_path = [''/'', ''dsl'', ''jobs.yaml'']\<rparr>]"
  using ex_spec_loads by (intro ex_load_gen) (simp_all add: ex_lib_def)

lemma ex_load:
  "load_all_with_policy ex_lib (\<lambda>_. None) [''/'', ''dsl''] (Some ex_tree) ex_policy =
     Ok [\<lparr>spec = ex_spec, source_path = [''/'', ''dsl'', ''jobs.yaml'']\<rparr>]"
  by (rule ex_load_env)

section \<open>Properties\<close>

text \<open>
  C6. Every job of a successful load satisfies the load policy: its cron expression
  parses, its retry count is within the cap, an HTTP job has a known method, an http or
  https URL whose literal address is not private when private networks are blocked, and
  headers that are neither forbidden nor invalid nor set twice from the environment; an
  exec job has a program to run.
\<close>

theorem load_all_sound:
  assumes "load_all_with_policy lib env root tree policy = Ok jobs" and "j \<in> set jobs"
  shows "spec_ok lib env policy (spec j)"
  by (rule load_all_spec_ok [OF assms])

theorem load_all_sound_witness: "spec_ok ex_lib (\<lambda>_. None) ex_policy ex_spec"
  using load_all_sound [OF ex_load, of "\<lparr>spec = ex_spec, source_path = [''/'', ''dsl'', ''jobs.yaml'']\<rparr>"]
  by simp

text \<open>
  C17. A load succeeds exactly when every directory can be read and no file is a refused
  dev fixture, and then yields, in path order, the jobs of exactly those YAML files that
  load: a malformed file never hides the jobs of another.
\<close>

theorem load_all_is_concat:
  "load_all_with_policy lib env root (Some node) policy = Ok jobs \<longleftrightarrow>
     (\<forall>v\<in>set (visits root node). visit_fine policy v) \<and>
     jobs = concat (map (visit_jobs lib env root policy) (visits root node))"
  by (rule load_all_Ok_iff)

theorem load_all_is_concat_witness:
  "list_all (visit_fine ex_policy) (visits [''/'', ''dsl''] ex_tree)"
  using load_all_is_concat [THEN iffD1, OF ex_load] by (simp add: list_all_iff)

text \<open>
  C18. With the action computed for a non-dev environment without the opt-out, no job of a
  successful load comes from a path that matches a dev-fixture pattern.
\<close>

theorem no_dev_fixture_loaded:
  assumes "load_all_with_policy lib env root tree policy = Ok jobs" and "j \<in> set jobs"
    and "pol_dev_fixture_action policy = action_from_env e False" and "e \<noteq> Dev"
  shows "dev_fixture_pattern (path_display (source_path j)) = None"
  using load_all_member [OF assms(1,2)] assms(3,4) action_refuse_iff [of e False]
  by (metis refused_def)

theorem no_dev_fixture_loaded_witness:
  "dev_fixture_pattern (path_display [''/'', ''dsl'', ''jobs.yaml'']) = None"
  using no_dev_fixture_loaded [OF ex_load, of "\<lparr>spec = ex_spec, source_path = [''/'', ''dsl'', ''jobs.yaml'']\<rparr>" Production]
  by (simp add: ex_policy_def action_from_env_def requires_prod_creds_def)

text \<open>
  A file whose reported size exceeds the cap is refused before its content is read:
  the result does not depend on the content.
\<close>

theorem oversized_file_not_read:
  assumes "n > pol_max_file_bytes policy"
  shows "is_err (load_file_with_policy lib env root p (FFile (Ok n) text) policy) \<and>
    load_file_with_policy lib env root p (FFile (Ok n) text) policy =
    load_file_with_policy lib env root p (FFile (Ok n) text') policy"
  using assms by (simp add: load_file_with_policy_def)

theorem oversized_file_not_read_witness:
  "is_err (load_file_with_policy ex_lib (\<lambda>_. None) [''dsl''] [''dsl'', ''a.yaml''] (FFile (Ok 101) (Ok ''x'')) ex_policy)"
  using oversized_file_not_read [of ex_policy 101 ex_lib] by (simp add: ex_policy_def)

end
