(* ===== verification/Exec_Common.thy ===== *)
theory Exec_Common
  imports Loader
begin

text \<open>
  What the two executors share: \<open>tokio::select!\<close> as a race between branches that become
  ready at known times, and the contract of their two \<open>truncate\<close> functions.
\<close>

section \<open>select!\<close>

text \<open>
  Each branch has the time at which it becomes ready, or none. The macro polls the
  branches cyclically from a random one, so the earliest branch wins and ties go to the
  first in that order.
\<close>

fun race :: "('b \<times> nat option) list \<Rightarrow> ('b \<times> nat) option" where
  "race [] = None"
| "race ((b, None) # bs) = race bs"
| "race ((b, Some t) # bs) =
     (case race bs of
        None \<Rightarrow> Some (b, t)
      | Some (c, u) \<Rightarrow> if t \<le> u then Some (b, t) else Some (c, u))"

definition select :: "nat \<Rightarrow> ('b \<times> nat option) list \<Rightarrow> 'b option" where
  "select start branches = map_option fst (race (rotate start branches))"

lemma race_Some:
  "race bs = Some (b, t) \<Longrightarrow> (b, Some t) \<in> set bs \<and> (\<forall>c u. (c, Some u) \<in> set bs \<longrightarrow> t \<le> u)"
proof (induction bs arbitrary: b t rule: race.induct)
  case (3 a s bs)
  show ?case
  proof (cases "race bs")
    case None
    have "\<forall>c u. (c, Some u) \<notin> set bs"
      using None by (induction bs rule: race.induct) (auto split: option.splits if_splits)
    with 3 None show ?thesis by auto
  next
    case (Some cu)
    obtain c u where cu: "cu = (c, u)" by (cases cu)
    from "3.IH" [of c u] Some cu have ih: "(c, Some u) \<in> set bs" "\<forall>d v. (d, Some v) \<in> set bs \<longrightarrow> u \<le> v"
      by auto
    show ?thesis
    proof (cases "s \<le> u")
      case True
      with "3.prems" Some cu ih show ?thesis by (auto intro: order_trans)
    next
      case False
      with "3.prems" Some cu ih show ?thesis by auto
    qed
  qed
qed auto

lemma race_None: "race bs = None \<longleftrightarrow> (\<forall>c u. (c, Some u) \<notin> set bs)"
  by (induction bs rule: race.induct) (auto split: option.splits)

lemma select_Some:
  assumes "select start bs = Some b"
  shows "\<exists>t. (b, Some t) \<in> set bs \<and> (\<forall>c u. (c, Some u) \<in> set bs \<longrightarrow> t \<le> u)"
  using assms race_Some [of "rotate start bs"] by (auto simp: select_def)

lemma select_ready:
  assumes "(b, Some t) \<in> set bs"
  shows "\<exists>c. select start bs = Some c"
  using assms race_None [of "rotate start bs"] by (fastforce simp: select_def)

text \<open>A branch that is strictly first wins whatever the polling order.\<close>

lemma select_first:
  assumes "(b, Some t) \<in> set bs" and "\<And>c u. (c, Some u) \<in> set bs \<Longrightarrow> c \<noteq> b \<Longrightarrow> t < u"
  shows "select start bs = Some b"
proof -
  obtain c where c: "select start bs = Some c" using select_ready [OF assms(1)] by blast
  then obtain u where u: "(c, Some u) \<in> set bs" "\<And>d v. (d, Some v) \<in> set bs \<Longrightarrow> u \<le> v"
    by (metis select_Some)
  have "c = b"
  proof (rule ccontr)
    assume "c \<noteq> b"
    with assms(2) [OF u(1)] u(2) [OF assms(1)] show False by simp
  qed
  with c show ?thesis by simp
qed

section \<open>Cutting texts\<close>

lemma control_free_take: "control_free s \<Longrightarrow> control_free (take e s)"
  by (auto simp: control_free_def list_all_iff dest: in_set_takeD)

text \<open>
  A cap keeps a short text and cuts a long one at a character boundary within the limit,
  followed by a fixed suffix.
\<close>

locale text_cap =
  fixes cap :: "string \<Rightarrow> nat \<Rightarrow> string"
    and sfx :: string
  assumes cap_small: "length s \<le> m \<Longrightarrow> cap s m = s"
    and cap_large: "m < length s \<Longrightarrow> \<exists>e\<le>m. is_char_boundary s e \<and> cap s m = take e s @ sfx"
    and sfx_ok: "str_ok sfx"
    and sfx_control_free: "control_free sfx"
begin

lemma cap_cases:
  obtains "cap s m = s" "length s \<le> m"
  | e where "e \<le> m" "m < length s" "is_char_boundary s e" "cap s m = take e s @ sfx"
  using cap_small [of s m] cap_large [of m s] by (cases "length s \<le> m") auto

lemma cap_length: "length (cap s m) \<le> m + length sfx"
  by (rule cap_cases [of s m]) auto

lemma cap_ok: "str_ok s \<Longrightarrow> str_ok (cap s m)"
  by (rule cap_cases [of s m]) (auto simp: str_ok_take sfx_ok)

lemma cap_control_free: "control_free s \<Longrightarrow> control_free (cap s m)"
  by (rule cap_cases [of s m])
    (auto simp: control_free_append sfx_control_free control_free_take)

end

end
