(* ===== verification/Http_Executor.thy ===== *)
theory Http_Executor
  imports Exec_Common
begin

text \<open>
  \<open>src/executor/http.rs\<close>: one HTTP attempt. Name resolution, the environment at fire
  time, the moment and the outcome of the send, and the body chunks are the events of the
  attempt; the executor's own decisions (method, SSRF pre-flight, header values, body cap,
  status class) are the model. The request handed to the client is returned beside the
  result.
\<close>

section \<open>Executor and attempt\<close>

record HttpExecutor =
  http_max_response_bytes :: nat
  http_timeout :: nat
  http_block_private :: bool
  http_allowed_hosts :: "string list"

record HttpAttempt =
  attempt_status :: nat
  attempt_body :: string

definition with_ssrf_policy :: "string + unit \<Rightarrow> Limits \<Rightarrow> bool \<Rightarrow> CronManagerError + HttpExecutor" where
  "with_ssrf_policy client_build lim block =
     and_then (map_err (\<lambda>e. Internal (''reqwest client build: '' @ e)) client_build) (\<lambda>_.
     Ok \<lparr>http_max_response_bytes = max_response_bytes lim, http_timeout = request_timeout_secs lim,
         http_block_private = block, http_allowed_hosts = []\<rparr>)"

definition http_executor_new :: "string + unit \<Rightarrow> Limits \<Rightarrow> CronManagerError + HttpExecutor" where
  "http_executor_new client_build lim = with_ssrf_policy client_build lim True"

definition with_allowed_private_hosts :: "HttpExecutor \<Rightarrow> string list \<Rightarrow> HttpExecutor" where
  "with_allowed_private_hosts ex hosts = ex\<lparr>http_allowed_hosts := hosts\<rparr>"

section \<open>Events of one attempt\<close>

text \<open>How the client's send ends, once it does: an error, flagged when it is a timeout, or
  a response with its status and the chunks of its body, each of which may be an error.\<close>

datatype send_end =
    SendError bool string
  | Responded nat "(string + string) list"

record http_events =
  ev_lookup_host :: "string \<Rightarrow> string + IpAddr list"
  ev_http_env :: env
  ev_send_at :: nat
  ev_send :: send_end
  ev_http_cancel_at :: "nat option"
  ev_http_start :: nat

record http_request =
  req_method :: string
  req_url :: string
  req_headers :: "(string \<times> string) list"

text \<open>
  \<open>str::to_uppercase\<close>, its Unicode part a parameter, and \<open>Method::from_bytes\<close>.
\<close>

record http_lib =
  dsl :: dsl_lib
  unicode_uppercase :: "string \<Rightarrow> string"
  method_from_bytes :: "string \<Rightarrow> string option"

definition to_uppercase :: "http_lib \<Rightarrow> string \<Rightarrow> string" where
  "to_uppercase lib s = (if ascii s then to_ascii_uppercase s else unicode_uppercase lib s)"

section \<open>SSRF pre-flight\<close>

definition is_allowlisted :: "string \<Rightarrow> string list \<Rightarrow> bool" where
  "is_allowlisted host allowed \<longleftrightarrow>
     list_ex (\<lambda>a. eq_ignore_ascii_case a (trim_end_matches (CHR ''.'') host)) allowed"

definition ssrf_refuses :: "IpAddr \<Rightarrow> bool \<Rightarrow> bool" where
  "ssrf_refuses ip allowlisted = (if allowlisted then is_always_blocked ip else is_private_or_local ip)"

definition dns_target :: "Url \<Rightarrow> string \<Rightarrow> string" where
  "dns_target u host =
     host @ '':'' @ show_nat (unwrap_or (if scheme u = ''https'' then 443 else 80) (url_port u))"

fun check_addrs :: "string \<Rightarrow> bool \<Rightarrow> IpAddr list \<Rightarrow> CronManagerError + unit" where
  "check_addrs host allowlisted [] = Ok ()"
| "check_addrs host allowlisted (ip # ips) =
     (if ssrf_refuses ip allowlisted then
        Err (BadRequest (''hostname '' @ quoted host @ '' resolves to non-routable IP '' @ show_ip ip
          @ '' (SSRF pre-flight); list the host in security.allowed_private_hosts to allow''))
      else check_addrs host allowlisted ips)"

definition reject_private_dns ::
  "http_lib \<Rightarrow> HttpExecutor \<Rightarrow> http_events \<Rightarrow> string \<Rightarrow> CronManagerError + unit" where
  "reject_private_dns lib ex ev url_str =
     and_then (map_err (\<lambda>e. Internal (''re-parsing url '' @ quoted url_str @ '': '' @ e))
       (url_parse (dsl lib) url_str)) (\<lambda>parsed.
     case host_str parsed of
       None \<Rightarrow> Ok ()
     | Some host \<Rightarrow>
         if parse_ip host \<noteq> None then Ok ()
         else
           and_then (map_err (\<lambda>e. Internal (''dns lookup '' @ dns_target parsed host @ '': '' @ e))
             (ev_lookup_host ev (dns_target parsed host))) (\<lambda>addrs.
           check_addrs host (is_allowlisted host (http_allowed_hosts ex)) addrs))"

section \<open>Request\<close>

definition header_value ::
  "http_lib \<Rightarrow> http_events \<Rightarrow> HttpHeader \<Rightarrow> CronManagerError + string \<times> string" where
  "header_value lib ev h =
     and_then (case hdr_source h of
         Literal v \<Rightarrow> Ok v
       | Env var \<Rightarrow> ok_or (ev_http_env ev var)
           (Internal (''header '' @ quoted (hdr_name h) @ '' needs env var '' @ quoted var
             @ '', which is not set''))) (\<lambda>v.
     and_then (guard_err (\<not> header_value_ok (dsl lib) v)
       (Internal (''header '' @ quoted (hdr_name h) @ '' has an invalid value''))) (\<lambda>_.
     Ok (hdr_name h, v)))"

definition prepare ::
  "http_lib \<Rightarrow> HttpExecutor \<Rightarrow> http_events \<Rightarrow> string \<Rightarrow> string \<Rightarrow> HttpHeader list
     \<Rightarrow> CronManagerError + http_request" where
  "prepare lib ex ev method url headers =
     and_then (ok_or (method_from_bytes lib (to_uppercase lib method))
       (Internal (''unknown HTTP method '' @ quoted method))) (\<lambda>m.
     and_then (if http_block_private ex then reject_private_dns lib ex ev url else Ok ()) (\<lambda>_.
     and_then (try_map (header_value lib ev) headers) (\<lambda>hs.
     Ok \<lparr>req_method = m, req_url = url, req_headers = hs\<rparr>)))"

section \<open>Response\<close>

fun read_chunks :: "nat \<Rightarrow> string \<Rightarrow> (string + string) list \<Rightarrow> CronManagerError + string" where
  "read_chunks limit buf [] = Ok buf"
| "read_chunks limit buf (Err e # cs) = Err (Internal (''reading upstream body chunk: '' @ e))"
| "read_chunks limit buf (Ok chunk # cs) =
     (if length buf + length chunk > limit then Err (UpstreamBodyTooLarge limit)
      else read_chunks limit (buf @ chunk) cs)"

definition http_read_bounded :: "(string + string) list \<Rightarrow> nat \<Rightarrow> CronManagerError + string" where
  "http_read_bounded chunks limit =
     and_then (read_chunks limit [] chunks) (\<lambda>buf. Ok (from_utf8_lossy buf))"

definition http_truncated :: string where "http_truncated = ellipsis @ '' (truncated)''"

definition http_truncate :: "string \<Rightarrow> nat \<Rightarrow> string" where
  "http_truncate s m =
     (if length s \<le> m then s else take (floor_loop s (min m (length s))) s @ http_truncated)"

definition map_send_err :: "HttpExecutor \<Rightarrow> bool \<Rightarrow> string \<Rightarrow> CronManagerError" where
  "map_send_err ex is_timeout e =
     (if is_timeout then UpstreamTimeout (http_timeout ex) else Internal (''upstream request: '' @ e))"

definition finish_response :: "HttpExecutor \<Rightarrow> nat \<Rightarrow> (string + string) list \<Rightarrow> CronManagerError + HttpAttempt" where
  "finish_response ex st chunks =
     and_then (http_read_bounded chunks (http_max_response_bytes ex)) (\<lambda>body.
     if \<not> (200 \<le> st \<and> st < 300) then
       Err (UpstreamHttpError st (http_truncate (sanitize_for_log body) 1024))
     else Ok \<lparr>attempt_status = st, attempt_body = body\<rparr>)"

datatype http_branch = HSend | HStop

definition http_execute ::
  "http_lib \<Rightarrow> HttpExecutor \<Rightarrow> http_events \<Rightarrow> string \<Rightarrow> string \<Rightarrow> HttpHeader list
     \<Rightarrow> http_request option \<times> (CronManagerError + HttpAttempt)" where
  "http_execute lib ex ev method url headers =
     (case prepare lib ex ev method url headers of
        Err e \<Rightarrow> (None, Err e)
      | Ok req \<Rightarrow>
          (Some req,
           case select (ev_http_start ev) [(HSend, Some (ev_send_at ev)), (HStop, ev_http_cancel_at ev)] of
             Some HStop \<Rightarrow> Err (Internal ''aborted by /stop before response'')
           | _ \<Rightarrow>
               (case ev_send ev of
                  SendError is_timeout e \<Rightarrow> Err (map_send_err ex is_timeout e)
                | Responded st chunks \<Rightarrow> finish_response ex st chunks)))"

section \<open>Lemmas\<close>

lemma floor_loop_cut:
  assumes "m < length s"
  shows "\<exists>e\<le>m. is_char_boundary s e \<and> floor_loop s (min m (length s)) = e"
  using assms floor_loop_boundary [of s m] floor_loop_le [of s m] by simp

interpretation http_cap: text_cap http_truncate http_truncated
proof unfold_locales
  show "\<exists>e\<le>m. is_char_boundary s e \<and> http_truncate s m = take e s @ http_truncated"
    if "m < length s" for m s
    using floor_loop_cut [OF that] that by (auto simp: http_truncate_def)
  show "str_ok http_truncated"
    unfolding http_truncated_def by (intro str_ok_appendI str_ok_ellipsis ascii_str_ok) (simp add: ascii_def)
qed (simp_all add: http_truncate_def http_truncated_def control_free_def ellipsis_def)

lemma check_addrs_Ok: "check_addrs host al ips = Ok () \<longleftrightarrow> list_all (\<lambda>ip. \<not> ssrf_refuses ip al) ips"
  by (induction ips) auto

lemma read_chunks_Ok:
  assumes "read_chunks limit buf cs = Ok body"
  shows "\<exists>bs. cs = map Ok bs \<and> body = buf @ concat bs \<and> (cs \<noteq> [] \<longrightarrow> length body \<le> limit)"
  using assms
proof (induction limit buf cs rule: read_chunks.induct)
  case (3 limit buf chunk cs)
  then obtain bs where bs: "cs = map Ok bs" "body = (buf @ chunk) @ concat bs" "cs \<noteq> [] \<longrightarrow> length body \<le> limit"
    by (auto split: if_splits)
  with "3.prems" show ?case by (intro exI [of _ "chunk # bs"]) (auto split: if_splits)
qed auto

lemma read_chunks_small:
  "length buf + length (concat bs) \<le> limit \<Longrightarrow> read_chunks limit buf (map Ok bs) = Ok (buf @ concat bs)"
  by (induction bs arbitrary: buf) auto

lemma prepare_screened:
  assumes "prepare lib ex ev method url headers = Ok req" and "http_block_private ex"
  shows "reject_private_dns lib ex ev url = Ok ()" "req_url req = url"
  using assms by (auto simp: prepare_def result_simps)

text \<open>The preparation does not depend on when a stop arrives.\<close>

lemma prepare_cancel [simp]:
  "prepare lib ex (ev\<lparr>ev_http_cancel_at := c\<rparr>) method url headers = prepare lib ex ev method url headers"
proof -
  have sel: "ev_lookup_host (ev\<lparr>ev_http_cancel_at := c\<rparr>) = ev_lookup_host ev"
    "ev_http_env (ev\<lparr>ev_http_cancel_at := c\<rparr>) = ev_http_env ev" by simp_all
  have "reject_private_dns lib ex (ev\<lparr>ev_http_cancel_at := c\<rparr>) url = reject_private_dns lib ex ev url"
    unfolding reject_private_dns_def sel ..
  moreover have "header_value lib (ev\<lparr>ev_http_cancel_at := c\<rparr>) = header_value lib ev"
    unfolding header_value_def sel ..
  ultimately show ?thesis by (simp only: prepare_def)
qed

lemma reject_private_dns_Ok:
  assumes "reject_private_dns lib ex ev url = Ok ()" and "url_parse (dsl lib) url = Ok parsed"
    and "host_str parsed = Some host" and "parse_ip host = None"
  shows "\<exists>addrs. ev_lookup_host ev (dns_target parsed host) = Ok addrs \<and>
    list_all (\<lambda>ip. \<not> ssrf_refuses ip (is_allowlisted host (http_allowed_hosts ex))) addrs"
  using assms by (auto simp: reject_private_dns_def result_simps check_addrs_Ok)

lemma ssrf_never_always_blocked: "is_always_blocked ip \<Longrightarrow> ssrf_refuses ip al"
  by (simp add: ssrf_refuses_def always_blocked_private)

lemma read_chunks_large:
  "length buf \<le> limit \<Longrightarrow> length buf + length (concat bs) > limit \<Longrightarrow>
     read_chunks limit buf (map Ok bs) = Err (UpstreamBodyTooLarge limit)"
  by (induction bs arbitrary: buf) auto

text \<open>No error before the send is an upstream error.\<close>

lemma check_addrs_Err: "check_addrs host al ips = Err e \<Longrightarrow> \<exists>m. e = BadRequest m"
  by (induction ips) (auto split: if_splits)

lemma header_value_Err: "header_value lib ev h = Err e \<Longrightarrow> \<exists>m. e = Internal m"
  by (auto simp: header_value_def and_then_eq_Err err_simps split: HeaderSource.splits)

lemma reject_private_dns_Err: "reject_private_dns lib ex ev url = Err e \<Longrightarrow> \<exists>m. e = Internal m \<or> e = BadRequest m"
  by (auto simp: reject_private_dns_def and_then_eq_Err err_simps split: option.splits if_splits
      dest!: check_addrs_Err)

lemma prepare_Err:
  assumes "prepare lib ex ev method url headers = Err e"
  shows "\<exists>m. e = Internal m \<or> e = BadRequest m"
  using assms
  by (auto simp: prepare_def and_then_eq_Err err_simps split: if_splits
      dest!: reject_private_dns_Err try_map_Err header_value_Err)

lemma read_chunks_Err:
  "read_chunks limit buf cs = Err e \<Longrightarrow> e = UpstreamBodyTooLarge limit \<or> (\<exists>m. e = Internal m)"
  by (induction limit buf cs rule: read_chunks.induct) (auto split: if_splits)

lemma http_body_length:
  assumes "snd (http_execute lib ex ev m u hs) = Ok a"
  shows "length (attempt_body a) \<le> 3 * http_max_response_bytes ex"
proof -
  obtain st chunks where "finish_response ex st chunks = Ok a"
    using assms by (auto simp: http_execute_def split: sum.splits option.splits http_branch.splits send_end.splits)
  then obtain buf where "read_chunks (http_max_response_bytes ex) [] chunks = Ok buf" "attempt_body a = from_utf8_lossy buf"
    by (auto simp: finish_response_def http_read_bounded_def result_simps split: sum.splits if_splits)
  moreover from this(1) have "length buf \<le> http_max_response_bytes ex" using read_chunks_Ok by force
  ultimately show ?thesis using from_utf8_lossy_length [of buf] by simp
qed

lemma finish_response_upstream_error:
  assumes "finish_response ex st chunks = Err (UpstreamHttpError st' b)"
  shows "st' = st \<and> \<not> (200 \<le> st \<and> st < 300) \<and>
    (\<exists>buf. b = http_truncate (sanitize_for_log (from_utf8_lossy buf)) 1024)"
  using assms
  by (auto simp: finish_response_def http_read_bounded_def and_then_eq_Err and_then_eq_Ok
      split: if_splits dest!: read_chunks_Err)

lemma http_execute_upstream_error:
  assumes "snd (http_execute lib ex ev method url headers) = Err (UpstreamHttpError st b)"
  shows "\<exists>chunks. ev_send ev = Responded st chunks \<and> finish_response ex st chunks = Err (UpstreamHttpError st b)"
proof (cases "prepare lib ex ev method url headers")
  case (Inl e)
  with prepare_Err [OF Inl] assms show ?thesis by (auto simp: http_execute_def)
next
  case (Inr req)
  with assms show ?thesis
    by (auto simp: http_execute_def map_send_err_def split: option.splits http_branch.splits
        send_end.splits if_splits dest: finish_response_upstream_error)
qed

section \<open>Properties\<close>

text \<open>
  C10. The SSRF pre-flight holds for every request that is sent: when private networks are
  blocked and the URL names a host, the name was resolved for this very attempt and no
  address it resolved to is link-local, metadata, unspecified, multicast or broadcast,
  nor, unless the host is on the allowlist, private or loopback.
\<close>

theorem http_fire_screened:
  assumes "http_execute lib ex ev method url headers = (Some req, res)" and "http_block_private ex"
    and "url_parse (dsl lib) url = Ok parsed" and "host_str parsed = Some host" and "parse_ip host = None"
  shows "\<exists>addrs. ev_lookup_host ev (dns_target parsed host) = Ok addrs \<and>
    list_all (\<lambda>ip. \<not> is_always_blocked ip \<and>
      (is_allowlisted host (http_allowed_hosts ex) \<or> \<not> is_private_or_local ip)) addrs"
proof -
  have "prepare lib ex ev method url headers = Ok req"
    using assms(1) by (auto simp: http_execute_def split: sum.splits)
  from prepare_screened(1) [OF this assms(2)] reject_private_dns_Ok [OF _ assms(3-5)]
  obtain addrs where "ev_lookup_host ev (dns_target parsed host) = Ok addrs"
    "list_all (\<lambda>ip. \<not> ssrf_refuses ip (is_allowlisted host (http_allowed_hosts ex))) addrs" by blast
  then show ?thesis
    by (intro exI [of _ addrs]) (auto simp: list_all_iff ssrf_refuses_def dest: always_blocked_private split: if_splits)
qed

definition ex_http_lib :: http_lib where
  "ex_http_lib = \<lparr>dsl = ex_lib, unicode_uppercase = id, method_from_bytes = Some\<rparr>"

definition ex_http :: HttpExecutor where
  "ex_http = \<lparr>http_max_response_bytes = 100, http_timeout = 30, http_block_private = True, http_allowed_hosts = []\<rparr>"

definition ex_http_events :: "send_end \<Rightarrow> http_events" where
  "ex_http_events sent = \<lparr>ev_lookup_host = (\<lambda>_. Ok [V4 (Ipv4Addr 93 184 216 34)]), ev_http_env = (\<lambda>_. None),
     ev_send_at = 5, ev_send = sent, ev_http_cancel_at = None, ev_http_start = 0\<rparr>"

lemma ex_http_prepare:
  "prepare ex_http_lib ex_http (ex_http_events sent) ''get'' ''http://svc/'' [] =
     Ok \<lparr>req_method = ''GET'', req_url = ''http://svc/'', req_headers = []\<rparr>"
proof -
  have ip: "parse_ip ''svc'' = None" by (simp add: parse_ip_eval)
  have get: "to_ascii_uppercase ''get'' = ''GET''" by code_simp
  have up: "to_uppercase ex_http_lib ''get'' = ''GET''"
    unfolding to_uppercase_def ascii_def get by simp
  show ?thesis
    by (simp add: prepare_def reject_private_dns_def ex_http_lib_def ex_http_def
        ex_lib_def ex_url_def ex_http_events_def ip up [unfolded ex_http_lib_def ex_lib_def ex_url_def]
        ssrf_refuses_def is_allowlisted_def)
qed

theorem http_fire_screened_witness:
  "http_execute ex_http_lib ex_http (ex_http_events (Responded 200 [Ok ''pong''])) ''get'' ''http://svc/'' [] =
     (Some \<lparr>req_method = ''GET'', req_url = ''http://svc/'', req_headers = []\<rparr>,
      Ok \<lparr>attempt_status = 200, attempt_body = from_utf8_lossy ''pong''\<rparr>) \<and>
   (\<exists>addrs. ev_lookup_host (ex_http_events (Responded 200 [Ok ''pong''])) (dns_target ex_url ''svc'') = Ok addrs \<and>
     list_all (\<lambda>ip. \<not> is_always_blocked ip \<and>
      (is_allowlisted ''svc'' (http_allowed_hosts ex_http) \<or> \<not> is_private_or_local ip)) addrs)"
proof -
  have run: "http_execute ex_http_lib ex_http (ex_http_events (Responded 200 [Ok ''pong''])) ''get'' ''http://svc/'' [] =
     (Some \<lparr>req_method = ''GET'', req_url = ''http://svc/'', req_headers = []\<rparr>,
      Ok \<lparr>attempt_status = 200, attempt_body = from_utf8_lossy ''pong''\<rparr>)"
    unfolding http_execute_def ex_http_prepare
    by (simp add: ex_http_events_def ex_http_def select_def finish_response_def http_read_bounded_def)
  have ip: "parse_ip ''svc'' = None" by (simp add: parse_ip_eval)
  have "http_block_private ex_http" "url_parse (dsl ex_http_lib) ''http://svc/'' = Ok ex_url"
    "host_str ex_url = Some ''svc''"
    by (simp_all add: ex_http_def ex_http_lib_def ex_lib_def ex_url_def)
  from http_fire_screened [OF run this ip] run show ?thesis by blast
qed

text \<open>
  A response body is read in full exactly when its chunks add up to no more than the
  cap; otherwise the read stops with the body-too-large error and nothing is returned.
\<close>

theorem http_body_capped:
  "http_read_bounded (map Ok bs) limit =
     (if length (concat bs) \<le> limit then Ok (from_utf8_lossy (concat bs))
      else Err (UpstreamBodyTooLarge limit))"
  using read_chunks_small [of "[]" bs limit] read_chunks_large [of "[]" limit bs]
  by (simp add: http_read_bounded_def)

text \<open>
  What a failing upstream returned reaches the error text, and through it the logs and
  the history, only sanitised: valid UTF-8 without control bytes and at most 1024 bytes
  and the truncation suffix; and only a status outside 200 to 299 is an error.
\<close>

theorem http_error_text_safe:
  assumes "snd (http_execute lib ex ev method url headers) = Err (UpstreamHttpError st b)"
  shows "control_free b \<and> str_ok b \<and> length b \<le> 1024 + length http_truncated \<and> \<not> (200 \<le> st \<and> st < 300)"
proof -
  obtain chunks where "finish_response ex st chunks = Err (UpstreamHttpError st b)"
    using http_execute_upstream_error [OF assms] by blast
  from finish_response_upstream_error [OF this]
  obtain buf where st: "\<not> (200 \<le> st \<and> st < 300)"
    and b: "b = http_truncate (sanitize_for_log (from_utf8_lossy buf)) 1024" by blast
  show ?thesis
    unfolding b using st http_cap.cap_length http_cap.cap_ok http_cap.cap_control_free
      log_san.sanitize_control_free log_san.sanitize_ok from_utf8_lossy_ok by blast
qed

theorem http_error_text_safe_witness:
  "snd (http_execute ex_http_lib ex_http (ex_http_events (Responded 500 [Ok ''x''])) ''get'' ''http://svc/'' []) =
     Err (UpstreamHttpError 500 ''x'') \<and> control_free ''x''"
proof -
  have x: "from_utf8_lossy ''x'' = ''x''" "sanitize_for_log ''x'' = ''x''" "http_truncate ''x'' 1024 = ''x''"
    using from_utf8_lossy_id [of "''x''"]
    by (simp_all add: ascii_str_ok ascii_def sanitize_for_log_def http_truncate_def utf8_width_def)
  have run: "snd (http_execute ex_http_lib ex_http (ex_http_events (Responded 500 [Ok ''x''])) ''get'' ''http://svc/'' []) = Err (UpstreamHttpError 500 ''x'')"
    unfolding http_execute_def ex_http_prepare
    by (simp add: ex_http_events_def ex_http_def select_def finish_response_def http_read_bounded_def x
        del: from_utf8_lossy.simps)
  from http_error_text_safe [OF run] run show ?thesis by blast
qed

end
