(* ===== verification/Shell_Executor.thy ===== *)
theory Shell_Executor
  imports Exec_Common
begin

text \<open>
  \<open>src/executor/shell.rs\<close>: one run of a shell job. What the operating system answers to
  the spawns, when the child exits and with which status, when a stop arrives and what the
  two pipes deliver are the events of the run. A pipe whose reads end neither in
  end-of-file nor in an error stays open for ever; an await on it never returns, which is
  the value \<open>None\<close>.
\<close>

section \<open>Executor and attempt\<close>

record ShellExecutor =
  baseline_env :: "string btree"
  app_root :: path
  shell_timeout :: nat
  max_output_bytes :: nat

record ShellAttempt =
  exit_code :: int
  stdout :: string

definition shell_executor_new :: "AppConfig \<Rightarrow> ShellExecutor" where
  "shell_executor_new cfg =
     \<lparr>baseline_env = shell_environment cfg, app_root = app_root_path cfg,
      shell_timeout = shell_timeout_secs (limits cfg),
      max_output_bytes = max_response_bytes (limits cfg)\<rparr>"

section \<open>The command\<close>

text \<open>\<open>std::process::Command\<close> as far as it is configured here.\<close>

record Command =
  cmd_program :: string
  cmd_args :: "string list"
  cmd_dir :: path
  cmd_env :: "string btree"

definition baseline_vars :: "string btree \<Rightarrow> string list \<Rightarrow> string btree" where
  "baseline_vars baseline allowed =
     foldl (\<lambda>m n. case map_of baseline n of Some v \<Rightarrow> btree_insert n v m | None \<Rightarrow> m) [] allowed"

definition child_env :: "string btree \<Rightarrow> string list \<Rightarrow> (string \<times> string) list \<Rightarrow> string btree" where
  "child_env baseline allowed overrides =
     foldl (\<lambda>m (k, v). if k \<in> set allowed then btree_insert k v m else m)
       (baseline_vars baseline allowed) overrides"

definition shell_command ::
  "ShellExecutor \<Rightarrow> string list \<Rightarrow> string list \<Rightarrow> (string \<times> string) list \<Rightarrow> CronManagerError + Command" where
  "shell_command ex argv allowed overrides =
     (case argv of
        [] \<Rightarrow> Err (BadRequest ''shell job argv is empty'')
      | program # args \<Rightarrow>
          Ok \<lparr>cmd_program = program, cmd_args = args, cmd_dir = app_root ex,
              cmd_env = child_env (baseline_env ex) allowed overrides\<rparr>)"

section \<open>Events of one run\<close>

record shell_events =
  ev_spawn :: "nat \<Rightarrow> io_error + bool \<times> bool"
  ev_exit_at :: "nat option"
  ev_exit :: "io_error + bool \<times> int option"
  ev_shell_cancel_at :: "nat option"
  ev_shell_start :: nat
  ev_out_reads :: "(string + string) list"
  ev_err_reads :: "(string + string) list"
  ev_out_join :: "string + unit"
  ev_err_join :: "string + unit"

section \<open>Spawning\<close>

definition times_sign :: string where "times_sign = [CHR 0xC3, CHR 0x97]"

definition spawn_exhausted :: CronManagerError where
  "spawn_exhausted = Io (IoError ExecutableFileBusy
     (''shell: spawn retried 5'' @ times_sign @ '' on ETXTBSY and still failed''))"

function spawn_loop :: "(nat \<Rightarrow> io_error + 'c) \<Rightarrow> nat \<Rightarrow> CronManagerError + 'c" where
  "spawn_loop spawn attempt =
     (if attempt \<ge> 5 then Err spawn_exhausted
      else case spawn attempt of
        Ok c \<Rightarrow> Ok c
      | Err e \<Rightarrow>
          if io_kind_of e = ExecutableFileBusy \<and> attempt < 4 then spawn_loop spawn (attempt + 1)
          else Err (Io e))"
  by pat_completeness auto
termination
  by (relation "measure (\<lambda>(_, a). 5 - a)") auto

declare spawn_loop.simps [simp del]

section \<open>Output\<close>

definition output_truncated :: string where
  "output_truncated = ''...'' @ [CHR 0x0A] @ ''[output truncated]'' @ [CHR 0x0A]"

fun drains :: "(string + string) list \<Rightarrow> bool" where
  "drains [] = False"
| "drains (Err e # rs) = True"
| "drains (Ok c # rs) = (if c = [] then True else drains rs)"

fun read_pipe :: "nat \<Rightarrow> string \<Rightarrow> (string + string) list \<Rightarrow> (CronManagerError + string) option" where
  "read_pipe limit buf [] = None"
| "read_pipe limit buf (Err e # rs) = Some (Err (Internal (''reading child pipe: '' @ e)))"
| "read_pipe limit buf (Ok c # rs) =
     (if c = [] then Some (Ok buf)
      else if length buf + length c > limit then
        (if drains rs then Some (Ok (buf @ take (limit - length buf) c @ output_truncated)) else None)
      else read_pipe limit (buf @ c) rs)"

definition shell_read_bounded :: "(string + string) list \<Rightarrow> nat \<Rightarrow> (CronManagerError + string) option" where
  "shell_read_bounded rs limit = read_pipe limit [] rs"

definition join_pipe ::
  "string \<Rightarrow> string + unit \<Rightarrow> (string + string) list \<Rightarrow> nat \<Rightarrow> (CronManagerError + string) option" where
  "join_pipe label joined rs limit =
     (case joined of
        Err e \<Rightarrow> Some (Err (Internal (label @ '' task: '' @ e)))
      | Ok _ \<Rightarrow> shell_read_bounded rs limit)"

definition shell_truncate :: "string \<Rightarrow> nat \<Rightarrow> string" where
  "shell_truncate s m =
     (if length s \<le> m then s else take (floor_loop s (min m (length s))) s @ ellipsis)"

definition shell_result :: "bool \<Rightarrow> int option \<Rightarrow> string \<Rightarrow> string \<Rightarrow> CronManagerError + ShellAttempt" where
  "shell_result success exit out_bytes err_bytes =
     (if success then
        Ok \<lparr>exit_code = unwrap_or 0 exit, stdout = from_utf8_lossy out_bytes\<rparr>
      else
        Err (ShellFailed (''exit '' @ show_int (unwrap_or (- 1) exit) @ '': ''
          @ shell_truncate (sanitize_for_log (from_utf8_lossy err_bytes)) 512)))"

section \<open>One run\<close>

datatype shell_branch = BExit | BTimeout | BStop

definition collect_output ::
  "ShellExecutor \<Rightarrow> shell_events \<Rightarrow> bool \<Rightarrow> int option \<Rightarrow> (CronManagerError + ShellAttempt) option" where
  "collect_output ex ev success exit =
     (case join_pipe ''stdout'' (ev_out_join ev) (ev_out_reads ev) (max_output_bytes ex) of
        None \<Rightarrow> None
      | Some (Err e) \<Rightarrow> Some (Err e)
      | Some (Ok out) \<Rightarrow>
          (case join_pipe ''stderr'' (ev_err_join ev) (ev_err_reads ev) (max_output_bytes ex) of
             None \<Rightarrow> None
           | Some (Err e) \<Rightarrow> Some (Err e)
           | Some (Ok err) \<Rightarrow> Some (shell_result success exit out err)))"

definition await_child :: "ShellExecutor \<Rightarrow> shell_events \<Rightarrow> (CronManagerError + ShellAttempt) option" where
  "await_child ex ev =
     (case select (ev_shell_start ev)
          [(BExit, ev_exit_at ev), (BTimeout, Some (1000 * shell_timeout ex)), (BStop, ev_shell_cancel_at ev)] of
        Some BTimeout \<Rightarrow> Some (Err (ShellTimeout (shell_timeout ex)))
      | Some BStop \<Rightarrow> Some (Err (ShellFailed ''aborted by /stop''))
      | Some BExit \<Rightarrow>
          (case ev_exit ev of
             Err e \<Rightarrow> Some (Err (Io e))
           | Ok (success, exit) \<Rightarrow> collect_output ex ev success exit)
      | None \<Rightarrow> None)"

definition shell_execute ::
  "ShellExecutor \<Rightarrow> shell_events \<Rightarrow> string list \<Rightarrow> string list \<Rightarrow> (string \<times> string) list
     \<Rightarrow> Command option \<times> (CronManagerError + ShellAttempt) option" where
  "shell_execute ex ev argv allowed overrides =
     (case shell_command ex argv allowed overrides of
        Err e \<Rightarrow> (None, Some (Err e))
      | Ok cmd \<Rightarrow>
          (Some cmd,
           case and_then (spawn_loop (ev_spawn ev) 0) (\<lambda>(has_out, has_err).
                  and_then (guard_err (\<not> has_out) (Internal ''child stdout not captured'')) (\<lambda>_.
                  guard_err (\<not> has_err) (Internal ''child stderr not captured''))) of
             Err e \<Rightarrow> Some (Err e)
           | Ok _ \<Rightarrow> await_child ex ev))"

section \<open>Lemmas\<close>

interpretation shell_cap: text_cap shell_truncate ellipsis
proof unfold_locales
  show "\<exists>e\<le>m. is_char_boundary s e \<and> shell_truncate s m = take e s @ ellipsis"
    if "m < length s" for m s
    using floor_loop_boundary [of s m] floor_loop_le [of s m] that by (auto simp: shell_truncate_def)
qed (simp_all add: shell_truncate_def control_free_def ellipsis_def [symmetric], simp add: ellipsis_def)

subsection \<open>Environment of the child\<close>

lemma baseline_vars_lookup:
  "btree_ok (baseline_vars baseline allowed) \<and>
   map_of (baseline_vars baseline allowed) k = (if k \<in> set allowed then map_of baseline k else None)"
proof (induction allowed rule: rev_induct)
  case Nil
  then show ?case by (simp add: baseline_vars_def btree_ok_def)
next
  case (snoc a as)
  have step: "baseline_vars baseline (as @ [a]) =
      (case map_of baseline a of Some v \<Rightarrow> btree_insert a v (baseline_vars baseline as)
       | None \<Rightarrow> baseline_vars baseline as)"
    by (simp add: baseline_vars_def split: option.split)
  show ?case
    unfolding step using snoc
    by (auto simp: bt.lookup_insert bt.invar_insert split: option.splits)
qed

lemma child_env_lookup:
  "btree_ok (child_env baseline allowed overrides) \<and>
   map_of (child_env baseline allowed overrides) k =
     (if k \<in> set allowed then
        (case map_of (rev overrides) k of Some v \<Rightarrow> Some v | None \<Rightarrow> map_of baseline k)
      else None)"
proof (induction overrides rule: rev_induct)
  case Nil
  then show ?case using baseline_vars_lookup by (simp add: child_env_def)
next
  case (snoc kv os)
  obtain j v where kv: "kv = (j, v)" by (cases kv)
  have step: "child_env baseline allowed (os @ [kv]) =
      (if j \<in> set allowed then btree_insert j v (child_env baseline allowed os) else child_env baseline allowed os)"
    by (simp add: child_env_def kv)
  show ?case
    unfolding step using snoc by (auto simp: kv bt.lookup_insert bt.invar_insert)
qed

subsection \<open>Spawn loop\<close>

lemma spawn_loop_busy:
  assumes "\<And>i. i < n \<Longrightarrow> \<exists>e. spawn (a + i) = Err e \<and> io_kind_of e = ExecutableFileBusy" and "a + n \<le> 4"
  shows "spawn_loop spawn a = spawn_loop spawn (a + n)"
  using assms
proof (induction n arbitrary: a)
  case (Suc n)
  obtain e where e: "spawn a = Err e" "io_kind_of e = ExecutableFileBusy" using Suc.prems(1) [of 0] by auto
  have "spawn_loop spawn a = spawn_loop spawn (a + 1)"
    using e Suc.prems(2) by (subst spawn_loop.simps) simp
  also have "\<dots> = spawn_loop spawn (a + 1 + n)"
    using Suc.prems by (intro Suc.IH) (auto dest: Suc.prems(1) [of "Suc _", simplified])
  finally show ?case by (simp add: add.assoc)
qed simp

lemma spawn_loop_not_exhausted:
  assumes "attempt < 5" and "\<And>i. spawn i \<noteq> Err (IoError ExecutableFileBusy
     (''shell: spawn retried 5'' @ times_sign @ '' on ETXTBSY and still failed''))"
  shows "spawn_loop spawn attempt \<noteq> Err spawn_exhausted"
  using assms
proof (induction spawn attempt rule: spawn_loop.induct)
  case (1 spawn attempt)
  then show ?case
    by (subst spawn_loop.simps) (auto simp: spawn_exhausted_def split: sum.splits)
qed

subsection \<open>Pipes\<close>

lemma read_pipe_Ok:
  assumes "read_pipe limit buf rs = Some (Ok out)" and "length buf \<le> limit"
  shows "length out \<le> limit + length output_truncated"
  using assms
  by (induction limit buf rs rule: read_pipe.induct) (auto split: if_splits)

lemma shell_stdout_length:
  assumes "snd (shell_execute ex ev argv allowed ov) = Some (Ok a)"
  shows "length (stdout a) \<le> 3 * (max_output_bytes ex + length output_truncated)"
proof -
  obtain success exit where "collect_output ex ev success exit = Some (Ok a)"
    using assms by (auto simp: shell_execute_def await_child_def split: sum.splits option.splits shell_branch.splits)
  then obtain out err where "shell_read_bounded (ev_out_reads ev) (max_output_bytes ex) = Some (Ok out)"
    "shell_result success exit out err = Ok a"
    by (auto simp: collect_output_def join_pipe_def split: option.splits sum.splits)
  then have "length out \<le> max_output_bytes ex + length output_truncated" "stdout a = from_utf8_lossy out"
    using read_pipe_Ok [of "max_output_bytes ex" "[]" "ev_out_reads ev" out]
    by (auto simp: shell_read_bounded_def shell_result_def split: if_splits)
  then show ?thesis using from_utf8_lossy_length [of out] by simp
qed

lemma read_pipe_returns: "(\<exists>r. read_pipe limit buf rs = Some r) \<longleftrightarrow> drains rs"
  by (induction limit buf rs rule: read_pipe.induct) auto

lemma read_pipe_complete:
  assumes "list_all (\<lambda>c. c \<noteq> []) cs" and "length buf + length (concat cs) \<le> limit"
  shows "read_pipe limit buf (map Ok cs @ [Ok []]) = Some (Ok (buf @ concat cs))"
  using assms by (induction cs arbitrary: buf) auto

lemma await_child_cases:
  "await_child ex ev \<noteq> None \<longleftrightarrow>
     select (ev_shell_start ev)
       [(BExit, ev_exit_at ev), (BTimeout, Some (1000 * shell_timeout ex)), (BStop, ev_shell_cancel_at ev)] \<noteq> Some BExit \<or>
     (case ev_exit ev of Err _ \<Rightarrow> True | Ok (s, c) \<Rightarrow> collect_output ex ev s c \<noteq> None)"
proof -
  have "select (ev_shell_start ev)
       [(BExit, ev_exit_at ev), (BTimeout, Some (1000 * shell_timeout ex)), (BStop, ev_shell_cancel_at ev)] \<noteq> None"
    using select_ready [of BTimeout "1000 * shell_timeout ex"] by fastforce
  then show ?thesis
    by (auto simp: await_child_def split: option.splits shell_branch.splits sum.splits prod.splits)
qed

lemma shell_execute_command:
  assumes "shell_execute ex ev argv allowed overrides = (Some cmd, res)"
  shows "shell_command ex argv allowed overrides = Ok cmd"
  using assms by (auto simp: shell_execute_def split: sum.splits)

definition ex_shell :: ShellExecutor where
  "ex_shell = \<lparr>baseline_env = [(''HOME'', ''/app''), (''SECRET'', ''s'')], app_root = [''/'', ''app''],
     shell_timeout = 0, max_output_bytes = 100\<rparr>"

definition ex_shell_events :: "nat option \<Rightarrow> (string + string) list \<Rightarrow> shell_events" where
  "ex_shell_events exit_at out_reads =
     \<lparr>ev_spawn = (\<lambda>_. Ok (True, True)), ev_exit_at = exit_at, ev_exit = Ok (True, Some 0),
      ev_shell_cancel_at = None, ev_shell_start = 0, ev_out_reads = out_reads,
      ev_err_reads = [Ok []], ev_out_join = Ok (), ev_err_join = Ok ()\<rparr>"

section \<open>Properties\<close>

text \<open>
  C12. The environment of the child is exactly this: a variable is set only if the job
  allows it, to the last override given for it, else to its baseline value; nothing of
  the server's own environment is inherited.
\<close>

theorem shell_child_environment:
  assumes "shell_execute ex ev argv allowed overrides = (Some cmd, res)"
  shows "map_of (cmd_env cmd) k =
    (if k \<in> set allowed then
       (case map_of (rev overrides) k of Some v \<Rightarrow> Some v | None \<Rightarrow> map_of (baseline_env ex) k)
     else None) \<and> argv = cmd_program cmd # cmd_args cmd \<and> cmd_dir cmd = app_root ex"
  using shell_execute_command [OF assms] child_env_lookup [of "baseline_env ex" allowed overrides k]
  by (auto simp: shell_command_def split: list.splits)

theorem shell_child_environment_witness:
  "\<exists>cmd res. shell_execute ex_shell (ex_shell_events (Some 5) []) [''env''] [''HOME''] [(''HOME'', ''/tmp''), (''PATH'', ''/x'')]
       = (Some cmd, res) \<and> map_of (cmd_env cmd) ''HOME'' = Some ''/tmp'' \<and> map_of (cmd_env cmd) ''PATH'' = None \<and>
     map_of (cmd_env cmd) ''SECRET'' = None"
proof -
  obtain cmd res where run: "shell_execute ex_shell (ex_shell_events (Some 5) []) [''env''] [''HOME'']
      [(''HOME'', ''/tmp''), (''PATH'', ''/x'')] = (Some cmd, res)"
    by (simp add: shell_execute_def shell_command_def)
  from shell_child_environment [OF run, of "''HOME''"] shell_child_environment [OF run, of "''PATH''"]
    shell_child_environment [OF run, of "''SECRET''"] run
  show ?thesis by auto
qed

text \<open>
  The spawn is retried only while the operating system answers that the file is busy:
  after at most four such answers the next answer is the result, whatever it is, so at
  most five spawns are tried and the error of the last one is reported.
\<close>

theorem spawn_retries_only_busy:
  assumes "n \<le> 4" and "\<And>i. i < n \<Longrightarrow> \<exists>m. spawn i = Err (IoError ExecutableFileBusy m)"
    and "n = 4 \<or> (\<forall>m. spawn n \<noteq> Err (IoError ExecutableFileBusy m))"
  shows "spawn_loop spawn 0 = map_err Io (spawn n)"
proof -
  have busy: "\<exists>e. spawn (0 + i) = Err e \<and> io_kind_of e = ExecutableFileBusy" if "i < n" for i
    using assms(2) [OF that] by fastforce
  have "spawn_loop spawn 0 = spawn_loop spawn (0 + n)"
    by (rule spawn_loop_busy) (use busy assms(1) in auto)
  moreover have "spawn_loop spawn n = map_err Io (spawn n)"
  proof (cases "spawn n")
    case (Inl e)
    then have "n = 4 \<or> io_kind_of e \<noteq> ExecutableFileBusy" using assms(3) by (cases e) auto
    with Inl assms(1) show ?thesis by (subst spawn_loop.simps) auto
  next
    case (Inr c)
    with assms(1) show ?thesis by (subst spawn_loop.simps) simp
  qed
  ultimately show ?thesis by simp
qed

theorem spawn_retries_only_busy_witness:
  "spawn_loop (\<lambda>i. if i = 0 then Err (IoError ExecutableFileBusy ''busy'') else Ok (True, True)) 0 = Ok (True, True)"
  using spawn_retries_only_busy [of 1 "\<lambda>i. if i = 0 then Err (IoError ExecutableFileBusy ''busy'') else Ok (True, True)"]
  by simp

text \<open>
  A captured pipe never holds more than the cap and the truncation note, and the whole
  output is kept when it fits.
\<close>

theorem shell_output_capped:
  "(\<forall>out. shell_read_bounded rs limit = Some (Ok out) \<longrightarrow> length out \<le> limit + length output_truncated) \<and>
   (list_all (\<lambda>c. c \<noteq> []) cs \<and> length (concat cs) \<le> limit \<longrightarrow>
      shell_read_bounded (map Ok cs @ [Ok []]) limit = Some (Ok (concat cs)))"
  using read_pipe_Ok [of limit "[]" rs] read_pipe_complete [of cs "[]" limit]
  by (auto simp: shell_read_bounded_def)

theorem shell_output_capped_witness:
  "shell_read_bounded [Ok ''hello'', Ok []] 100 = Some (Ok ''hello'')"
  using shell_output_capped [of "[]" 100 "[''hello'']"] by simp

text \<open>
  A child that has not exited when the wall-clock timeout elapses ends the run as a
  shell timeout. In particular a timeout of zero ends every run whose child does not exit
  at once, while the boot diagnostics announce zero as a disabled timeout.
\<close>

theorem shell_timeout_fires:
  assumes "\<And>t. ev_exit_at ev = Some t \<Longrightarrow> t > 1000 * shell_timeout ex"
    and "\<And>t. ev_shell_cancel_at ev = Some t \<Longrightarrow> t > 1000 * shell_timeout ex"
  shows "await_child ex ev = Some (Err (ShellTimeout (shell_timeout ex)))"
proof -
  have "select (ev_shell_start ev)
      [(BExit, ev_exit_at ev), (BTimeout, Some (1000 * shell_timeout ex)), (BStop, ev_shell_cancel_at ev)] = Some BTimeout"
    by (rule select_first [where t = "1000 * shell_timeout ex"]) (use assms in auto)
  then show ?thesis by (simp add: await_child_def)
qed

theorem shell_timeout_fires_witness:
  "shell_timeout ex_shell = 0 \<and> await_child ex_shell (ex_shell_events (Some 5) []) = Some (Err (ShellTimeout 0))"
  using shell_timeout_fires [of "ex_shell_events (Some 5) []" ex_shell]
  by (simp add: ex_shell_def ex_shell_events_def)

text \<open>
  C32. The timeout does not cover the collection of output: when the child itself exits in
  time but a process it left behind keeps its standard output open, the run never
  returns, whatever the timeout; the same holds of the standard error once the standard
  output has been read. When both pipes are closed it always returns.
\<close>

theorem shell_run_returns:
  assumes "ev_exit_at ev = Some t" and "t < 1000 * shell_timeout ex" and "ev_shell_cancel_at ev = None"
    and "ev_exit ev = Ok (success, xc)" and "ev_out_join ev = Ok ()" and "ev_err_join ev = Ok ()"
  shows "await_child ex ev = None \<longleftrightarrow> \<not> drains (ev_out_reads ev) \<or>
    \<not> drains (ev_err_reads ev) \<and> (\<exists>out. shell_read_bounded (ev_out_reads ev) (max_output_bytes ex) = Some (Ok out))"
proof -
  have sel: "select (ev_shell_start ev)
      [(BExit, ev_exit_at ev), (BTimeout, Some (1000 * shell_timeout ex)), (BStop, ev_shell_cancel_at ev)] = Some BExit"
    by (rule select_first [where t = t]) (use assms in auto)
  have await: "await_child ex ev = collect_output ex ev success xc"
    unfolding await_child_def sel by (simp add: assms(4))
  show ?thesis
    unfolding await
    using read_pipe_returns [of "max_output_bytes ex" "[]" "ev_out_reads ev"]
      read_pipe_returns [of "max_output_bytes ex" "[]" "ev_err_reads ev"] assms(5,6)
    by (auto simp: collect_output_def join_pipe_def shell_read_bounded_def split: option.splits sum.splits)
qed

theorem shell_run_returns_witness:
  "await_child (ex_shell\<lparr>shell_timeout := 300\<rparr>) (ex_shell_events (Some 5) [Ok ''started'']) = None"
  using shell_run_returns [of "ex_shell_events (Some 5) [Ok ''started'']" 5 "ex_shell\<lparr>shell_timeout := 300\<rparr>" True "Some 0"]
  by (simp add: ex_shell_def ex_shell_events_def)

end
