(* ===== verification/History.thy ===== *)
theory History
  imports Security Dsl
begin

text \<open>
  \<open>src/history/mod.rs\<close> and \<open>src/history/postgres.rs\<close>: the execution history row and
  the two recorders behind the \<open>HistoryRecorder\<close> trait. The database is a parameter: what
  the \<open>INSERT\<close> of a row answers. The contract of the trait is a locale that both
  recorders interpret.
\<close>

section \<open>Entries\<close>

datatype ExecutionStatus = Success | Failed | Retrying | Skipped | Timeout | Offline

fun as_str :: "ExecutionStatus \<Rightarrow> string" where
  "as_str Success = ''SUCCESS''"
| "as_str Failed = ''FAILED''"
| "as_str Retrying = ''RETRYING''"
| "as_str Skipped = ''SKIPPED''"
| "as_str Timeout = ''TIMEOUT''"
| "as_str Offline = ''OFFLINE''"

record HistoryEntry =
  execution_time :: int
  job_name :: string
  job_group :: string
  job_type :: string
  duration_ms :: "int option"
  entry_status :: ExecutionStatus
  http_method :: "string option"
  http_url :: "string option"
  http_status_code :: "int option"
  attempt_number :: int
  max_attempts :: int
  response_body :: "string option"
  error_message :: "string option"

section \<open>Recorders\<close>

text \<open>The thirteen columns bound by the \<open>INSERT\<close>, in order.\<close>

record history_row =
  col_execution_time :: int
  col_job_name :: string
  col_job_group :: string
  col_job_type :: string
  col_duration_ms :: "int option"
  col_status :: string
  col_http_method :: "string option"
  col_http_url :: "string option"
  col_http_status_code :: "int option"
  col_attempt_number :: int
  col_max_attempts :: int
  col_response_body :: "string option"
  col_error_message :: "string option"

definition row_of :: "nat \<Rightarrow> HistoryEntry \<Rightarrow> history_row" where
  "row_of stored_body_max_bytes entry =
     \<lparr>col_execution_time = execution_time entry, col_job_name = job_name entry,
      col_job_group = job_group entry, col_job_type = job_type entry,
      col_duration_ms = duration_ms entry, col_status = as_str (entry_status entry),
      col_http_method = http_method entry, col_http_url = http_url entry,
      col_http_status_code = http_status_code entry, col_attempt_number = attempt_number entry,
      col_max_attempts = max_attempts entry,
      col_response_body = map_option (\<lambda>s. truncate_response_body s stored_body_max_bytes) (response_body entry),
      col_error_message = error_message entry\<rparr>"

definition noop_record :: "HistoryEntry \<Rightarrow> history_row list \<Rightarrow> history_row list" where
  "noop_record entry table = table"

definition postgres_record ::
  "nat \<Rightarrow> (history_row \<Rightarrow> string + unit) \<Rightarrow> HistoryEntry \<Rightarrow> history_row list \<Rightarrow> history_row list" where
  "postgres_record stored_body_max_bytes ins entry table =
     (case ins (row_of stored_body_max_bytes entry) of
        Ok _ \<Rightarrow> table @ [row_of stored_body_max_bytes entry]
      | Err e \<Rightarrow> table)"

text \<open>\<open>PostgresRecorder::connect\<close>: the pool and the migrations answer first.\<close>

definition postgres_connect :: "string + unit \<Rightarrow> string + unit \<Rightarrow> nat \<Rightarrow> CronManagerError + nat" where
  "postgres_connect connect migrate stored_body_max_bytes =
     and_then (map_err (\<lambda>e. Database (''connect: '' @ e)) connect) (\<lambda>_.
     and_then (map_err (\<lambda>e. Database (''migrate: '' @ e)) migrate) (\<lambda>_.
     Ok stored_body_max_bytes))"

section \<open>The recorder contract\<close>

text \<open>A recorder given a sequence of entries.\<close>

definition record_all ::
  "(HistoryEntry \<Rightarrow> history_row list \<Rightarrow> history_row list) \<Rightarrow> HistoryEntry list \<Rightarrow> history_row list \<Rightarrow> history_row list" where
  "record_all rec es table = fold rec es table"

lemma record_all_Nil [simp]: "record_all rec [] table = table"
  by (simp add: record_all_def)

lemma record_all_Cons [simp]: "record_all rec (e # es) table = record_all rec es (rec e table)"
  by (simp add: record_all_def)

text \<open>
  Recording never fails the caller: it keeps every stored row and adds at most the row
  made from the entry.
\<close>

locale history_recorder =
  fixes rec :: "HistoryEntry \<Rightarrow> history_row list \<Rightarrow> history_row list"
    and made :: "HistoryEntry \<Rightarrow> history_row"
  assumes appends: "rec e table = table \<or> rec e table = table @ [made e]"
begin

lemma record_all_shape:
  "\<exists>stored. subseq stored (map made es) \<and> record_all rec es table = table @ stored"
proof (induction es arbitrary: table)
  case Nil
  then show ?case by simp
next
  case (Cons e es)
  obtain stored where stored: "subseq stored (map made es)" "record_all rec es (rec e table) = rec e table @ stored"
    using Cons.IH by blast
  consider "rec e table = table" | "rec e table = table @ [made e]" using appends by blast
  then show ?case
  proof cases
    case 1
    with stored show ?thesis by (auto intro: list_emb_Cons)
  next
    case 2
    with stored show ?thesis by (intro exI [of _ "made e # stored"]) simp
  qed
qed

lemma record_all_keeps: "prefix table (record_all rec es table)"
  using record_all_shape [of es table] by (auto simp: prefix_def)

lemma record_all_bounded: "length (record_all rec es table) \<le> length table + length es"
proof -
  obtain stored where "subseq stored (map made es)" "record_all rec es table = table @ stored"
    using record_all_shape by blast
  then show ?thesis using list_emb_length [of "(=)" stored "map made es"] by simp
qed

lemma record_all_origin:
  assumes "r \<in> set (record_all rec es table)"
  shows "r \<in> set table \<or> r \<in> made ` set es"
proof -
  obtain stored where s: "subseq stored (map made es)" "record_all rec es table = table @ stored"
    using record_all_shape by blast
  have "set stored \<subseteq> set (map made es)" using s(1) by (auto dest: list_emb_set)
  with assms s(2) show ?thesis by auto
qed

end

interpretation noop: history_recorder noop_record "row_of n" for n
  by unfold_locales (simp add: noop_record_def)

interpretation pg_rec: history_recorder "postgres_record n ins" "row_of n" for n ins
  by unfold_locales (simp add: postgres_record_def split: sum.split)

section \<open>Lemmas\<close>

lemma noop_records_nothing: "record_all noop_record es table = table"
  by (induction es) (simp_all add: noop_record_def)

lemma postgres_records_all:
  assumes "\<And>r. is_ok (ins r)"
  shows "record_all (postgres_record n ins) es table = table @ map (row_of n) es"
proof (induction es arbitrary: table)
  case (Cons e es)
  obtain u where "ins (row_of n e) = Ok u" using assms [of "row_of n e"] by (auto simp: is_ok_iff)
  with Cons show ?case by (simp add: postgres_record_def)
qed simp

end
