(* ===== verification/Executor.thy ===== *)
theory Executor
  imports Http_Executor Shell_Executor History
begin

text \<open>
  \<open>src/executor/mod.rs\<close>: one dispatch of a job, that is the retry loop with the history
  rows it records. Every attempt has its own events; the result of a dispatch is the list
  of rows handed to the recorder and the outcome, which is \<open>None\<close> when an attempt never
  returns. Attempt counters are 32-bit words, as in the release build.
\<close>

section \<open>Data\<close>

record DispatchOutcome =
  out_status :: ExecutionStatus
  attempts :: u32
  last_error :: "string option"

record ExecutorBundle =
  bundle_http :: HttpExecutor
  bundle_shell :: ShellExecutor
  offline_mode :: bool

type_synonym DispatchExtras = "(string \<times> string) list"

definition offline_from_env :: "env \<Rightarrow> bool" where
  "offline_from_env env =
     (case env ''CRONMANAGER_OFFLINE'' of
        Some v \<Rightarrow> to_ascii_lowercase (trim v) \<in> {''true'', ''1'', ''yes'', ''on''}
      | None \<Rightarrow> False)"

definition bundle_new :: "string + unit \<Rightarrow> AppConfig \<Rightarrow> env \<Rightarrow> CronManagerError + ExecutorBundle" where
  "bundle_new client_build cfg env =
     and_then (with_ssrf_policy client_build (limits cfg) (block_private_networks (security cfg))) (\<lambda>http.
     Ok \<lparr>bundle_http = with_allowed_private_hosts http (fst (split_allowed_private_hosts (security cfg))),
         bundle_shell = shell_executor_new cfg,
         offline_mode = offline_from_env env\<rparr>)"

section \<open>Unified attempt results\<close>

record HttpDispatchResult =
  res_body :: "string option"
  res_status_code :: "int option"
  res_error :: "string option"
  is_shell_timeout :: bool

definition from_ok :: "HttpAttempt \<Rightarrow> HttpDispatchResult" where
  "from_ok res =
     \<lparr>res_body = Some (attempt_body res), res_status_code = Some (int (attempt_status res)),
      res_error = None, is_shell_timeout = False\<rparr>"

definition from_err :: "CronManagerError \<Rightarrow> HttpDispatchResult" where
  "from_err err =
     \<lparr>res_body = None,
      res_status_code = (case err of UpstreamHttpError st _ \<Rightarrow> Some (int st) | _ \<Rightarrow> None),
      res_error = Some (to_string err), is_shell_timeout = False\<rparr>"

definition from_shell_ok :: "ShellAttempt \<Rightarrow> HttpDispatchResult" where
  "from_shell_ok res =
     \<lparr>res_body = Some (stdout res), res_status_code = None, res_error = None, is_shell_timeout = False\<rparr>"

definition from_shell_err :: "CronManagerError \<Rightarrow> HttpDispatchResult" where
  "from_shell_err err =
     \<lparr>res_body = None, res_status_code = None, res_error = Some (to_string err),
      is_shell_timeout = (case err of ShellTimeout _ \<Rightarrow> True | _ \<Rightarrow> False)\<rparr>"

text \<open>\<open>Result::map\<close> and \<open>Result::map_err\<close> together.\<close>

definition map_result :: "('a \<Rightarrow> 'b) \<Rightarrow> ('e \<Rightarrow> 'f) \<Rightarrow> 'e + 'a \<Rightarrow> 'f + 'b" where
  "map_result f g r = (case r of Ok a \<Rightarrow> Ok (f a) | Err e \<Rightarrow> Err (g e))"

record attempt_events =
  ev_at :: int
  ev_duration :: int
  ev_http :: http_events
  ev_shell :: shell_events
  ev_delay_cancel_at :: "nat option"
  ev_delay_start :: nat

definition attempt_result ::
  "http_lib \<Rightarrow> ExecutorBundle \<Rightarrow> JobSpec \<Rightarrow> DispatchExtras \<Rightarrow> attempt_events
     \<Rightarrow> (HttpDispatchResult + HttpDispatchResult) option" where
  "attempt_result lib b s extras ev =
     (case kind s of
        Http method url headers \<Rightarrow>
          Some (map_result from_ok from_err
            (snd (http_execute lib (bundle_http b) (ev_http ev) method url headers)))
      | Exec argv allowed \<Rightarrow>
          map_option (map_result from_shell_ok from_shell_err)
            (snd (shell_execute (bundle_shell b) (ev_shell ev) argv allowed extras)))"

section \<open>History rows\<close>

fun kind_method :: "JobKind \<Rightarrow> string option" where
  "kind_method (Http m u hs) = Some m"
| "kind_method (Exec argv allowed) = None"

fun kind_url :: "JobKind \<Rightarrow> string option" where
  "kind_url (Http m u hs) = Some u"
| "kind_url (Exec argv allowed) = None"

definition status_for_history ::
  "nat \<Rightarrow> u32 \<Rightarrow> HttpDispatchResult + HttpDispatchResult \<Rightarrow> ExecutionStatus" where
  "status_for_history attempt mx r =
     (case r of
        Ok _ \<Rightarrow> Success
      | Err d \<Rightarrow>
          if is_shell_timeout d then Timeout
          else if attempt < unat mx then Retrying else Failed)"

definition attempt_entry ::
  "JobSpec \<Rightarrow> attempt_events \<Rightarrow> nat \<Rightarrow> u32 \<Rightarrow> HttpDispatchResult + HttpDispatchResult \<Rightarrow> HistoryEntry" where
  "attempt_entry s ev attempt mx r =
     \<lparr>execution_time = ev_at ev, job_name = name (key s), job_group = group (key s),
      job_type = type_label (kind s), duration_ms = Some (ev_duration ev),
      entry_status = status_for_history attempt mx r,
      http_method = kind_method (kind s), http_url = kind_url (kind s),
      http_status_code = (case r of Ok d \<Rightarrow> res_status_code d | Err d \<Rightarrow> res_status_code d),
      attempt_number = sint (of_nat attempt :: u32), max_attempts = sint mx,
      response_body = (case r of Ok d \<Rightarrow> res_body d | Err _ \<Rightarrow> None),
      error_message = (case r of Ok _ \<Rightarrow> None | Err d \<Rightarrow> res_error d)\<rparr>"

section \<open>Dispatch\<close>

definition offline_entry :: "JobSpec \<Rightarrow> int \<Rightarrow> HistoryEntry" where
  "offline_entry s now =
     \<lparr>execution_time = now, job_name = name (key s), job_group = group (key s),
      job_type = type_label (kind s), duration_ms = Some 0, entry_status = Offline,
      http_method = kind_method (kind s), http_url = kind_url (kind s), http_status_code = None,
      attempt_number = 1, max_attempts = 1, response_body = None,
      error_message = Some ''CRONMANAGER_OFFLINE=true''\<rparr>"

definition offline_stub :: "JobSpec \<Rightarrow> int \<Rightarrow> HistoryEntry list \<times> DispatchOutcome option" where
  "offline_stub s now =
     ([offline_entry s now], Some \<lparr>out_status = Offline, attempts = 1, last_error = None\<rparr>)"

datatype delay_branch = DSleep | DStop

definition stopped_in_delay :: "JobSpec \<Rightarrow> attempt_events \<Rightarrow> bool" where
  "stopped_in_delay s ev \<longleftrightarrow>
     select (ev_delay_start ev) [(DSleep, Some (delay (retry s))), (DStop, ev_delay_cancel_at ev)] = Some DStop"

definition exhausted :: "JobSpec \<Rightarrow> u32 \<Rightarrow> string option \<Rightarrow> DispatchOutcome" where
  "exhausted s mx err =
     \<lparr>out_status = (if ignore_failures (retry s) then Skipped else Failed), attempts = mx, last_error = err\<rparr>"

function dispatch_loop ::
  "http_lib \<Rightarrow> ExecutorBundle \<Rightarrow> JobSpec \<Rightarrow> DispatchExtras \<Rightarrow> (nat \<Rightarrow> attempt_events) \<Rightarrow> u32 \<Rightarrow> nat \<Rightarrow> string option
     \<Rightarrow> HistoryEntry list \<times> DispatchOutcome option" where
  "dispatch_loop lib b s extras world mx attempt err =
     (if attempt > unat mx then ([], Some (exhausted s mx err))
      else case attempt_result lib b s extras (world attempt) of
        None \<Rightarrow> ([], None)
      | Some r \<Rightarrow>
          let entry = attempt_entry s (world attempt) attempt mx r in
          (case r of
             Ok _ \<Rightarrow> ([entry], Some \<lparr>out_status = Success, attempts = of_nat attempt, last_error = None\<rparr>)
           | Err d \<Rightarrow>
               if is_shell_timeout d then
                 ([entry], Some \<lparr>out_status = Timeout, attempts = of_nat attempt, last_error = res_error d\<rparr>)
               else if attempt < unat mx \<and> stopped_in_delay s (world attempt) then
                 ([entry], Some \<lparr>out_status = Failed, attempts = of_nat attempt,
                    last_error = Some ''aborted by /stop''\<rparr>)
               else
                 (let (es, out) = dispatch_loop lib b s extras world mx (attempt + 1) (res_error d)
                  in (entry # es, out))))"
  by pat_completeness auto
termination
  by (relation "measure (\<lambda>(_, _, _, _, _, mx, attempt, _). Suc (unat mx) - attempt)") auto

declare dispatch_loop.simps [simp del]

definition dispatch ::
  "http_lib \<Rightarrow> ExecutorBundle \<Rightarrow> JobSpec \<Rightarrow> DispatchExtras \<Rightarrow> (nat \<Rightarrow> attempt_events)
     \<Rightarrow> HistoryEntry list \<times> DispatchOutcome option" where
  "dispatch lib b s extras world =
     (if offline_mode b then offline_stub s (ev_at (world 1))
      else dispatch_loop lib b s extras world (count (retry s) + 1) 1 None)"

section \<open>Lemmas\<close>

text \<open>
  The specification of the loop: an attempt is final when it succeeds, times out, never
  returns, is stopped during the delay after it, or is the last one allowed.
\<close>

definition final ::
  "http_lib \<Rightarrow> ExecutorBundle \<Rightarrow> JobSpec \<Rightarrow> DispatchExtras \<Rightarrow> (nat \<Rightarrow> attempt_events) \<Rightarrow> u32 \<Rightarrow> nat \<Rightarrow> bool" where
  "final lib b s extras world mx i \<longleftrightarrow>
     (case attempt_result lib b s extras (world i) of
        None \<Rightarrow> True
      | Some (Ok _) \<Rightarrow> True
      | Some (Err d) \<Rightarrow> is_shell_timeout d \<or> stopped_in_delay s (world i) \<or> unat mx \<le> i)"

definition final_outcome ::
  "http_lib \<Rightarrow> ExecutorBundle \<Rightarrow> JobSpec \<Rightarrow> DispatchExtras \<Rightarrow> (nat \<Rightarrow> attempt_events) \<Rightarrow> u32 \<Rightarrow> nat
     \<Rightarrow> DispatchOutcome option" where
  "final_outcome lib b s extras world mx i =
     (case attempt_result lib b s extras (world i) of
        None \<Rightarrow> None
      | Some (Ok _) \<Rightarrow> Some \<lparr>out_status = Success, attempts = of_nat i, last_error = None\<rparr>
      | Some (Err d) \<Rightarrow>
          if is_shell_timeout d then
            Some \<lparr>out_status = Timeout, attempts = of_nat i, last_error = res_error d\<rparr>
          else if i < unat mx then
            Some \<lparr>out_status = Failed, attempts = of_nat i, last_error = Some ''aborted by /stop''\<rparr>
          else Some (exhausted s mx (res_error d)))"

definition attempt_rows ::
  "http_lib \<Rightarrow> ExecutorBundle \<Rightarrow> JobSpec \<Rightarrow> DispatchExtras \<Rightarrow> (nat \<Rightarrow> attempt_events) \<Rightarrow> u32 \<Rightarrow> nat
     \<Rightarrow> HistoryEntry list" where
  "attempt_rows lib b s extras world mx i =
     (case attempt_result lib b s extras (world i) of
        None \<Rightarrow> []
      | Some r \<Rightarrow> [attempt_entry s (world i) i mx r])"

lemma dispatch_loop_past: "unat mx < a \<Longrightarrow> dispatch_loop lib b s extras world mx a err = ([], Some (exhausted s mx err))"
  by (subst dispatch_loop.simps) simp

lemma dispatch_loop_final:
  assumes "final lib b s extras world mx k" and "k \<le> unat mx"
  shows "dispatch_loop lib b s extras world mx k err =
    (attempt_rows lib b s extras world mx k, final_outcome lib b s extras world mx k)"
proof -
  have past: "dispatch_loop lib b s extras world mx (k + 1) e = ([], Some (exhausted s mx e))"
    if "\<not> k < unat mx" for e using that by (intro dispatch_loop_past) simp
  show ?thesis
    using assms past
    by (subst dispatch_loop.simps)
      (auto simp: final_def final_outcome_def attempt_rows_def Let_def split: option.splits sum.splits)
qed

lemma dispatch_loop_step:
  assumes "\<not> final lib b s extras world mx k" and "k \<le> unat mx"
  shows "\<exists>err'. dispatch_loop lib b s extras world mx k err =
    (attempt_rows lib b s extras world mx k @ fst (dispatch_loop lib b s extras world mx (k + 1) err'),
     snd (dispatch_loop lib b s extras world mx (k + 1) err'))"
  using assms
  by (subst dispatch_loop.simps)
    (auto simp: final_def attempt_rows_def Let_def case_prod_beta split: option.splits sum.splits)

lemma dispatch_loop_spec:
  assumes "a \<le> k" "k \<le> unat mx" "final lib b s extras world mx k"
    and "\<forall>i. a \<le> i \<and> i < k \<longrightarrow> \<not> final lib b s extras world mx i"
  shows "dispatch_loop lib b s extras world mx a err =
    (concat (map (attempt_rows lib b s extras world mx) [a..<Suc k]), final_outcome lib b s extras world mx k)"
  using assms
proof (induction "k - a" arbitrary: a err)
  case 0
  then show ?case by (simp add: dispatch_loop_final)
next
  case (Suc n)
  then have less: "a < k" by simp
  obtain err' where step: "dispatch_loop lib b s extras world mx a err =
    (attempt_rows lib b s extras world mx a @ fst (dispatch_loop lib b s extras world mx (a + 1) err'),
     snd (dispatch_loop lib b s extras world mx (a + 1) err'))"
    using dispatch_loop_step [of lib b s extras world mx a err] Suc.prems(2,4) less by auto
  have ih: "dispatch_loop lib b s extras world mx (a + 1) err' =
    (concat (map (attempt_rows lib b s extras world mx) [a + 1..<Suc k]), final_outcome lib b s extras world mx k)"
    using Suc.prems less Suc.hyps(2) by (intro Suc.hyps(1)) auto
  have "[a..<Suc k] = a # [a + 1..<Suc k]" using less by (simp add: upt_conv_Cons)
  then show ?case by (simp only: step ih fst_conv snd_conv list.map concat.simps)
qed

lemma last_is_final: "final lib b s extras world mx (unat mx)"
  by (simp add: final_def split: option.split sum.split)

text \<open>Attempt \<open>k\<close> is the first final one from \<open>a\<close> on.\<close>

definition first_final ::
  "http_lib \<Rightarrow> ExecutorBundle \<Rightarrow> JobSpec \<Rightarrow> DispatchExtras \<Rightarrow> (nat \<Rightarrow> attempt_events) \<Rightarrow> u32 \<Rightarrow> nat \<Rightarrow> nat \<Rightarrow> bool" where
  "first_final lib b s extras world mx a k \<longleftrightarrow>
     a \<le> k \<and> k \<le> unat mx \<and> final lib b s extras world mx k \<and>
     (\<forall>i. a \<le> i \<and> i < k \<longrightarrow> \<not> final lib b s extras world mx i)"

lemma first_final_exists:
  assumes "a \<le> unat mx"
  shows "\<exists>k. first_final lib b s extras world mx a k"
proof -
  let ?P = "\<lambda>k. a \<le> k \<and> final lib b s extras world mx k"
  have ex: "?P (unat mx)" using assms last_is_final by blast
  have "?P (LEAST k. ?P k)" by (rule LeastI [of ?P, OF ex])
  moreover have "(LEAST k. ?P k) \<le> unat mx" by (rule Least_le [of ?P, OF ex])
  moreover have "\<not> final lib b s extras world mx i" if "a \<le> i" "i < (LEAST k. ?P k)" for i
    using not_less_Least [OF that(2)] that(1) by blast
  ultimately show ?thesis unfolding first_final_def by blast
qed

lemma not_final_retries:
  assumes "\<not> final lib b s extras world mx i"
  shows "\<exists>d. attempt_result lib b s extras (world i) = Some (Err d) \<and> \<not> is_shell_timeout d \<and> i < unat mx"
  using assms by (auto simp: final_def split: option.splits sum.splits)

lemma dispatch_online:
  assumes "\<not> offline_mode b" and "count (retry s) \<noteq> - 1"
  shows "\<exists>k. first_final lib b s extras world (count (retry s) + 1) 1 k \<and>
    dispatch lib b s extras world =
      (concat (map (attempt_rows lib b s extras world (count (retry s) + 1)) [1..<Suc k]),
       final_outcome lib b s extras world (count (retry s) + 1) k)"
proof -
  have "1 \<le> unat (count (retry s) + 1)" using u32_succ_no_wrap [OF assms(2)] by simp
  then obtain k where k: "first_final lib b s extras world (count (retry s) + 1) 1 k"
    using first_final_exists by blast
  then have "dispatch lib b s extras world =
      (concat (map (attempt_rows lib b s extras world (count (retry s) + 1)) [1..<Suc k]),
       final_outcome lib b s extras world (count (retry s) + 1) k)"
    unfolding dispatch_def first_final_def using assms(1) dispatch_loop_spec [of 1 k] by simp
  with k show ?thesis by blast
qed

text \<open>The rows of attempts that returned, one per attempt.\<close>

lemma attempt_rows_returned:
  assumes "\<And>i. i \<in> set xs \<Longrightarrow> attempt_result lib b s extras (world i) \<noteq> None"
  shows "concat (map (attempt_rows lib b s extras world mx) xs) =
    map (\<lambda>i. attempt_entry s (world i) i mx (the (attempt_result lib b s extras (world i)))) xs"
  using assms
proof (induction xs)
  case (Cons i xs)
  then obtain r where "attempt_result lib b s extras (world i) = Some r" by fastforce
  with Cons show ?case by (simp add: attempt_rows_def)
qed simp

lemma final_outcome_None:
  "final_outcome lib b s extras world mx k = None \<longleftrightarrow> attempt_result lib b s extras (world k) = None"
  by (simp add: final_outcome_def split: option.split sum.split)

lemma final_outcome_attempts:
  assumes "final_outcome lib b s extras world mx k = Some out" "final lib b s extras world mx k" "k \<le> unat mx"
  shows "attempts out = of_nat k"
  using assms
  by (auto simp: final_outcome_def final_def exhausted_def split: option.splits sum.splits if_splits)

lemma final_row_status:
  assumes "final_outcome lib b s extras world mx k = Some out" "attempt_result lib b s extras (world k) = Some r"
    "final lib b s extras world mx k" "k \<le> unat mx"
  shows "(status_for_history k mx r = Success \<longleftrightarrow> out_status out = Success) \<and>
    (status_for_history k mx r = Timeout \<longleftrightarrow> out_status out = Timeout) \<and>
    (status_for_history k mx r = Failed \<longleftrightarrow> out_status out \<in> {Failed, Skipped} \<and> k = unat mx) \<and>
    (status_for_history k mx r = Retrying \<longleftrightarrow> out_status out = Failed \<and> k < unat mx) \<and>
    (out_status out = Skipped \<longrightarrow> ignore_failures (retry s) \<and> status_for_history k mx r = Failed)"
  using assms
  by (auto simp: final_outcome_def exhausted_def status_for_history_def split: sum.splits if_splits)

lemma retried_row_status:
  assumes "\<not> final lib b s extras world mx i"
  shows "status_for_history i mx (the (attempt_result lib b s extras (world i))) = Retrying"
  using not_final_retries [OF assms] by (auto simp: status_for_history_def)

text \<open>A stop that wins against the send of an attempt turns into an ordinary failure of it.\<close>

lemma attempt_stopped:
  assumes "kind s = Http m u hs" and "prepare lib (bundle_http b) (ev_http ev) m u hs = Ok req"
    and "ev_http_cancel_at (ev_http ev) = Some c" and "c < ev_send_at (ev_http ev)"
  shows "attempt_result lib b s extras ev = Some (Err (from_err (Internal ''aborted by /stop before response'')))"
proof -
  have "select (ev_http_start (ev_http ev))
      [(HSend, Some (ev_send_at (ev_http ev))), (HStop, ev_http_cancel_at (ev_http ev))] = Some HStop"
    by (rule select_first [where t = c]) (use assms(3,4) in auto)
  then show ?thesis using assms(1,2) by (simp add: attempt_result_def http_execute_def map_result_def)
qed

text \<open>The longest output an attempt can hand on, in bytes read from the peer or the child.\<close>

definition output_cap :: "ExecutorBundle \<Rightarrow> nat" where
  "output_cap b = max (http_max_response_bytes (bundle_http b)) (max_output_bytes (bundle_shell b) + length output_truncated)"

lemma map_result_Ok: "map_result f g r = Ok y \<longleftrightarrow> (\<exists>a. r = Ok a \<and> y = f a)"
  by (auto simp: map_result_def split: sum.split)

lemma attempt_body_length:
  assumes "attempt_result lib b s extras ev = Some (Ok d)" and "res_body d = Some body"
  shows "length body \<le> 3 * output_cap b"
proof (cases "kind s")
  case (Http m u hs)
  then obtain a where "snd (http_execute lib (bundle_http b) (ev_http ev) m u hs) = Ok a" "d = from_ok a"
    using assms(1) by (auto simp: attempt_result_def map_result_Ok)
  then show ?thesis using http_body_length [of lib "bundle_http b" "ev_http ev" m u hs a] assms(2)
    by (auto simp: from_ok_def output_cap_def max_def)
next
  case (Exec argv allowed)
  then obtain a where "snd (shell_execute (bundle_shell b) (ev_shell ev) argv allowed extras) = Some (Ok a)" "d = from_shell_ok a"
    using assms(1) by (auto simp: attempt_result_def map_result_Ok)
  then show ?thesis using shell_stdout_length [of "bundle_shell b" "ev_shell ev" argv allowed extras a] assms(2)
    by (auto simp: from_shell_ok_def output_cap_def max_def)
qed

lemma dispatch_loop_entry:
  "e \<in> set (fst (dispatch_loop lib b s extras world mx attempt err)) \<Longrightarrow>
     job_name e = name (key s) \<and> job_group e = group (key s) \<and>
     (\<forall>body. response_body e = Some body \<longrightarrow> length body \<le> 3 * output_cap b)"
proof (induction lib b s extras world mx attempt err rule: dispatch_loop.induct)
  case (1 lib b s extras world mx attempt err)
  then show ?case
    by (subst (asm) dispatch_loop.simps)
      (auto simp: attempt_entry_def Let_def case_prod_beta dest: attempt_body_length split: if_splits option.splits sum.splits)
qed

lemma dispatch_entry:
  "e \<in> set (fst (dispatch lib b s extras world)) \<Longrightarrow>
     job_name e = name (key s) \<and> job_group e = group (key s) \<and>
     (\<forall>body. response_body e = Some body \<longrightarrow> length body \<le> 3 * output_cap b)"
  by (auto simp: dispatch_def offline_stub_def offline_entry_def dest: dispatch_loop_entry split: if_splits)

section \<open>A concrete dispatch\<close>

definition ex_bundle :: "bool \<Rightarrow> ExecutorBundle" where
  "ex_bundle off = \<lparr>bundle_http = ex_http, bundle_shell = ex_shell\<lparr>shell_timeout := 300\<rparr>, offline_mode = off\<rparr>"

definition ex_attempt :: attempt_events where
  "ex_attempt = \<lparr>ev_at = 0, ev_duration = 5,
     ev_http = (ex_http_events (SendError False ''refused''))\<lparr>ev_http_cancel_at := Some 2\<rparr>,
     ev_shell = ex_shell_events (Some 5) [Ok []], ev_delay_cancel_at = None, ev_delay_start = 0\<rparr>"

lemma ex_attempt_result:
  "attempt_result ex_http_lib (ex_bundle off) ex_spec [] ex_attempt =
     Some (Ok \<lparr>res_body = Some (from_utf8_lossy []), res_status_code = None, res_error = None, is_shell_timeout = False\<rparr>)"
proof -
  have sp: "spawn_loop (\<lambda>_. Ok (True, True)) 0 = Ok (True, True)" by (subst spawn_loop.simps) simp
  show ?thesis
    by (simp add: attempt_result_def ex_spec_def shell_execute_def shell_command_def ex_bundle_def
        ex_attempt_def ex_shell_events_def ex_shell_def sp await_child_def select_def collect_output_def
        join_pipe_def shell_read_bounded_def shell_result_def map_result_def from_shell_ok_def)
qed

lemma ex_dispatch:
  "dispatch ex_http_lib (ex_bundle False) ex_spec [] (\<lambda>_. ex_attempt) =
     ([attempt_entry ex_spec ex_attempt 1 1
        (Ok \<lparr>res_body = Some (from_utf8_lossy []), res_status_code = None, res_error = None, is_shell_timeout = False\<rparr>)],
      Some \<lparr>out_status = Success, attempts = 1, last_error = None\<rparr>)"
proof -
  have c: "count (retry ex_spec) = 0" by (simp add: ex_spec_def default_retry_policy_def)
  have off: "\<not> offline_mode (ex_bundle False)" by (simp add: ex_bundle_def)
  show ?thesis
    unfolding dispatch_def using off c by (subst dispatch_loop.simps) (simp add: ex_attempt_result)
qed

text \<open>An attempt whose child exits but leaves its standard output open.\<close>

definition ex_attempt_open :: attempt_events where
  "ex_attempt_open = ex_attempt\<lparr>ev_shell := ex_shell_events (Some 5) [Ok ''started'']\<rparr>"

lemma ex_dispatch_open:
  "dispatch ex_http_lib (ex_bundle False) ex_spec [] (\<lambda>_. ex_attempt_open) = ([], None)"
proof -
  have sp: "spawn_loop (\<lambda>_. Ok (True, True)) 0 = Ok (True, True)" by (subst spawn_loop.simps) simp
  have "attempt_result ex_http_lib (ex_bundle False) ex_spec [] ex_attempt_open = None"
    by (simp add: attempt_result_def ex_spec_def shell_execute_def shell_command_def ex_bundle_def
        ex_attempt_open_def ex_attempt_def ex_shell_events_def ex_shell_def sp await_child_def select_def
        collect_output_def join_pipe_def shell_read_bounded_def)
  moreover have "count (retry ex_spec) = 0" "\<not> offline_mode (ex_bundle False)"
    by (simp_all add: ex_spec_def default_retry_policy_def ex_bundle_def)
  ultimately show ?thesis unfolding dispatch_def by (subst dispatch_loop.simps) simp
qed

section \<open>Properties\<close>

text \<open>
  C8. The retry loop: a dispatch performs attempts 1 to k for some k within the allowed
  number, records one row for each of them, and ends with the outcome attempt k decides;
  every earlier attempt failed, none of them by a shell timeout, so success and timeout
  always end the loop and are never retried. The dispatch returns exactly when attempt k
  does.
\<close>

theorem dispatch_attempts:
  assumes "\<not> offline_mode b" and "count (retry s) \<noteq> - 1"
  shows "\<exists>k. 1 \<le> k \<and> k \<le> unat (count (retry s)) + 1 \<and>
    (\<forall>i. 1 \<le> i \<and> i < k \<longrightarrow>
       (\<exists>d. attempt_result lib b s extras (world i) = Some (Err d) \<and> \<not> is_shell_timeout d)) \<and>
    dispatch lib b s extras world =
      (concat (map (attempt_rows lib b s extras world (count (retry s) + 1)) [1..<Suc k]),
       final_outcome lib b s extras world (count (retry s) + 1) k) \<and>
    (snd (dispatch lib b s extras world) = None \<longleftrightarrow> attempt_result lib b s extras (world k) = None)"
proof -
  obtain k where ff: "first_final lib b s extras world (count (retry s) + 1) 1 k"
    and run: "dispatch lib b s extras world =
      (concat (map (attempt_rows lib b s extras world (count (retry s) + 1)) [1..<Suc k]),
       final_outcome lib b s extras world (count (retry s) + 1) k)"
    using dispatch_online [OF assms] by blast
  then have k: "1 \<le> k" "k \<le> unat (count (retry s) + 1)"
    "\<And>i. 1 \<le> i \<Longrightarrow> i < k \<Longrightarrow> \<not> final lib b s extras world (count (retry s) + 1) i"
    unfolding first_final_def by blast+
  have "\<forall>i. 1 \<le> i \<and> i < k \<longrightarrow>
       (\<exists>d. attempt_result lib b s extras (world i) = Some (Err d) \<and> \<not> is_shell_timeout d)"
    using not_final_retries [OF k(3)] by blast
  moreover have "k \<le> unat (count (retry s)) + 1" using k(2) u32_succ_no_wrap [OF assms(2)] by simp
  moreover have "snd (dispatch lib b s extras world) = None \<longleftrightarrow> attempt_result lib b s extras (world k) = None"
    by (simp add: run final_outcome_None)
  ultimately show ?thesis using k(1) run by (intro exI [of _ k] conjI)
qed

theorem dispatch_attempts_witness:
  "snd (dispatch ex_http_lib (ex_bundle False) ex_spec [] (\<lambda>_. ex_attempt)) \<noteq> None"
proof -
  have "\<not> offline_mode (ex_bundle False)" "count (retry ex_spec) \<noteq> - 1"
    by (simp_all add: ex_bundle_def ex_spec_def default_retry_policy_def)
  from dispatch_attempts [OF this, of ex_http_lib "[]" "\<lambda>_. ex_attempt"] show ?thesis
    by (auto simp: ex_attempt_result)
qed



text \<open>
  A retry count of 4294967295, which the loader accepts when the cap is set that high,
  makes the number of attempts wrap to zero: the job is never executed, nothing is
  recorded, and the outcome is a failure after zero attempts.
\<close>

theorem dispatch_count_wraps:
  assumes "\<not> offline_mode b" and "count (retry s) = - 1"
  shows "dispatch lib b s extras world =
    ([], Some \<lparr>out_status = (if ignore_failures (retry s) then Skipped else Failed), attempts = 0, last_error = None\<rparr>)"
  using assms by (simp add: dispatch_def dispatch_loop_past exhausted_def)

theorem dispatch_count_wraps_witness:
  "fst (dispatch ex_http_lib (ex_bundle False) (ex_spec\<lparr>retry := \<lparr>count = - 1, delay = 1000, ignore_failures = False\<rparr>\<rparr>)
     [] (\<lambda>_. ex_attempt)) = []"
  using dispatch_count_wraps [of "ex_bundle False" "ex_spec\<lparr>retry := \<lparr>count = - 1, delay = 1000, ignore_failures = False\<rparr>\<rparr>"]
  by (simp add: ex_bundle_def)

text \<open>
  In offline mode a dispatch touches neither the network nor a process: whatever would
  have happened, it records exactly one \<open>OFFLINE\<close> row for the job and reports it.
\<close>

theorem dispatch_offline:
  assumes "offline_mode b"
  shows "dispatch lib b s extras world =
    ([offline_entry s (ev_at (world 1))], Some \<lparr>out_status = Offline, attempts = 1, last_error = None\<rparr>)"
  using assms by (simp add: dispatch_def offline_stub_def)

theorem dispatch_offline_witness:
  "fst (dispatch ex_http_lib (ex_bundle True) ex_spec [] (\<lambda>_. ex_attempt)) = [offline_entry ex_spec 0]"
  using dispatch_offline [of "ex_bundle True"] by (simp add: ex_bundle_def ex_attempt_def)

text \<open>
  C35. A stop is not remembered: when it aborts an HTTP attempt in flight and retries are
  left, the attempt counts as an ordinary failure and, unless a second stop arrives during
  the delay, the next attempt is made.
\<close>

theorem stop_in_flight_is_retried:
  assumes "\<not> offline_mode b" and "count (retry s) \<noteq> - 1" and "count (retry s) \<noteq> 0"
    and "kind s = Http m u hs" and "prepare lib (bundle_http b) (ev_http (world 1)) m u hs = Ok req"
    and "ev_http_cancel_at (ev_http (world 1)) = Some c" and "c < ev_send_at (ev_http (world 1))"
    and "ev_delay_cancel_at (world 1) = None"
  shows "\<exists>row rows out. dispatch lib b s extras world = (row # rows, out) \<and> entry_status row = Retrying \<and>
    dispatch_loop lib b s extras world (count (retry s) + 1) 2
      (Some ''internal error: aborted by /stop before response'') = (rows, out)"
proof -
  have r: "attempt_result lib b s extras (world 1) = Some (Err (from_err (Internal ''aborted by /stop before response'')))"
    by (rule attempt_stopped [OF assms(4-7)])
  have n: "1 < unat (count (retry s) + 1)"
    using u32_succ_no_wrap [OF assms(2)] assms(3) by (simp add: unat_gt_0)
  have "select (ev_delay_start (world 1)) [(DSleep, Some (delay (retry s))), (DStop, ev_delay_cancel_at (world 1))] = Some DSleep"
    by (rule select_first [where t = "delay (retry s)"]) (use assms(8) in auto)
  then have "\<not> stopped_in_delay s (world 1)" by (simp add: stopped_in_delay_def)
  with r n assms(1) show ?thesis
    unfolding dispatch_def
    by (subst dispatch_loop.simps)
      (simp add: from_err_def attempt_entry_def status_for_history_def case_prod_beta numeral_2_eq_2)
qed

theorem stop_in_flight_is_retried_witness:
  "\<exists>row rows out. dispatch ex_http_lib (ex_bundle False)
      (ex_spec\<lparr>kind := Http ''get'' ''http://svc/'' [], retry := \<lparr>count = 2, delay = 1000, ignore_failures = False\<rparr>\<rparr>) []
      (\<lambda>_. ex_attempt) = (row # rows, out) \<and> entry_status row = Retrying"
proof -
  let ?s = "ex_spec\<lparr>kind := Http ''get'' ''http://svc/'' [], retry := \<lparr>count = 2, delay = 1000, ignore_failures = False\<rparr>\<rparr>"
  have "\<not> offline_mode (ex_bundle False)" "count (retry ?s) \<noteq> - 1" "count (retry ?s) \<noteq> 0"
    "kind ?s = Http ''get'' ''http://svc/'' []" "ev_http_cancel_at (ev_http ex_attempt) = Some 2"
    "2 < ev_send_at (ev_http ex_attempt)" "ev_delay_cancel_at ex_attempt = None"
    by (simp_all add: ex_bundle_def ex_attempt_def ex_http_events_def)
  moreover have "prepare ex_http_lib (bundle_http (ex_bundle False)) (ev_http ex_attempt) ''get'' ''http://svc/'' [] =
      Ok \<lparr>req_method = ''GET'', req_url = ''http://svc/'', req_headers = []\<rparr>"
    using ex_http_prepare by (simp add: ex_bundle_def ex_attempt_def prepare_cancel)
  ultimately show ?thesis
    using stop_in_flight_is_retried [of "ex_bundle False" ?s "''get''" "''http://svc/''" "[]" ex_http_lib "\<lambda>_. ex_attempt"]
    by blast
qed

end
