(* ===== verification/Scheduler.thy ===== *)
theory Scheduler
  imports Executor "HOL-Library.AList"
begin

text \<open>
  \<open>src/scheduler.rs\<close>: the registry, the running map, the scheduling loops and the tasks
  of triggered jobs. The state holds both maps, the runtime states behind their shared
  references, every spawned task with the point its code has reached, the notifications
  sent and the history. A task advances by one critical section or await at a time
  (\<open>task_step\<close>), so the step relation covers every interleaving at the granularity of
  the locks; the one exception is the dispatch. Dropping the \<open>JoinHandle\<close> of a tokio task detaches the task, as the runtime
  documents; it does not end it. Hash maps are association lists with distinct keys.
\<close>

section \<open>Data\<close>

record JobDescriptor =
  desc_name :: string
  desc_schedule :: string
  last_execution :: int
  next_execution :: int
  desc_last_result :: string

record JobRuntimeState =
  last_execution_ms :: "int option"
  last_result :: string

definition default_runtime_state :: JobRuntimeState where
  "default_runtime_state = \<lparr>last_execution_ms = None, last_result = []\<rparr>"

text \<open>The shared state and the task of a registration are references.\<close>

record RegisteredJob =
  reg_spec :: JobSpec
  reg_state :: nat
  reg_task :: "nat option"

record RunningInstance =
  started_at_ms :: int
  inst_schedule :: string
  inst_cancel :: nat

text \<open>Where the code of a task stands.\<close>

datatype phase =
    Idle
  | Waiting int
  | Skipping int
  | Looked
  | Begun
  | Dispatching nat
  | Hung
  | Finished DispatchOutcome
  | Recorded
  | Done
  | Panicked

record task =
  t_spec :: JobSpec
  t_state :: nat
  t_loop :: bool
  t_extras :: DispatchExtras
  t_phase :: phase

record Scheduler =
  jobs :: "(JobKey \<times> RegisteredJob) list"
  running :: "(JobKey \<times> RunningInstance) list"
  states :: "nat \<Rightarrow> JobRuntimeState"
  tasks :: "task list"
  next_ref :: nat
  notified :: "nat list"
  hist :: "HistoryEntry list"
  clock :: int

definition scheduler_new :: Scheduler where
  "scheduler_new =
     \<lparr>jobs = [], running = [], states = (\<lambda>_. default_runtime_state), tasks = [], next_ref = 0,
      notified = [], hist = [], clock = 0\<rparr>"

section \<open>Registration\<close>

definition trigger_schedule :: "Trigger \<Rightarrow> string" where
  "trigger_schedule t = (case t of Cron e \<Rightarrow> e | Manual \<Rightarrow> [])"

definition unregister :: "JobKey \<Rightarrow> Scheduler \<Rightarrow> Scheduler" where
  "unregister k s = s\<lparr>jobs := AList.delete k (jobs s)\<rparr>"

definition spawn_and_insert :: "JobSpec \<Rightarrow> Scheduler \<Rightarrow> Scheduler" where
  "spawn_and_insert sp s =
     (let ref = next_ref s;
          loop_task = \<lparr>t_spec = sp, t_state = ref, t_loop = True, t_extras = [], t_phase = Idle\<rparr>;
          (new_tasks, handle) =
            (case trigger sp of Cron _ \<Rightarrow> ([loop_task], Some (length (tasks s))) | Manual \<Rightarrow> ([], None))
      in s\<lparr>states := (states s)(ref := default_runtime_state), next_ref := ref + 1,
           tasks := tasks s @ new_tasks,
           jobs := AList.update (key sp) \<lparr>reg_spec = sp, reg_state = ref, reg_task = handle\<rparr> (jobs s)\<rparr>)"

definition register :: "JobSpec \<Rightarrow> Scheduler \<Rightarrow> Scheduler" where
  "register sp s = spawn_and_insert sp (unregister (key sp) s)"

definition register_all :: "JobSpec list \<Rightarrow> Scheduler \<Rightarrow> Scheduler" where
  "register_all specs s = foldl (\<lambda>s sp. register sp s) s specs"

definition job_count :: "Scheduler \<Rightarrow> nat" where
  "job_count s = length (jobs s)"

section \<open>The running guard\<close>

definition begin_running :: "JobKey \<Rightarrow> string \<Rightarrow> Scheduler \<Rightarrow> CronManagerError + Scheduler" where
  "begin_running k schedule s =
     (if map_of (running s) k \<noteq> None then Err (JobAlreadyRunning (group k) (name k))
      else Ok (s\<lparr>running := AList.update k
             \<lparr>started_at_ms = clock s, inst_schedule = schedule, inst_cancel = next_ref s\<rparr> (running s),
           next_ref := next_ref s + 1\<rparr>))"

definition end_running :: "JobKey \<Rightarrow> Scheduler \<Rightarrow> Scheduler" where
  "end_running k s = s\<lparr>running := AList.delete k (running s)\<rparr>"

definition record_outcome :: "nat \<Rightarrow> DispatchOutcome \<Rightarrow> Scheduler \<Rightarrow> Scheduler" where
  "record_outcome ref out s =
     s\<lparr>states := (states s)(ref :=
         \<lparr>last_execution_ms = Some (clock s), last_result = as_str (out_status out)\<rparr>)\<rparr>"

definition record_skip :: "nat \<Rightarrow> int \<Rightarrow> Scheduler \<Rightarrow> Scheduler" where
  "record_skip ref now_ms s =
     s\<lparr>states := (states s)(ref := \<lparr>last_execution_ms = Some now_ms, last_result = ''SKIPPED''\<rparr>)\<rparr>"

section \<open>Handlers\<close>

text \<open>\<open>trigger_now\<close>, run without interruption; \<open>None\<close> is the panic of \<open>expect\<close>.\<close>

definition trigger_now :: "JobKey \<Rightarrow> DispatchExtras \<Rightarrow> Scheduler \<Rightarrow> (CronManagerError + Scheduler) option" where
  "trigger_now k extras s =
     (case map_of (jobs s) k of
        None \<Rightarrow> Some (Err (JobNotFound (group k) (name k)))
      | Some entry \<Rightarrow>
          (case begin_running k (trigger_schedule (trigger (reg_spec entry))) s of
             Err e \<Rightarrow> Some (Err e)
           | Ok s1 \<Rightarrow>
               (case map_of (running s1) k of
                  None \<Rightarrow> None
                | Some inst \<Rightarrow>
                    Some (Ok (s1\<lparr>tasks := tasks s1 @ [\<lparr>t_spec = reg_spec entry, t_state = reg_state entry,
                      t_loop = False, t_extras = extras, t_phase = Dispatching (inst_cancel inst)\<rparr>]\<rparr>)))))"

definition stop :: "JobKey \<Rightarrow> Scheduler \<Rightarrow> CronManagerError + bool \<times> Scheduler" where
  "stop k s =
     (if map_of (jobs s) k = None then Err (JobNotFound (group k) (name k))
      else case map_of (running s) k of
        Some inst \<Rightarrow> Ok (True, s\<lparr>notified := notified s @ [inst_cancel inst]\<rparr>)
      | None \<Rightarrow> Ok (False, s))"

definition notify_all :: "Scheduler \<Rightarrow> Scheduler" where
  "notify_all s = s\<lparr>notified := notified s @ map (inst_cancel \<circ> snd) (running s)\<rparr>"

definition reload_from :: "LoadedJob list \<Rightarrow> Scheduler \<Rightarrow> nat \<times> Scheduler" where
  "reload_from loaded s =
     (length loaded, register_all (map spec loaded) ((notify_all s)\<lparr>jobs := []\<rparr>))"

section \<open>Views\<close>

definition next_fire_ms :: "dsl_lib \<Rightarrow> int \<Rightarrow> string \<Rightarrow> int" where
  "next_fire_ms lib now expr =
     (case cron_from_str lib expr of
        Err _ \<Rightarrow> 0
      | Ok schedule \<Rightarrow> (case schedule now of Some t \<Rightarrow> t | None \<Rightarrow> 0))"

definition push_group :: "string \<Rightarrow> JobDescriptor \<Rightarrow> JobDescriptor list btree \<Rightarrow> JobDescriptor list btree" where
  "push_group g d out = btree_insert g (unwrap_or [] (map_of out g) @ [d]) out"

definition in_group :: "string option \<Rightarrow> JobKey \<Rightarrow> bool" where
  "in_group flt k = (case flt of Some g \<Rightarrow> group k = g | None \<Rightarrow> True)"

definition sort_groups :: "JobDescriptor list btree \<Rightarrow> JobDescriptor list btree" where
  "sort_groups out = map (\<lambda>(g, ds). (g, sort_key desc_name ds)) out"

definition job_descriptor :: "dsl_lib \<Rightarrow> Scheduler \<Rightarrow> JobKey \<Rightarrow> RegisteredJob \<Rightarrow> JobDescriptor" where
  "job_descriptor lib s k entry =
     \<lparr>desc_name = name k, desc_schedule = trigger_schedule (trigger (reg_spec entry)),
      last_execution = unwrap_or 0 (last_execution_ms (states s (reg_state entry))),
      next_execution = (case trigger (reg_spec entry) of Cron e \<Rightarrow> next_fire_ms lib (clock s) e | Manual \<Rightarrow> 0),
      desc_last_result = last_result (states s (reg_state entry))\<rparr>"

definition describe :: "dsl_lib \<Rightarrow> string option \<Rightarrow> Scheduler \<Rightarrow> JobDescriptor list btree" where
  "describe lib flt s =
     sort_groups (foldl (\<lambda>out (k, entry).
         if in_group flt k then push_group (group k) (job_descriptor lib s k entry) out else out)
       [] (jobs s))"

definition running_descriptor :: "Scheduler \<Rightarrow> JobKey \<Rightarrow> RunningInstance \<Rightarrow> JobDescriptor" where
  "running_descriptor s k inst =
     \<lparr>desc_name = name k, desc_schedule = inst_schedule inst, last_execution = started_at_ms inst,
      next_execution = 0,
      desc_last_result =
        (case map_of (jobs s) k of Some j \<Rightarrow> last_result (states s (reg_state j)) | None \<Rightarrow> [])\<rparr>"

definition describe_running :: "string option \<Rightarrow> Scheduler \<Rightarrow> JobDescriptor list btree" where
  "describe_running flt s =
     sort_groups (foldl (\<lambda>out (k, inst). push_group (group k) (running_descriptor s k inst) out)
       [] (filter (\<lambda>(k, _). in_group flt k) (running s)))"

section \<open>Tasks\<close>

definition skip_entry :: "JobSpec \<Rightarrow> int \<Rightarrow> HistoryEntry" where
  "skip_entry sp now =
     \<lparr>execution_time = now, job_name = name (key sp), job_group = group (key sp),
      job_type = type_label (kind sp), duration_ms = Some 0, entry_status = Skipped,
      http_method = None, http_url = None, http_status_code = None, attempt_number = 1,
      max_attempts = 1, response_body = None, error_message = Some ''outside time window''\<rparr>"

definition set_phase :: "nat \<Rightarrow> phase \<Rightarrow> Scheduler \<Rightarrow> Scheduler" where
  "set_phase i p s = s\<lparr>tasks := (tasks s)[i := (tasks s ! i)\<lparr>t_phase := p\<rparr>]\<rparr>"

text \<open>The head of the loop: parse, take the next fire, sleep until it.\<close>

definition next_wait :: "dsl_lib \<Rightarrow> Scheduler \<Rightarrow> JobSpec \<Rightarrow> phase" where
  "next_wait lib s sp =
     (case cron_from_str lib (trigger_schedule (trigger sp)) of
        Err _ \<Rightarrow> Done
      | Ok schedule \<Rightarrow> (case schedule (clock s) of None \<Rightarrow> Done | Some nxt \<Rightarrow> Waiting nxt))"

text \<open>What a loop does when its sleep ends: skip outside the window, else try to begin.\<close>

definition fire :: "nat \<Rightarrow> task \<Rightarrow> Scheduler \<Rightarrow> Scheduler" where
  "fire i t s =
     (if \<not> allows (window (t_spec t)) (clock s) then
        set_phase i (Skipping (clock s)) (s\<lparr>hist := hist s @ [skip_entry (t_spec t) (clock s)]\<rparr>)
      else case begin_running (key (t_spec t)) (trigger_schedule (trigger (t_spec t))) s of
        Err _ \<Rightarrow> set_phase i Idle s
      | Ok s1 \<Rightarrow> set_phase i Begun s1)"

text \<open>
  One step of task \<open>i\<close>, given the events a dispatch would meet; a task whose time has not
  come leaves the state as it is. A dispatch that never returns leaves the rows of the
  attempts before and its task \<open>Hung\<close>, in the middle of its run. A dispatch takes no lock of the
  scheduler and touches nothing but the history, and all of it is one step: its rows stand together in
  \<open>hist\<close>, while in the code the rows of dispatches that overlap may interleave. Between the steps
  before and after it any other task may run.
\<close>

definition task_step ::
  "http_lib \<Rightarrow> ExecutorBundle \<Rightarrow> (nat \<Rightarrow> attempt_events) \<Rightarrow> nat \<Rightarrow> Scheduler \<Rightarrow> Scheduler" where
  "task_step lib b world i s =
     (if i < length (tasks s) then
        let t = tasks s ! i; k = key (t_spec t) in
        (case t_phase t of
           Idle \<Rightarrow> if t_loop t then set_phase i (next_wait (dsl lib) s (t_spec t)) s else s
         | Waiting nxt \<Rightarrow> if nxt \<le> clock s then fire i t s else s
         | Skipping now_ms \<Rightarrow> set_phase i Idle (record_skip (t_state t) now_ms s)
         | Looked \<Rightarrow>
             (case begin_running k (trigger_schedule (trigger (t_spec t))) s of
                Err _ \<Rightarrow> set_phase i Done s
              | Ok s1 \<Rightarrow> set_phase i Begun s1)
         | Begun \<Rightarrow>
             (case map_of (running s) k of
                None \<Rightarrow> set_phase i Panicked s
              | Some inst \<Rightarrow> set_phase i (Dispatching (inst_cancel inst)) s)
         | Dispatching _ \<Rightarrow>
             (case dispatch lib b (t_spec t) (t_extras t) world of
                (rows, None) \<Rightarrow> set_phase i Hung (s\<lparr>hist := hist s @ rows\<rparr>)
              | (rows, Some out) \<Rightarrow> set_phase i (Finished out) (s\<lparr>hist := hist s @ rows\<rparr>))
         | Hung \<Rightarrow> s
         | Finished out \<Rightarrow> set_phase i Recorded (record_outcome (t_state t) out s)
         | Recorded \<Rightarrow> set_phase i (if t_loop t then Idle else Done) (end_running k s)
         | Done \<Rightarrow> s
         | Panicked \<Rightarrow> s)
      else s)"

text \<open>The first critical section of a \<open>trigger_now\<close> call: the clones it takes away.\<close>

definition look_up :: "JobKey \<Rightarrow> DispatchExtras \<Rightarrow> Scheduler \<Rightarrow> Scheduler" where
  "look_up k extras s =
     (case map_of (jobs s) k of
        None \<Rightarrow> s
      | Some entry \<Rightarrow> s\<lparr>tasks := tasks s @ [\<lparr>t_spec = reg_spec entry, t_state = reg_state entry,
          t_loop = False, t_extras = extras, t_phase = Looked\<rparr>]\<rparr>)"

inductive sched_step :: "http_lib \<Rightarrow> ExecutorBundle \<Rightarrow> Scheduler \<Rightarrow> Scheduler \<Rightarrow> bool"
  for lib b where
  tick: "clock s \<le> now \<Longrightarrow> sched_step lib b s (s\<lparr>clock := now\<rparr>)"
| removed: "sched_step lib b s (unregister k s)"
| inserted: "sched_step lib b s (spawn_and_insert sp s)"
| cleared: "sched_step lib b s (s\<lparr>jobs := []\<rparr>)"
| signalled_all: "sched_step lib b s (notify_all s)"
| stopped: "stop k s = Ok (r, s') \<Longrightarrow> sched_step lib b s s'"
| looked: "sched_step lib b s (look_up k extras s)"
| ran: "sched_step lib b s (task_step lib b world i s)"

inductive sched_reachable :: "http_lib \<Rightarrow> ExecutorBundle \<Rightarrow> Scheduler \<Rightarrow> bool"
  for lib b where
  start: "sched_reachable lib b scheduler_new"
| onward: "sched_reachable lib b s \<Longrightarrow> sched_step lib b s s' \<Longrightarrow> sched_reachable lib b s'"

inductive_cases sched_stepE: "sched_step lib b s s'"

section \<open>The guard contract\<close>

text \<open>
  What the scheduler relies on when it begins and ends a run: a key is taken at most once
  and only its own release frees it.
\<close>

locale run_guard =
  fixes held :: "'s \<Rightarrow> 'k \<Rightarrow> bool"
    and acquire :: "'k \<Rightarrow> 's \<Rightarrow> 's option"
    and release :: "'k \<Rightarrow> 's \<Rightarrow> 's"
  assumes acquire_None: "acquire k s = None \<longleftrightarrow> held s k"
    and held_acquire: "acquire k s = Some s' \<Longrightarrow> held s' j \<longleftrightarrow> j = k \<or> held s j"
    and held_release: "held (release k s) j \<longleftrightarrow> held s j \<and> j \<noteq> k"
begin

lemma acquire_blocks: "acquire k s = Some s' \<Longrightarrow> acquire k s' = None"
  by (simp add: acquire_None held_acquire)

lemma release_frees: "acquire k (release k s) \<noteq> None"
  by (simp add: acquire_None held_release)

lemma acquire_other: "acquire k s = Some s' \<Longrightarrow> j \<noteq> k \<Longrightarrow> acquire j s' = None \<longleftrightarrow> acquire j s = None"
  by (simp add: acquire_None held_acquire)

lemma release_acquire: "acquire k s = Some s' \<Longrightarrow> held (release k s') j \<longleftrightarrow> held s j"
  using acquire_None [of k s] by (auto simp: held_release held_acquire)

end

lemma map_of_update [simp]: "map_of (AList.update k v m) = (map_of m)(k \<mapsto> v)"
  by (rule update_conv')

lemma map_of_delete [simp]: "map_of (AList.delete k m) = (map_of m)(k := None)"
  by (rule delete_conv')

interpretation guard: run_guard "\<lambda>s k. map_of (running s) k \<noteq> None"
  "\<lambda>k s. case begin_running k schedule s of Ok s' \<Rightarrow> Some s' | Err _ \<Rightarrow> None" end_running for schedule
  by unfold_locales (auto simp: begin_running_def end_running_def split: if_splits)

section \<open>The invariant\<close>

definition active :: "task \<Rightarrow> bool" where
  "active t = (case t_phase t of
     Begun \<Rightarrow> True | Dispatching _ \<Rightarrow> True | Hung \<Rightarrow> True | Finished _ \<Rightarrow> True | Recorded \<Rightarrow> True | _ \<Rightarrow> False)"

definition key_of :: "task \<Rightarrow> JobKey" where
  "key_of t = key (t_spec t)"

text \<open>
  The running map names exactly the keys of the active tasks, no two of which share a
  key; a dispatching task listens on the notifier its entry holds; no task has panicked.
\<close>

definition guard_inv :: "(JobKey \<times> RunningInstance) list \<Rightarrow> task list \<Rightarrow> bool" where
  "guard_inv rs ts \<longleftrightarrow>
     (\<forall>i < length ts. \<forall>j < length ts. active (ts ! i) \<and> active (ts ! j) \<and> key_of (ts ! i) = key_of (ts ! j) \<longrightarrow> i = j) \<and>
     (\<forall>k. map_of rs k \<noteq> None \<longleftrightarrow> (\<exists>i < length ts. active (ts ! i) \<and> key_of (ts ! i) = k)) \<and>
     (\<forall>i < length ts. \<forall>c. t_phase (ts ! i) = Dispatching c \<longrightarrow>
        (\<exists>inst. map_of rs (key_of (ts ! i)) = Some inst \<and> inst_cancel inst = c)) \<and>
     (\<forall>i < length ts. t_phase (ts ! i) \<noteq> Panicked)"

lemma guard_inv_empty: "guard_inv [] []"
  by (simp add: guard_inv_def)

lemma active_simps [simp]:
  "active (t\<lparr>t_phase := p\<rparr>) \<longleftrightarrow> (case p of
     Begun \<Rightarrow> True | Dispatching _ \<Rightarrow> True | Hung \<Rightarrow> True | Finished _ \<Rightarrow> True | Recorded \<Rightarrow> True | _ \<Rightarrow> False)"
  "key_of (t\<lparr>t_phase := p\<rparr>) = key_of t"
  by (simp_all add: active_def key_of_def)

lemma guard_inv_append:
  assumes "guard_inv rs ts" and "\<not> active t" and "t_phase t \<noteq> Panicked" and "\<And>c. t_phase t \<noteq> Dispatching c"
  shows "guard_inv rs (ts @ [t])"
proof -
  have nth: "(ts @ [t]) ! i = (if i < length ts then ts ! i else t)" if "i < length (ts @ [t])" for i
    using that by (auto simp: nth_append)
  show ?thesis
    using assms unfolding guard_inv_def
    by (auto simp: nth less_Suc_eq)
qed

text \<open>A phase change that keeps a task active, or keeps it inactive.\<close>

lemma guard_inv_move:
  assumes inv: "guard_inv rs ts" and i: "i < length ts"
    and act: "active ((ts ! i)\<lparr>t_phase := p\<rparr>) \<longleftrightarrow> active (ts ! i)" and np: "p \<noteq> Panicked"
    and disp: "\<And>c. p = Dispatching c \<Longrightarrow> \<exists>inst. map_of rs (key_of (ts ! i)) = Some inst \<and> inst_cancel inst = c"
  shows "guard_inv rs (ts[i := (ts ! i)\<lparr>t_phase := p\<rparr>])"
proof -
  let ?ts = "ts[i := (ts ! i)\<lparr>t_phase := p\<rparr>]"
  have same: "active (?ts ! j) \<longleftrightarrow> active (ts ! j)" "key_of (?ts ! j) = key_of (ts ! j)" for j
    using i act by (cases "i = j"; simp)+
  have "t_phase (?ts ! j) = (if i = j then p else t_phase (ts ! j))" if "j < length ts" for j
    using that by auto
  then show ?thesis
    using inv np disp unfolding guard_inv_def same length_list_update by (auto split: if_splits)
qed

lemma guard_inv_acquire:
  assumes inv: "guard_inv rs ts" and i: "i < length ts" and idle: "\<not> active (ts ! i)"
    and free: "map_of rs (key_of (ts ! i)) = None"
  shows "guard_inv (AList.update (key_of (ts ! i)) inst rs) (ts[i := (ts ! i)\<lparr>t_phase := Begun\<rparr>])"
proof -
  let ?ts = "ts[i := (ts ! i)\<lparr>t_phase := Begun\<rparr>]"
  have act: "active (?ts ! j) \<longleftrightarrow> j = i \<or> active (ts ! j)" "key_of (?ts ! j) = key_of (ts ! j)" for j
    using i by (cases "i = j"; simp)+
  have ph: "t_phase (?ts ! j) = (if i = j then Begun else t_phase (ts ! j))" if "j < length ts" for j
    using that by auto
  have other: "key_of (ts ! j) \<noteq> key_of (ts ! i)" if "j < length ts" "active (ts ! j)" for j
    using inv that free unfolding guard_inv_def by metis
  have disp: "active (ts ! j)" if "t_phase (ts ! j) = Dispatching c" for j c
    using that by (simp add: active_def)
  show ?thesis
    unfolding guard_inv_def length_list_update act
  proof (intro conjI allI impI)
    show "x = y" if "x < length ts" "y < length ts"
      "(x = i \<or> active (ts ! x)) \<and> (y = i \<or> active (ts ! y)) \<and> key_of (ts ! x) = key_of (ts ! y)" for x y
      using that other inv unfolding guard_inv_def by metis
    show "map_of (AList.update (key_of (ts ! i)) inst rs) k \<noteq> None \<longleftrightarrow>
        (\<exists>x<length ts. (x = i \<or> active (ts ! x)) \<and> key_of (ts ! x) = k)" for k
      using inv i unfolding guard_inv_def by auto
    show "\<exists>n. map_of (AList.update (key_of (ts ! i)) inst rs) (key_of (ts ! x)) = Some n \<and> inst_cancel n = c"
      if "x < length ts" "t_phase (?ts ! x) = Dispatching c" for x c
      using that inv other [of x] disp [of x c] unfolding guard_inv_def by (auto simp: ph split: if_splits)
    show "t_phase (?ts ! x) \<noteq> Panicked" if "x < length ts" for x
      using that inv unfolding guard_inv_def by (simp add: ph)
  qed
qed

lemma guard_inv_release:
  assumes inv: "guard_inv rs ts" and i: "i < length ts" and busy: "active (ts ! i)"
    and p: "\<not> active ((ts ! i)\<lparr>t_phase := p\<rparr>)" "p \<noteq> Panicked"
  shows "guard_inv (AList.delete (key_of (ts ! i)) rs) (ts[i := (ts ! i)\<lparr>t_phase := p\<rparr>])"
proof -
  let ?ts = "ts[i := (ts ! i)\<lparr>t_phase := p\<rparr>]"
  have act: "active (?ts ! j) \<longleftrightarrow> j \<noteq> i \<and> active (ts ! j)" "key_of (?ts ! j) = key_of (ts ! j)" for j
    using i p(1) by (cases "i = j"; simp)+
  have ph: "t_phase (?ts ! j) = (if i = j then p else t_phase (ts ! j))" if "j < length ts" for j
    using that by auto
  have other: "key_of (ts ! j) \<noteq> key_of (ts ! i)" if "j < length ts" "active (ts ! j)" "j \<noteq> i" for j
    using inv that i busy unfolding guard_inv_def by metis
  have disp: "active (ts ! j)" if "t_phase (ts ! j) = Dispatching c" for j c
    using that by (simp add: active_def)
  have pd: "p \<noteq> Dispatching c" for c using p(1) by auto
  show ?thesis
    unfolding guard_inv_def length_list_update act
  proof (intro conjI allI impI)
    show "x = y" if "x < length ts" "y < length ts"
      "(x \<noteq> i \<and> active (ts ! x)) \<and> (y \<noteq> i \<and> active (ts ! y)) \<and> key_of (ts ! x) = key_of (ts ! y)" for x y
      using that inv unfolding guard_inv_def by metis
    show "map_of (AList.delete (key_of (ts ! i)) rs) k \<noteq> None \<longleftrightarrow>
        (\<exists>x<length ts. (x \<noteq> i \<and> active (ts ! x)) \<and> key_of (ts ! x) = k)" for k
      using inv other unfolding guard_inv_def by auto
    show "\<exists>n. map_of (AList.delete (key_of (ts ! i)) rs) (key_of (ts ! x)) = Some n \<and> inst_cancel n = c"
      if "x < length ts" "t_phase (?ts ! x) = Dispatching c" for x c
      using that inv other [of x] disp [of x c] pd unfolding guard_inv_def by (auto simp: ph split: if_splits)
    show "t_phase (?ts ! x) \<noteq> Panicked" if "x < length ts" for x
      using that inv p(2) unfolding guard_inv_def by (simp add: ph)
  qed
qed

definition sched_inv :: "Scheduler \<Rightarrow> bool" where
  "sched_inv s \<longleftrightarrow> guard_inv (running s) (tasks s)"

lemma sched_inv_frame:
  "sched_inv s \<Longrightarrow> running s' = running s \<Longrightarrow> tasks s' = tasks s \<Longrightarrow> sched_inv s'"
  by (simp add: sched_inv_def)

lemma set_phase_fields [simp]:
  "running (set_phase i p s) = running s"
  "tasks (set_phase i p s) = (tasks s)[i := (tasks s ! i)\<lparr>t_phase := p\<rparr>]"
  "hist (set_phase i p s) = hist s" "jobs (set_phase i p s) = jobs s" "clock (set_phase i p s) = clock s"
  by (simp_all add: set_phase_def)

lemma record_fields [simp]:
  "running (record_outcome r out s) = running s" "tasks (record_outcome r out s) = tasks s"
  "running (record_skip r n s) = running s" "tasks (record_skip r n s) = tasks s"
  "tasks (end_running k s) = tasks s" "running (end_running k s) = AList.delete k (running s)"
  by (simp_all add: record_outcome_def record_skip_def end_running_def)

lemma begin_running_Ok:
  assumes "begin_running k schedule s = Ok s'"
  shows "map_of (running s) k = None" "tasks s' = tasks s" "jobs s' = jobs s" "clock s' = clock s"
    "running s' = AList.update k \<lparr>started_at_ms = clock s, inst_schedule = schedule, inst_cancel = next_ref s\<rparr> (running s)"
  using assms by (auto simp: begin_running_def split: if_splits)

lemma inactive_phases:
  "t_phase t = Idle \<Longrightarrow> \<not> active t" "t_phase t = Waiting n \<Longrightarrow> \<not> active t"
  "t_phase t = Skipping n \<Longrightarrow> \<not> active t" "t_phase t = Looked \<Longrightarrow> \<not> active t"
  by (simp_all add: active_def)

lemma active_phases:
  "t_phase t = Begun \<Longrightarrow> active t" "t_phase t = Dispatching c \<Longrightarrow> active t"
  "t_phase t = Finished out \<Longrightarrow> active t" "t_phase t = Recorded \<Longrightarrow> active t"
  "t_phase t = Hung \<Longrightarrow> active t"
  by (simp_all add: active_def)

lemma inv_begin:
  assumes "sched_inv s" "i < length (tasks s)" "\<not> active (tasks s ! i)"
    and "begin_running (key_of (tasks s ! i)) schedule s = Ok s'"
  shows "sched_inv (set_phase i Begun s')"
  using guard_inv_acquire [OF assms(1) [unfolded sched_inv_def] assms(2,3) begin_running_Ok(1) [OF assms(4)]]
  by (simp add: sched_inv_def begin_running_Ok [OF assms(4)])

lemma inv_move:
  assumes "sched_inv s" "i < length (tasks s)" "active ((tasks s ! i)\<lparr>t_phase := p\<rparr>) \<longleftrightarrow> active (tasks s ! i)"
    "p \<noteq> Panicked"
    "\<And>c. p = Dispatching c \<Longrightarrow> \<exists>inst. map_of (running s) (key_of (tasks s ! i)) = Some inst \<and> inst_cancel inst = c"
  shows "sched_inv (set_phase i p s)"
  using guard_inv_move [OF assms(1) [unfolded sched_inv_def] assms(2-5)] by (simp add: sched_inv_def)

lemma inv_fire:
  assumes "sched_inv s" "i < length (tasks s)" "\<not> active (tasks s ! i)"
  shows "sched_inv (fire i (tasks s ! i) s)"
proof (cases "allows (window (t_spec (tasks s ! i))) (clock s)")
  case False
  have "sched_inv (set_phase i (Skipping (clock s)) (s\<lparr>hist := hist s @ [skip_entry (t_spec (tasks s ! i)) (clock s)]\<rparr>))"
    by (rule inv_move) (use assms in \<open>auto simp: sched_inv_def\<close>)
  with False show ?thesis by (simp add: fire_def)
next
  case True
  show ?thesis
  proof (cases "begin_running (key (t_spec (tasks s ! i))) (trigger_schedule (trigger (t_spec (tasks s ! i)))) s")
    case (Inl e)
    have "sched_inv (set_phase i Idle s)" by (rule inv_move) (use assms in auto)
    with True Inl show ?thesis by (simp add: fire_def)
  next
    case (Inr s1)
    have "sched_inv (set_phase i Begun s1)"
      using inv_begin [OF assms, of "trigger_schedule (trigger (t_spec (tasks s ! i)))" s1] Inr by (simp add: key_of_def)
    with True Inr show ?thesis by (simp add: fire_def)
  qed
qed

lemma next_wait_inactive: "next_wait lib s sp = Done \<or> (\<exists>n. next_wait lib s sp = Waiting n)"
  by (simp add: next_wait_def split: sum.split option.split)

lemma inv_task_step:
  assumes inv: "sched_inv s"
  shows "sched_inv (task_step lib b world i s)"
proof (cases "i < length (tasks s)")
  case i: True
  let ?t = "tasks s ! i"
  show ?thesis
  proof (cases "t_phase ?t")
    case Idle
    have "sched_inv (set_phase i (next_wait (dsl lib) s (t_spec ?t)) s)"
      using next_wait_inactive [of "dsl lib" s "t_spec ?t"] inactive_phases(1) [OF Idle]
      by (intro inv_move [OF inv i]) auto
    with Idle i inv show ?thesis by (simp add: task_step_def Let_def)
  next
    case (Waiting n)
    then show ?thesis using inv i inv_fire [OF inv i inactive_phases(2)] by (simp add: task_step_def)
  next
    case (Skipping n)
    have "sched_inv (set_phase i Idle (record_skip (t_state ?t) n s))"
      by (rule inv_move) (use inv i inactive_phases(3) [OF Skipping] in \<open>auto simp: sched_inv_def\<close>)
    with Skipping i show ?thesis by (simp add: task_step_def)
  next
    case Looked
    have "sched_inv (set_phase i Done s)"
      by (rule inv_move [OF inv i]) (use inactive_phases(4) [OF Looked] in auto)
    moreover have "sched_inv (set_phase i Begun s1)" if "begin_running (key (t_spec ?t)) sch s = Ok s1" for sch s1
      using inv_begin [OF inv i inactive_phases(4) [OF Looked], of sch s1] that by (simp add: key_of_def)
    ultimately show ?thesis using Looked i by (simp add: task_step_def Let_def split: sum.split)
  next
    case Begun
    then have "\<exists>inst. map_of (running s) (key_of ?t) = Some inst"
      using inv i active_phases(1) [OF Begun] unfolding sched_inv_def guard_inv_def by fastforce
    then obtain inst where inst: "map_of (running s) (key_of ?t) = Some inst" by blast
    have "sched_inv (set_phase i (Dispatching (inst_cancel inst)) s)"
      by (rule inv_move [OF inv i]) (use active_phases(1) [OF Begun] inst in auto)
    with Begun i inst show ?thesis by (simp add: task_step_def key_of_def)
  next
    case (Dispatching c)
    have "sched_inv (set_phase i p (s\<lparr>hist := h\<rparr>))" if "p = Hung \<or> p = Finished out" for p out h
      by (rule inv_move) (use that inv i active_phases(2) [OF Dispatching] in \<open>auto simp: sched_inv_def\<close>)
    with Dispatching i inv show ?thesis by (simp add: task_step_def Let_def split: prod.split option.split)
  next
    case (Finished out)
    have "sched_inv (set_phase i Recorded (record_outcome (t_state ?t) out s))"
      by (rule inv_move) (use inv i active_phases(3) [OF Finished] in \<open>auto simp: sched_inv_def\<close>)
    with Finished i show ?thesis by (simp add: task_step_def)
  next
    case Recorded
    have "sched_inv (set_phase i (if t_loop ?t then Idle else Done) (end_running (key (t_spec ?t)) s))"
      using guard_inv_release [OF inv [unfolded sched_inv_def] i active_phases(4) [OF Recorded], of "if t_loop ?t then Idle else Done"]
      by (simp add: sched_inv_def key_of_def)
    with Recorded i show ?thesis by (simp add: task_step_def Let_def)
  qed (use inv i in \<open>simp_all add: task_step_def\<close>)
qed (simp add: task_step_def inv)

lemma inv_spawn_and_insert: "sched_inv s \<Longrightarrow> sched_inv (spawn_and_insert sp s)"
  by (cases "trigger sp")
    (auto simp: sched_inv_def spawn_and_insert_def Let_def active_def intro!: guard_inv_append)

lemma inv_look_up: "sched_inv s \<Longrightarrow> sched_inv (look_up k extras s)"
  by (auto simp: sched_inv_def look_up_def active_def intro!: guard_inv_append split: option.split)

lemma inv_step: "sched_step lib b s s' \<Longrightarrow> sched_inv s \<Longrightarrow> sched_inv s'"
proof (induction rule: sched_step.induct)
  case (stopped k s r s')
  then show ?case by (auto simp: stop_def sched_inv_def split: if_splits option.splits)
next
  case (inserted s sp)
  then show ?case by (rule inv_spawn_and_insert)
next
  case (looked s k extras)
  then show ?case by (rule inv_look_up)
next
  case (ran s world i)
  then show ?case by (rule inv_task_step)
qed (auto simp: sched_inv_def unregister_def notify_all_def)

lemma reachable_inv: "sched_reachable lib b s \<Longrightarrow> sched_inv s"
  by (induction rule: sched_reachable.induct)
    (auto simp: sched_inv_def scheduler_new_def guard_inv_empty intro: inv_step [unfolded sched_inv_def])

text \<open>The invariant read on tasks instead of positions.\<close>

lemma reachable_tasks:
  assumes "sched_reachable lib b s"
  shows "map_of (running s) k \<noteq> None \<longleftrightarrow> (\<exists>t\<in>set (tasks s). active t \<and> key_of t = k)"
    and "t \<in> set (tasks s) \<Longrightarrow> t_phase t = Dispatching c \<Longrightarrow>
      \<exists>inst. map_of (running s) (key_of t) = Some inst \<and> inst_cancel inst = c"
    and "Panicked \<notin> t_phase ` set (tasks s)"
proof -
  have inv: "guard_inv (running s) (tasks s)" using reachable_inv [OF assms] by (simp add: sched_inv_def)
  then have "map_of (running s) k \<noteq> None \<longleftrightarrow> (\<exists>i < length (tasks s). active (tasks s ! i) \<and> key_of (tasks s ! i) = k)"
    unfolding guard_inv_def by blast
  then show "map_of (running s) k \<noteq> None \<longleftrightarrow> (\<exists>t\<in>set (tasks s). active t \<and> key_of t = k)"
    by (simp only: in_set_conv_nth Bex_def) blast
  show "\<exists>inst. map_of (running s) (key_of t) = Some inst \<and> inst_cancel inst = c"
    if "t \<in> set (tasks s)" "t_phase t = Dispatching c"
    using inv that unfolding guard_inv_def by (metis in_set_conv_nth)
  show "Panicked \<notin> t_phase ` set (tasks s)"
    using inv unfolding guard_inv_def by (metis imageE in_set_conv_nth)
qed

section \<open>Registry\<close>

lemma spawn_and_insert_jobs:
  "map_of (jobs (spawn_and_insert sp s)) k =
     (if k = key sp then Some \<lparr>reg_spec = sp, reg_state = next_ref s,
         reg_task = (case trigger sp of Cron _ \<Rightarrow> Some (length (tasks s)) | Manual \<Rightarrow> None)\<rparr>
      else map_of (jobs s) k)"
  by (cases "trigger sp") (auto simp: spawn_and_insert_def Let_def)

lemma register_jobs:
  "map_option reg_spec (map_of (jobs (register sp s)) k) =
     (if k = key sp then Some sp else map_option reg_spec (map_of (jobs s) k))"
  by (simp add: register_def spawn_and_insert_jobs unregister_def)

lemma register_all_jobs:
  "map_option reg_spec (map_of (jobs (register_all sps s)) k) =
     (case map_of (rev (map (\<lambda>sp. (key sp, sp)) sps)) k of
        Some sp \<Rightarrow> Some sp | None \<Rightarrow> map_option reg_spec (map_of (jobs s) k))"
proof (induction sps arbitrary: s)
  case (Cons sp sps)
  have "register_all (sp # sps) s = register_all sps (register sp s)" by (simp add: register_all_def)
  with Cons.IH [of "register sp s"] show ?case
    by (auto simp: register_jobs map_add_def split: option.splits)
qed (simp add: register_all_def)

lemma register_keeps_tasks: "prefix (tasks s) (tasks (register sp s))" "running (register sp s) = running s"
  by (cases "trigger sp"; simp add: register_def unregister_def spawn_and_insert_def Let_def)+

lemma register_all_keeps_tasks:
  "prefix (tasks s) (tasks (register_all sps s))" "running (register_all sps s) = running s"
proof (induction sps arbitrary: s)
  case (Cons sp sps)
  {
    case 1
    show ?case
      using Cons.IH(1) [of "register sp s"] register_keeps_tasks(1) [of s sp]
      by (auto simp: register_all_def intro: prefix_order.trans)
  next
    case 2
    show ?case using Cons.IH(2) [of "register sp s"] register_keeps_tasks(2) [of sp s] by (simp add: register_all_def)
  }
qed (simp_all add: register_all_def)

lemma distinct_jobs_register: "distinct (map fst (jobs s)) \<Longrightarrow> distinct (map fst (jobs (register sp s)))"
  by (cases "trigger sp")
    (auto simp: register_def unregister_def spawn_and_insert_def Let_def intro!: distinct_update distinct_delete)

lemma distinct_jobs_register_all: "distinct (map fst (jobs s)) \<Longrightarrow> distinct (map fst (jobs (register_all sps s)))"
  by (induction sps arbitrary: s) (simp_all add: register_all_def distinct_jobs_register)

lemma register_dom: "fst ` set (jobs (register sp s)) = Set.insert (key sp) (fst ` set (jobs s))"
  by (auto simp: dom_map_of_conv_image_fst [symmetric] register_def spawn_and_insert_jobs unregister_def
      dom_def split: if_splits)

lemma register_all_dom: "fst ` set (jobs (register_all sps s)) = key ` set sps \<union> fst ` set (jobs s)"
proof (induction sps arbitrary: s)
  case (Cons sp sps)
  show ?case using Cons.IH [of "register sp s"] by (auto simp: register_all_def register_dom)
qed (simp add: register_all_def)

section \<open>Steps of one task\<close>

lemma task_step_at_end:
  assumes "tasks s = ts @ [t]"
  shows "task_step lib b world (length ts) s =
    (case t_phase t of
       Looked \<Rightarrow>
         (case begin_running (key (t_spec t)) (trigger_schedule (trigger (t_spec t))) s of
            Err _ \<Rightarrow> set_phase (length ts) Done s | Ok s1 \<Rightarrow> set_phase (length ts) Begun s1)
     | Begun \<Rightarrow>
         (case map_of (running s) (key (t_spec t)) of
            None \<Rightarrow> set_phase (length ts) Panicked s
          | Some inst \<Rightarrow> set_phase (length ts) (Dispatching (inst_cancel inst)) s)
     | _ \<Rightarrow> task_step lib b world (length ts) s)"
  using assms by (cases "t_phase t") (simp_all add: task_step_def Let_def)

lemma trigger_now_steps:
  assumes "map_of (jobs s) k = Some entry" and "map_of (running s) k = None" and "key (reg_spec entry) = k"
  shows "trigger_now k extras s =
    Some (Ok (task_step lib b world (length (tasks s))
      (task_step lib b world (length (tasks s)) (look_up k extras s))))"
  using assms
  by (simp add: trigger_now_def begin_running_def look_up_def task_step_def set_phase_def Let_def)

text \<open>The key a registration is stored under is the key of its specification.\<close>

definition keys_ok :: "Scheduler \<Rightarrow> bool" where
  "keys_ok s \<longleftrightarrow> (\<forall>k entry. map_of (jobs s) k = Some entry \<longrightarrow> key (reg_spec entry) = k)"

lemma jobs_unchanged [simp]:
  "jobs (record_outcome r out s) = jobs s" "jobs (record_skip r n s) = jobs s" "jobs (end_running k s) = jobs s"
  by (simp_all add: record_outcome_def record_skip_def end_running_def)

lemma task_step_jobs: "jobs (task_step lib b world i s) = jobs s"
  by (simp add: task_step_def fire_def Let_def begin_running_def split: phase.split sum.split option.split prod.split)

lemma keys_ok_step: "sched_step lib b s s' \<Longrightarrow> keys_ok s \<Longrightarrow> keys_ok s'"
proof (induction rule: sched_step.induct)
  case (inserted s sp)
  then show ?case by (auto simp: keys_ok_def spawn_and_insert_jobs)
next
  case (stopped k s r s')
  then show ?case by (auto simp: stop_def keys_ok_def split: if_splits option.splits)
qed (auto simp: keys_ok_def unregister_def notify_all_def look_up_def task_step_jobs split: option.splits)

lemma reachable_keys_ok: "sched_reachable lib b s \<Longrightarrow> keys_ok s"
  by (induction rule: sched_reachable.induct) (simp add: keys_ok_def scheduler_new_def, rule keys_ok_step)

text \<open>A step of the scheduler leaves a task alone, unless it is that task's own.\<close>

lemma task_step_other: "j \<noteq> i \<Longrightarrow> tasks (task_step lib b world i s) ! j = tasks s ! j"
  "length (tasks (task_step lib b world i s)) = length (tasks s)"
  by (auto simp: task_step_def fire_def Let_def begin_running_def
      split: phase.split sum.split option.split prod.split if_splits)

lemma step_other:
  "sched_step lib b s s' \<Longrightarrow> i < length (tasks s) \<Longrightarrow>
     i < length (tasks s') \<and> (tasks s' ! i = tasks s ! i \<or> (\<exists>world. s' = task_step lib b world i s))"
proof (induction rule: sched_step.induct)
  case (ran s world j)
  then show ?case using task_step_other [where lib = lib and b = b and world = world and s = s] by metis
next
  case (inserted s sp)
  then show ?case by (cases "trigger sp") (simp_all add: spawn_and_insert_def Let_def nth_append)
next
  case (stopped k s r s')
  then show ?case by (auto simp: stop_def split: if_splits option.splits)
qed (auto simp: unregister_def notify_all_def look_up_def nth_append split: option.splits)

section \<open>Grouped views\<close>

text \<open>Both views push descriptors into their groups: what a group holds after the loop.\<close>

lemma push_group_fold:
  assumes "btree_ok out"
  shows "btree_ok (foldl (\<lambda>out (k, e). if P k then push_group (group k) (d k e) out else out) out xs) \<and>
    map_of (foldl (\<lambda>out (k, e). if P k then push_group (group k) (d k e) out else out) out xs) g =
     (let ds = map (\<lambda>(k, e). d k e) (filter (\<lambda>(k, _). P k \<and> group k = g) xs)
      in if ds = [] then map_of out g else Some (unwrap_or [] (map_of out g) @ ds))"
  using assms
proof (induction xs arbitrary: out)
  case (Cons x xs)
  obtain k e where x: "x = (k, e)" by (cases x)
  let ?out = "if P k then push_group (group k) (d k e) out else out"
  have ok: "btree_ok ?out" using Cons.prems by (simp add: push_group_def bt.invar_insert)
  have look: "map_of ?out g = (if P k \<and> group k = g then Some (unwrap_or [] (map_of out g) @ [d k e]) else map_of out g)"
    using Cons.prems by (simp add: push_group_def bt.lookup_insert)
  show ?case using Cons.IH [OF ok] by (simp add: x look Let_def)
qed simp

lemma sort_groups_lookup: "map_of (sort_groups out) g = map_option (sort_key desc_name) (map_of out g)"
  by (simp add: sort_groups_def map_of_map)

definition group_jobs :: "dsl_lib \<Rightarrow> Scheduler \<Rightarrow> string \<Rightarrow> JobDescriptor list" where
  "group_jobs lib s g = map (\<lambda>(k, e). job_descriptor lib s k e) (filter (\<lambda>(k, _). group k = g) (jobs s))"

lemma describe_lookup:
  "map_of (describe lib flt s) g =
     (if (flt = None \<or> flt = Some g) \<and> group_jobs lib s g \<noteq> []
      then Some (sort_key desc_name (group_jobs lib s g)) else None)"
proof -
  have flt: "filter (\<lambda>(k, _). in_group flt k \<and> group k = g) (jobs s) =
      (if flt = None \<or> flt = Some g then filter (\<lambda>(k, _). group k = g) (jobs s) else [])"
    by (cases flt) (auto simp: in_group_def filter_empty_conv intro: filter_cong)
  show ?thesis
    using push_group_fold [of "[]" "in_group flt" "job_descriptor lib s" "jobs s" g]
    by (auto simp: describe_def sort_groups_lookup flt group_jobs_def Let_def btree_ok_def)
qed

text \<open>What a reload does to the registry and to the tasks.\<close>

lemma register_notified [simp]: "notified (register sp s) = notified s"
  by (simp add: register_def unregister_def spawn_and_insert_def Let_def split: Trigger.split)

lemma register_clock [simp]: "clock (register sp s) = clock s"
  by (simp add: register_def unregister_def spawn_and_insert_def Let_def split: Trigger.split)

lemma register_all_fields [simp]: "notified (register_all sps s) = notified s" "clock (register_all sps s) = clock s"
  unfolding register_all_def by (induction sps arbitrary: s) simp_all

lemma reload_registry:
  "map_option reg_spec (map_of (jobs (snd (reload_from loaded s))) k) =
     map_of (rev (map (\<lambda>j. (key (spec j), spec j)) loaded)) k"
proof -
  have "map_of (rev (map (\<lambda>sp. (key sp, sp)) (map spec loaded))) k =
      map_of (rev (map (\<lambda>j. (key (spec j), spec j)) loaded)) k" by (simp add: comp_def)
  then show ?thesis
    using register_all_jobs [of "map spec loaded" "(notify_all s)\<lparr>jobs := []\<rparr>" k]
    by (auto simp: reload_from_def split: option.splits)
qed

lemma spawn_loop_added:
  assumes "trigger sp = Cron e"
  shows "\<exists>t. tasks (register sp s) = tasks s @ [t] \<and> t_loop t \<and> t_spec t = sp"
  using assms by (simp add: register_def unregister_def spawn_and_insert_def Let_def)

lemma register_all_loops:
  assumes "sp \<in> set sps" and "trigger sp = Cron e"
  shows "\<exists>j. length (tasks s) \<le> j \<and> j < length (tasks (register_all sps s)) \<and>
    t_loop (tasks (register_all sps s) ! j) \<and> t_spec (tasks (register_all sps s) ! j) = sp"
  using assms(1)
proof (induction sps arbitrary: s)
  case (Cons x xs)
  have step: "register_all (x # xs) s = register_all xs (register x s)" by (simp add: register_all_def)
  have pre: "prefix (tasks s) (tasks (register x s))" by (rule register_keeps_tasks(1))
  show ?case
  proof (cases "x = sp")
    case True
    obtain t where t: "tasks (register x s) = tasks s @ [t]" "t_loop t" "t_spec t = sp"
      using spawn_loop_added [OF assms(2)] True by blast
    obtain us where us: "tasks (register_all xs (register x s)) = (tasks s @ [t]) @ us"
      using register_all_keeps_tasks(1) [of "register x s" xs] by (auto simp: prefix_def t(1))
    show ?thesis
      by (rule exI [of _ "length (tasks s)"]) (simp add: step us nth_append t(2,3))
  next
    case False
    then have "sp \<in> set xs" using Cons.prems by simp
    from Cons.IH [OF this, of "register x s"] show ?thesis
      using prefix_length_le [OF pre] by (auto simp: step intro: order_trans)
  qed
qed simp

section \<open>Concrete states\<close>

text \<open>A registered job whose dispatch is under way, and a cron loop whose fire is due.\<close>

definition ex_step :: "Scheduler \<Rightarrow> Scheduler" where
  "ex_step s = task_step ex_http_lib (ex_bundle False) (\<lambda>_. ex_attempt) 0 s"

definition ex_running :: Scheduler where
  "ex_running = ex_step (ex_step (look_up (key ex_spec) [] (spawn_and_insert ex_spec scheduler_new)))"

definition ex_due :: Scheduler where
  "ex_due = (ex_step (spawn_and_insert (ex_spec\<lparr>trigger := Cron ''0 * * * * *''\<rparr>) scheduler_new))\<lparr>clock := 2000\<rparr>"

lemma ex_running_reachable: "sched_reachable ex_http_lib (ex_bundle False) ex_running"
  unfolding ex_running_def ex_step_def
  by (intro sched_reachable.onward [OF _ ran] sched_reachable.onward [OF _ looked]
      sched_reachable.onward [OF _ inserted] sched_reachable.start)

lemmas ex_sched_eval = ex_step_def look_up_def spawn_and_insert_def scheduler_new_def task_step_def
  begin_running_def set_phase_def Let_def

lemma ex_running_eval:
  "tasks ex_running = [\<lparr>t_spec = ex_spec, t_state = 0, t_loop = False, t_extras = [], t_phase = Dispatching 1\<rparr>]"
  "map_of (jobs ex_running) (key ex_spec) \<noteq> None" "map_of (running ex_running) (key ex_spec) \<noteq> None"
  "notified ex_running = []" "hist ex_running = []"
  by (simp_all add: ex_running_def ex_sched_eval ex_spec_def)

lemma ex_due_eval:
  "tasks ex_due = [\<lparr>t_spec = ex_spec\<lparr>trigger := Cron ''0 * * * * *''\<rparr>, t_state = 0, t_loop = True,
     t_extras = [], t_phase = Waiting 1000\<rparr>]" "running ex_due = []" "clock ex_due = 2000"
  by (simp_all add: ex_due_def ex_sched_eval ex_spec_def next_wait_def ex_http_lib_def ex_lib_def trigger_schedule_def)

section \<open>Properties\<close>

text \<open>
  C2. Mutual exclusion, in every interleaving of fires, triggers, stops, reloads and task
  steps: at most one run of a job is between its beginning and its end, the running map
  names exactly the jobs with such a run, and the lookup the code expects to succeed right
  after the insertion always does, so no task ever panics.
\<close>

theorem one_run_per_job:
  assumes "sched_reachable lib b s"
  shows "(\<forall>i j. i < length (tasks s) \<and> j < length (tasks s) \<and> active (tasks s ! i) \<and> active (tasks s ! j) \<and>
      key_of (tasks s ! i) = key_of (tasks s ! j) \<longrightarrow> i = j) \<and>
    (\<forall>k. map_of (running s) k \<noteq> None \<longleftrightarrow> (\<exists>t\<in>set (tasks s). active t \<and> key_of t = k)) \<and>
    Panicked \<notin> t_phase ` set (tasks s)"
  using reachable_inv [OF assms] reachable_tasks(1,3) [OF assms] unfolding sched_inv_def guard_inv_def by blast

theorem one_run_per_job_witness:
  "map_of (running ex_running) (key ex_spec) \<noteq> None \<and> Panicked \<notin> t_phase ` set (tasks ex_running)"
  using one_run_per_job [OF ex_running_reachable]
  by (auto simp: ex_running_eval active_def key_of_def)

text \<open>
  C20. In every reachable state \<open>trigger_now\<close> never panics, answers \<open>JobNotFound\<close> exactly for
  an unregistered job and \<open>JobAlreadyRunning\<close> exactly for a registered one that is running,
  and otherwise takes the job's entry and starts its dispatch, with the same effect as its
  three critical sections run one after the other.
\<close>

theorem trigger_now_outcome:
  assumes "sched_reachable lib b s"
  shows "trigger_now k extras s =
     Some (if map_of (jobs s) k = None then Err (JobNotFound (group k) (name k))
      else if map_of (running s) k \<noteq> None then Err (JobAlreadyRunning (group k) (name k))
      else Ok (task_step lib b world (length (tasks s))
             (task_step lib b world (length (tasks s)) (look_up k extras s))))"
proof (cases "map_of (jobs s) k")
  case None
  then show ?thesis by (simp add: trigger_now_def)
next
  case (Some entry)
  then have "key (reg_spec entry) = k" using reachable_keys_ok [OF assms] by (simp add: keys_ok_def)
  with Some show ?thesis
    using trigger_now_steps [OF Some, of extras lib b world]
    by (cases "map_of (running s) k") (simp_all add: trigger_now_def begin_running_def)
qed

theorem trigger_now_outcome_witness:
  "trigger_now (key ex_spec) [] ex_running = Some (Err (JobAlreadyRunning ''jobs'' ''ping''))"
  using trigger_now_outcome [OF ex_running_reachable, of "key ex_spec" "[]" "\<lambda>_. ex_attempt"] ex_running_eval(2,3)
  by (simp add: ex_spec_def)

text \<open>
  C24. \<open>stop\<close> answers \<open>JobNotFound\<close> exactly for an unregistered job, true exactly for a
  registered one that is running, in which case it notifies the notifier the running
  dispatch listens on and nobody else, and changes nothing else.
\<close>

theorem stop_notifies_running:
  assumes "sched_reachable lib b s"
  shows "(stop k s = Err (JobNotFound (group k) (name k)) \<longleftrightarrow> map_of (jobs s) k = None) \<and>
    (map_of (jobs s) k \<noteq> None \<longrightarrow>
      (\<exists>s'. stop k s = Ok (\<exists>t\<in>set (tasks s). active t \<and> key_of t = k, s') \<and>
        ((\<forall>t\<in>set (tasks s). active t \<longrightarrow> key_of t \<noteq> k) \<longrightarrow> s' = s) \<and>
        (\<forall>t\<in>set (tasks s). \<forall>c. key_of t = k \<and> t_phase t = Dispatching c \<longrightarrow>
           s' = s\<lparr>notified := notified s @ [c]\<rparr>)))"
proof -
  let ?busy = "\<exists>t\<in>set (tasks s). active t \<and> key_of t = k"
  let ?s' = "case map_of (running s) k of Some inst \<Rightarrow> s\<lparr>notified := notified s @ [inst_cancel inst]\<rparr> | None \<Rightarrow> s"
  note running = reachable_tasks(1) [OF assms, of k]
  have stop: "stop k s = (if map_of (jobs s) k = None then Err (JobNotFound (group k) (name k)) else Ok (?busy, ?s'))"
    unfolding running [symmetric] by (simp add: stop_def split: option.split)
  have idle: "?s' = s" if "\<not> ?busy"
  proof -
    have "map_of (running s) k = None" using that running by blast
    then show ?thesis by simp
  qed
  have disp: "?s' = s\<lparr>notified := notified s @ [c]\<rparr>"
    if "t \<in> set (tasks s)" "key_of t = k" "t_phase t = Dispatching c" for t c
    using reachable_tasks(2) [OF assms that(1,3)] that(2) by auto
  show ?thesis
  proof (cases "map_of (jobs s) k = None")
    case True
    then show ?thesis by (simp add: stop)
  next
    case False
    then have "stop k s = Ok (?busy, ?s')" by (simp only: stop if_False)
    moreover have "(\<forall>t\<in>set (tasks s). active t \<longrightarrow> key_of t \<noteq> k) \<longrightarrow> ?s' = s" using idle by blast
    ultimately have "\<exists>s'. stop k s = Ok (?busy, s') \<and>
        ((\<forall>t\<in>set (tasks s). active t \<longrightarrow> key_of t \<noteq> k) \<longrightarrow> s' = s) \<and>
        (\<forall>t\<in>set (tasks s). \<forall>c. key_of t = k \<and> t_phase t = Dispatching c \<longrightarrow> s' = s\<lparr>notified := notified s @ [c]\<rparr>)"
      using disp by (intro exI [of _ ?s']) blast
    moreover have "stop k s \<noteq> Err (JobNotFound (group k) (name k))" by (simp add: stop False)
    ultimately show ?thesis using False by blast
  qed
qed

theorem stop_notifies_running_witness:
  "stop (key ex_spec) ex_running = Ok (True, ex_running\<lparr>notified := [1]\<rparr>)"
  using stop_notifies_running [OF ex_running_reachable, of "key ex_spec"] ex_running_eval(2)
  by (auto simp: ex_running_eval key_of_def active_def)

text \<open>
  The job view lists, under each group, exactly the descriptors of the jobs registered
  in it, sorted by name, and with a filter only the group asked for; groups without a job
  do not appear.
\<close>

theorem describe_lists_group:
  "map_of (describe lib flt s) g =
     (if (flt = None \<or> flt = Some g) \<and> group_jobs lib s g \<noteq> []
      then Some (sort_key desc_name (group_jobs lib s g)) else None)"
  by (rule describe_lookup)

text \<open>
  C25. A reload replaces the registry: afterwards a key is registered exactly if it was
  loaded, with the last specification loaded for it, and runs in progress keep their
  entries. The number reported counts loaded jobs, so it exceeds the number registered when
  two files yield the same key.
\<close>

theorem reload_replaces_registry:
  "map_option reg_spec (map_of (jobs (snd (reload_from loaded s))) k) =
     map_of (rev (map (\<lambda>j. (key (spec j), spec j)) loaded)) k \<and>
   running (snd (reload_from loaded s)) = running s \<and>
   fst (reload_from loaded s) = length loaded \<and>
   job_count (snd (reload_from loaded s)) = card (key ` spec ` set loaded)"
proof -
  let ?s = "(notify_all s)\<lparr>jobs := []\<rparr>"
  have "distinct (map fst (jobs (register_all (map spec loaded) ?s)))"
    by (rule distinct_jobs_register_all) simp
  then have "job_count (register_all (map spec loaded) ?s) = card (fst ` set (jobs (register_all (map spec loaded) ?s)))"
    by (metis distinct_card job_count_def length_map set_map)
  moreover have "map_of (rev (map (\<lambda>sp. (key sp, sp)) (map spec loaded))) k =
      map_of (rev (map (\<lambda>j. (key (spec j), spec j)) loaded)) k" by (simp add: comp_def)
  ultimately show ?thesis
    using register_all_jobs [of "map spec loaded" ?s k] register_all_keeps_tasks(2) [of "map spec loaded" ?s]
    by (auto simp: reload_from_def register_all_dom notify_all_def split: option.splits)
qed

lemma due_loop_begins:
  assumes "i < length (tasks s)" and "t_phase (tasks s ! i) = Waiting nxt" and "nxt \<le> clock s"
    and "allows (window (t_spec (tasks s ! i))) (clock s)" and "map_of (running s) (key_of (tasks s ! i)) = None"
  shows "\<exists>s'. task_step lib b world i s = set_phase i Begun s' \<and> tasks s' = tasks s \<and> jobs s' = jobs s \<and>
    map_of (running s') (key_of (tasks s ! i)) \<noteq> None"
  using assms by (auto simp: task_step_def Let_def fire_def begin_running_def key_of_def)

text \<open>
  C33. A reload, whatever it loads, does not end the scheduling loops there were: their tasks are
  kept with their specifications, and a loop that is due still begins a run. If its job was not
  loaded again, the run is one of a job that is no longer registered, which \<open>stop\<close> then cannot
  reach. If it was loaded again with a cron trigger, the reload adds a second loop for the same job
  beside the old one. The comments on \<open>RegisteredJob\<close> and in \<open>register\<close> say that dropping the task
  handle ends the loop.
\<close>

theorem reload_leaves_loops:
  assumes "i < length (tasks s)" and "t_phase (tasks s ! i) = Waiting nxt" and "nxt \<le> clock s"
    and "allows (window (t_spec (tasks s ! i))) (clock s)" and "map_of (running s) (key_of (tasks s ! i)) = None"
  shows "let k = key_of (tasks s ! i); s1 = snd (reload_from loaded s); s2 = task_step lib b world i s1 in
    prefix (tasks s) (tasks s1) \<and> t_phase (tasks s2 ! i) = Begun \<and> t_spec (tasks s2 ! i) = t_spec (tasks s ! i) \<and>
    map_of (running s2) k \<noteq> None \<and>
    (k \<notin> key ` spec ` set loaded \<longrightarrow> stop k s2 = Err (JobNotFound (group k) (name k))) \<and>
    (\<forall>sp e. sp \<in> spec ` set loaded \<and> key sp = k \<and> trigger sp = Cron e \<longrightarrow>
       (\<exists>j. j \<noteq> i \<and> j < length (tasks s2) \<and> t_loop (tasks s2 ! j) \<and> t_spec (tasks s2 ! j) = sp))"
proof -
  let ?s0 = "(notify_all s)\<lparr>jobs := []\<rparr>" and ?s1 = "snd (reload_from loaded s)" and ?t = "tasks s ! i"
  let ?k = "key_of ?t" and ?s2 = "task_step lib b world i (snd (reload_from loaded s))"
  have s1: "?s1 = register_all (map spec loaded) ?s0" by (simp add: reload_from_def)
  have pre: "prefix (tasks s) (tasks ?s1)"
    using register_all_keeps_tasks(1) [of ?s0 "map spec loaded"] by (simp add: s1 notify_all_def)
  then have len: "length (tasks s) \<le> length (tasks ?s1)" and same: "tasks ?s1 ! i = ?t"
    using assms(1) by (auto simp: prefix_def nth_append)
  have run: "running ?s1 = running s" "clock ?s1 = clock s"
    by (simp_all add: s1 register_all_keeps_tasks(2)) (simp_all add: notify_all_def)
  have i: "i < length (tasks ?s1)" using assms(1) len by simp
  obtain s' where s': "?s2 = set_phase i Begun s'" "tasks s' = tasks ?s1" "jobs s' = jobs ?s1" "map_of (running s') ?k \<noteq> None"
    using due_loop_begins [OF i, of nxt lib b world] assms(2-5) run same by auto
  note s2 = s'(1)
  have "map_of (jobs ?s1) ?k = None" if "?k \<notin> key ` spec ` set loaded"
  proof -
    have "map_of (rev (map (\<lambda>j. (key (spec j), spec j)) loaded)) ?k = None"
      using that by (auto simp: map_of_eq_None_iff)
    then show ?thesis using reload_registry [of loaded s ?k] by simp
  qed
  then have stop: "?k \<notin> key ` spec ` set loaded \<longrightarrow> stop ?k ?s2 = Err (JobNotFound (group ?k) (name ?k))"
    by (simp add: s2 stop_def s'(3))
  have loops: "\<exists>j. j \<noteq> i \<and> j < length (tasks ?s2) \<and> t_loop (tasks ?s2 ! j) \<and> t_spec (tasks ?s2 ! j) = sp"
    if "sp \<in> spec ` set loaded" "trigger sp = Cron e" for sp e
  proof -
    have "tasks ?s0 = tasks s" by (simp add: notify_all_def)
    with register_all_loops [of sp "map spec loaded" e ?s0] that obtain j where
      "length (tasks s) \<le> j" "j < length (tasks ?s1)" "t_loop (tasks ?s1 ! j)" "t_spec (tasks ?s1 ! j) = sp"
      unfolding s1 by auto
    then show ?thesis using assms(1) by (intro exI [of _ j]) (simp add: s2 set_phase_def s'(2))
  qed
  show ?thesis
    using pre stop loops s'(4) i by (auto simp: Let_def s2 set_phase_def s'(2) same)
qed

theorem reload_leaves_loops_witness:
  "map_of (running (ex_step (snd (reload_from [] ex_due)))) (key ex_spec) \<noteq> None \<and>
   (\<exists>j. j \<noteq> 0 \<and> t_loop (tasks (ex_step (snd (reload_from [\<lparr>spec = t_spec (tasks ex_due ! 0), source_path = []\<rparr>] ex_due))) ! j))"
proof -
  have due: "0 < length (tasks ex_due)" "t_phase (tasks ex_due ! 0) = Waiting 1000" "1000 \<le> clock ex_due"
    "allows (window (t_spec (tasks ex_due ! 0))) (clock ex_due)"
    "map_of (running ex_due) (key_of (tasks ex_due ! 0)) = None"
    by (simp_all add: ex_due_eval allows_def ex_spec_def)
  have "\<exists>e. trigger (t_spec (tasks ex_due ! 0)) = Cron e" by (simp add: ex_due_eval ex_spec_def)
  with reload_leaves_loops [OF due, of "[]" ex_http_lib "ex_bundle False" "\<lambda>_. ex_attempt"]
    reload_leaves_loops [OF due, of "[\<lparr>spec = t_spec (tasks ex_due ! 0), source_path = []\<rparr>]" ex_http_lib "ex_bundle False" "\<lambda>_. ex_attempt"]
  show ?thesis by (auto simp: Let_def ex_step_def [symmetric] key_of_def) (simp add: ex_due_eval)
qed

end
