(* ===== verification/Middleware.thy ===== *)
theory Middleware
  imports Errors Rust_Net
begin

text \<open>
  \<open>src/security_headers.rs\<close>, \<open>src/traceparent.rs\<close>, \<open>src/access_log.rs\<close> and the body
  rewrite of \<open>src/router.rs\<close>: the layers around every handler, as functions on responses.
  Header names are lower-case, as the header map stores them. UUIDs and the checks of the
  header-value type are parameters. The contract of a layer that only adds headers is a
  locale.
\<close>

section \<open>Requests and responses\<close>

datatype body = Text string | Json json

record Response =
  resp_status :: nat
  resp_headers :: "(string \<times> string) list"
  resp_body :: body

record Request =
  request_method :: string
  uri_path :: string
  uri_query :: string
  headers :: "(string \<times> string) list"
  matched_path :: "string option"

text \<open>The checks of the HTTP header crate: a text as a value, a value as a text.\<close>

record header_lib =
  value_from_str :: "string \<Rightarrow> bool"
  value_to_str :: "string \<Rightarrow> string option"

definition get_header :: "string \<Rightarrow> (string \<times> string) list \<Rightarrow> string option" where
  "get_header n hs = map_of hs n"

definition or_insert :: "string \<Rightarrow> string \<Rightarrow> (string \<times> string) list \<Rightarrow> (string \<times> string) list" where
  "or_insert n v hs = (if get_header n hs = None then hs @ [(n, v)] else hs)"

text \<open>\<open>HeaderMap::insert\<close> replaces every value of the name, \<open>remove\<close> drops them.\<close>

definition remove_header :: "string \<Rightarrow> (string \<times> string) list \<Rightarrow> (string \<times> string) list" where
  "remove_header n hs = filter (\<lambda>(m, _). m \<noteq> n) hs"

definition insert_header :: "string \<Rightarrow> string \<Rightarrow> (string \<times> string) list \<Rightarrow> (string \<times> string) list" where
  "insert_header n v hs = remove_header n hs @ [(n, v)]"

section \<open>Security headers\<close>

definition security_header_values :: "(string \<times> string) list" where
  "security_header_values =
     [(''content-security-policy'', ''default-src '' @ [CHR 0x27] @ ''none'' @ [CHR 0x27]
        @ ''; frame-ancestors '' @ [CHR 0x27] @ ''none'' @ [CHR 0x27]),
      (''strict-transport-security'', ''max-age=63072000; includeSubDomains; preload''),
      (''x-frame-options'', ''DENY''),
      (''x-content-type-options'', ''nosniff''),
      (''referrer-policy'', ''no-referrer'')]"

definition security_headers_middleware :: "Response \<Rightarrow> Response" where
  "security_headers_middleware r =
     r\<lparr>resp_headers := foldl (\<lambda>hs (n, v). or_insert n v hs) (resp_headers r) security_header_values\<rparr>"

section \<open>Trace context\<close>

definition zero_trace_id :: string where
  "zero_trace_id = replicate 32 (CHR ''0'')"

text \<open>The trace id a well-formed inbound header carries.\<close>

definition inbound_trace_id :: "header_lib \<Rightarrow> Request \<Rightarrow> string option" where
  "inbound_trace_id hl req =
     (case get_header ''traceparent'' (headers req) of
        None \<Rightarrow> None
      | Some v \<Rightarrow>
          (case value_to_str hl v of
             None \<Rightarrow> None
           | Some tp \<Rightarrow>
               (let parts = split_on (CHR ''-'') tp
                in if length parts = 4 \<and> parts ! 0 = ''00'' \<and> length (parts ! 1) = 32 \<and>
                      list_all is_ascii_hexdigit (parts ! 1) \<and> parts ! 1 \<noteq> zero_trace_id
                   then Some (parts ! 1) else None)))"

definition extract_or_generate_trace_id :: "header_lib \<Rightarrow> string \<Rightarrow> Request \<Rightarrow> string" where
  "extract_or_generate_trace_id hl uuid req =
     (case inbound_trace_id hl req of Some t \<Rightarrow> t | None \<Rightarrow> uuid)"

definition generate_span_id :: "string \<Rightarrow> string" where
  "generate_span_id uuid = take 16 uuid"

definition traceparent_value :: "string \<Rightarrow> string \<Rightarrow> string" where
  "traceparent_value trace_id span_id = ''00-'' @ trace_id @ ''-'' @ span_id @ ''-01''"

definition traceparent_middleware ::
  "header_lib \<Rightarrow> string \<Rightarrow> string \<Rightarrow> Request \<Rightarrow> Response \<Rightarrow> Response" where
  "traceparent_middleware hl uuid1 uuid2 req r =
     (let trace_id = extract_or_generate_trace_id hl uuid1 req;
          span_id = generate_span_id uuid2;
          tp = traceparent_value trace_id span_id;
          h1 = (if get_header ''traceparent'' (resp_headers r) = None \<and> value_from_str hl tp
                then insert_header ''traceparent'' tp (resp_headers r) else resp_headers r);
          h2 = (if get_header ''x-trace-id'' h1 = None \<and> value_from_str hl trace_id
                then insert_header ''x-trace-id'' trace_id h1 else h1)
      in r\<lparr>resp_headers := h2\<rparr>)"

section \<open>Access log\<close>

record access_line =
  log_method :: string
  log_route :: string
  log_status :: nat
  log_trace_id :: string

definition extract_trace_id :: "header_lib \<Rightarrow> string \<Rightarrow> Request \<Rightarrow> string" where
  "extract_trace_id hl uuid req =
     (case (case get_header ''traceparent'' (headers req) of None \<Rightarrow> None | Some v \<Rightarrow> value_to_str hl v) of
        None \<Rightarrow> take 16 uuid
      | Some tp \<Rightarrow>
          (let parts = split_on (CHR ''-'') tp
           in if length parts = 4 \<and> length (parts ! 1) = 32 \<and> list_all is_ascii_hexdigit (parts ! 1)
              then parts ! 1 else take 16 uuid))"

definition access_log_middleware ::
  "header_lib \<Rightarrow> string \<Rightarrow> Request \<Rightarrow> Response \<Rightarrow> access_line \<times> Response" where
  "access_log_middleware hl uuid req r =
     (\<lparr>log_method = request_method req, log_route = unwrap_or ''<unmatched>'' (matched_path req),
       log_status = resp_status r, log_trace_id = extract_trace_id hl uuid req\<rparr>, r)"

section \<open>Structured 413\<close>

definition is_json_response :: "header_lib \<Rightarrow> Response \<Rightarrow> bool" where
  "is_json_response hl r =
     (case get_header ''content-type'' (resp_headers r) of
        None \<Rightarrow> False
      | Some v \<Rightarrow>
          (case value_to_str hl v of None \<Rightarrow> False | Some s \<Rightarrow> prefix ''application/json'' s))"

definition structured_error_body_middleware :: "header_lib \<Rightarrow> nat \<Rightarrow> Response \<Rightarrow> Response" where
  "structured_error_body_middleware hl limit r =
     (if resp_status r \<noteq> 413 then r
      else if is_json_response hl r then r
      else r\<lparr>resp_headers := remove_header ''content-length''
                (insert_header ''content-type'' ''application/json'' (resp_headers r)),
             resp_body := Json (JObj [(''error'', JStr ''request_too_large''),
               (''message'', JStr (''request body exceeds '' @ show_nat limit @ '' bytes'')),
               (''limit'', JNum (int limit))])\<rparr>)"

section \<open>The layer contract\<close>

text \<open>
  A layer that decorates a response: status and body pass through, and every header the
  handler set keeps its value.
\<close>

locale header_layer =
  fixes layer :: "Response \<Rightarrow> Response"
  assumes layer_status: "resp_status (layer r) = resp_status r"
    and layer_body: "resp_body (layer r) = resp_body r"
    and layer_keeps: "get_header n (resp_headers r) = Some v \<Longrightarrow> get_header n (resp_headers (layer r)) = Some v"
begin

lemma layer_present:
  "get_header n (resp_headers r) \<noteq> None \<Longrightarrow> get_header n (resp_headers (layer r)) = get_header n (resp_headers r)"
  using layer_keeps by fastforce

end

text \<open>Two such layers in a row are one again.\<close>

locale header_layer_pair = inner: header_layer first_layer + outer: header_layer second_layer
  for first_layer :: "Response \<Rightarrow> Response" and second_layer :: "Response \<Rightarrow> Response"

sublocale header_layer_pair \<subseteq> both: header_layer "\<lambda>r. second_layer (first_layer r)"
  by unfold_locales
    (simp_all add: inner.layer_status outer.layer_status inner.layer_body outer.layer_body
      inner.layer_keeps outer.layer_keeps)

section \<open>Lemmas\<close>

lemma get_or_insert:
  "get_header m (or_insert n v hs) =
     (if m = n \<and> get_header n hs = None then Some v else get_header m hs)"
  by (auto simp: or_insert_def get_header_def map_add_def split: option.splits)

lemma get_remove: "get_header m (remove_header n hs) = (if m = n then None else get_header m hs)"
  unfolding get_header_def remove_header_def by (induction hs) auto

lemma get_insert: "get_header m (insert_header n v hs) = (if m = n then Some v else get_header m hs)"
  using get_remove [of m n hs]
  by (auto simp: insert_header_def get_header_def map_add_def split: option.splits)

lemma security_headers_lookup:
  "get_header n (resp_headers (security_headers_middleware r)) =
     (case get_header n (resp_headers r) of Some v \<Rightarrow> Some v | None \<Rightarrow> map_of security_header_values n)"
  by (simp add: security_headers_middleware_def security_header_values_def get_or_insert split: option.split)

interpretation sec: header_layer security_headers_middleware
  by unfold_locales
    (simp_all add: security_headers_lookup, simp_all add: security_headers_middleware_def)

interpretation tp: header_layer "traceparent_middleware hl uuid1 uuid2 req" for hl uuid1 uuid2 req
  by unfold_locales (auto simp: traceparent_middleware_def Let_def get_insert)

interpretation alog: header_layer "\<lambda>r. snd (access_log_middleware hl uuid req r)" for hl uuid req
  by unfold_locales (simp_all add: access_log_middleware_def)

interpretation sec_tp: header_layer_pair security_headers_middleware "traceparent_middleware hl uuid1 uuid2 req"
  for hl uuid1 uuid2 req
  by unfold_locales

lemma trace_id_shape:
  assumes "length uuid = 32" and "list_all is_ascii_hexdigit uuid"
  shows "length (extract_or_generate_trace_id hl uuid req) = 32 \<and>
    list_all is_ascii_hexdigit (extract_or_generate_trace_id hl uuid req)"
  using assms
  by (auto simp: extract_or_generate_trace_id_def inbound_trace_id_def Let_def split: option.splits if_splits)

lemma split_on_join4:
  assumes "CHR ''-'' \<notin> set a" "CHR ''-'' \<notin> set b" "CHR ''-'' \<notin> set c" "CHR ''-'' \<notin> set d"
  shows "split_on (CHR ''-'') (a @ ''-'' @ b @ ''-'' @ c @ ''-'' @ d) = [a, b, c, d]"
  using assms by (simp add: split_on_Cons split_on_whole)

lemma hex_no_dash: "list_all is_ascii_hexdigit s \<Longrightarrow> CHR ''-'' \<notin> set s"
  by (auto simp: list_all_iff is_ascii_hexdigit_def is_ascii_digit_def)

definition trace_text :: "header_lib \<Rightarrow> bool" where
  "trace_text hl \<longleftrightarrow> (\<forall>v. list_all (\<lambda>c. is_ascii_hexdigit c \<or> c = CHR ''-'') v \<longrightarrow> value_from_str hl v \<and> value_to_str hl v = Some v)"

lemma traceparent_emitted:
  assumes "trace_text hl" and "list_all is_ascii_hexdigit (extract_or_generate_trace_id hl u1 req)" "list_all is_ascii_hexdigit u2"
    and "get_header ''traceparent'' (resp_headers r) = None" "get_header ''x-trace-id'' (resp_headers r) = None"
  shows "get_header ''traceparent'' (resp_headers (traceparent_middleware hl u1 u2 req r)) =
      Some (traceparent_value (extract_or_generate_trace_id hl u1 req) (generate_span_id u2))"
    "get_header ''x-trace-id'' (resp_headers (traceparent_middleware hl u1 u2 req r)) = Some (extract_or_generate_trace_id hl u1 req)"
    "value_to_str hl (traceparent_value (extract_or_generate_trace_id hl u1 req) (generate_span_id u2)) =
      Some (traceparent_value (extract_or_generate_trace_id hl u1 req) (generate_span_id u2))"
proof -
  let ?t = "extract_or_generate_trace_id hl u1 req"
  have "list_all (\<lambda>c. is_ascii_hexdigit c \<or> c = CHR ''-'') ?t" using assms(2) by (auto simp: list_all_iff)
  then have t: "value_from_str hl ?t" using assms(1) by (simp add: trace_text_def)
  have "list_all is_ascii_hexdigit (generate_span_id u2)"
    using assms(3) by (auto simp: generate_span_id_def list_all_iff dest: in_set_takeD)
  then have "list_all (\<lambda>c. is_ascii_hexdigit c \<or> c = CHR ''-'') (traceparent_value ?t (generate_span_id u2))"
    using assms(2) by (auto simp: traceparent_value_def list_all_iff is_ascii_hexdigit_def is_ascii_digit_def)
  then have v: "value_from_str hl (traceparent_value ?t (generate_span_id u2))"
    "value_to_str hl (traceparent_value ?t (generate_span_id u2)) = Some (traceparent_value ?t (generate_span_id u2))"
    using assms(1) by (simp_all add: trace_text_def)
  from v(2) show "value_to_str hl (traceparent_value ?t (generate_span_id u2)) = Some (traceparent_value ?t (generate_span_id u2))" .
  show "get_header ''traceparent'' (resp_headers (traceparent_middleware hl u1 u2 req r)) = Some (traceparent_value ?t (generate_span_id u2))"
    "get_header ''x-trace-id'' (resp_headers (traceparent_middleware hl u1 u2 req r)) = Some ?t"
    using t v(1) assms(4,5) by (simp_all add: traceparent_middleware_def Let_def get_insert)
qed

section \<open>Properties\<close>

text \<open>
  After the header layers every response carries the five security headers, with the
  default values unless the handler chose its own, and its status and body are unchanged.
\<close>

theorem security_headers_present:
  "(case get_header n (resp_headers r) of Some v \<Rightarrow> Some v | None \<Rightarrow> map_of security_header_values n) = Some v
     \<longrightarrow> get_header n (resp_headers (traceparent_middleware hl u1 u2 req (security_headers_middleware r))) = Some v
       \<and> resp_status (traceparent_middleware hl u1 u2 req (security_headers_middleware r)) = resp_status r
       \<and> resp_body (traceparent_middleware hl u1 u2 req (security_headers_middleware r)) = resp_body r"
  using tp.layer_keeps [of n "security_headers_middleware r" v hl u1 u2 req] sec_tp.both.layer_status sec_tp.both.layer_body
  by (simp add: security_headers_lookup)

theorem security_headers_present_witness:
  "get_header ''x-frame-options'' (resp_headers (traceparent_middleware
      \<lparr>value_from_str = (\<lambda>_. True), value_to_str = Some\<rparr> (replicate 32 (CHR ''a'')) (replicate 32 (CHR ''b''))
      \<lparr>request_method = ''GET'', uri_path = ''/'', uri_query = [], headers = [], matched_path = None\<rparr>
      (security_headers_middleware \<lparr>resp_status = 200, resp_headers = [], resp_body = Text ''x''\<rparr>))) = Some ''DENY''"
  using security_headers_present [of "''x-frame-options''" "\<lparr>resp_status = 200, resp_headers = [], resp_body = Text ''x''\<rparr>" "''DENY''"]
  by (simp add: get_header_def security_header_values_def)

text \<open>
  C30. Trace ids round-trip: a client that sends back the \<open>traceparent\<close> value of a response
  gets the same trace id again, unless that id is the all-zero one the standard forbids;
  and the id is always 32 hexadecimal digits.
\<close>

theorem traceparent_roundtrip:
  assumes "trace_text hl" and "list_all (\<lambda>u. length u = 32 \<and> list_all is_ascii_hexdigit u) [u1, u2, u3, u4]"
    and "u1 \<noteq> zero_trace_id"
    and "list_all (\<lambda>n. get_header n (resp_headers r) = None \<and> get_header n (resp_headers r') = None) [''traceparent'', ''x-trace-id'']"
    and "get_header ''traceparent'' (headers req') = get_header ''traceparent'' (resp_headers (traceparent_middleware hl u1 u2 req r))"
  shows "\<exists>t. get_header ''x-trace-id'' (resp_headers (traceparent_middleware hl u1 u2 req r)) = Some t \<and>
    get_header ''x-trace-id'' (resp_headers (traceparent_middleware hl u3 u4 req' r')) = Some t \<and>
    (\<exists>s. get_header ''traceparent'' (resp_headers (traceparent_middleware hl u3 u4 req' r')) = Some (''00-'' @ t @ ''-'' @ s @ ''-01'')) \<and>
    length t = 32 \<and> list_all is_ascii_hexdigit t \<and> t \<noteq> zero_trace_id \<and> (inbound_trace_id hl req = None \<longrightarrow> t = u1)"
proof -
  let ?t = "extract_or_generate_trace_id hl u1 req"
  have u: "length u1 = 32" "list_all is_ascii_hexdigit u1" "list_all is_ascii_hexdigit u2" "list_all is_ascii_hexdigit u3"
      "list_all is_ascii_hexdigit u4" using assms(2) by simp_all
  have t: "length ?t = 32" "list_all is_ascii_hexdigit ?t" using trace_id_shape [OF u(1,2)] by auto
  have nz: "?t \<noteq> zero_trace_id"
    using assms(3) by (auto simp: extract_or_generate_trace_id_def inbound_trace_id_def Let_def split: option.splits if_splits)
  note out = traceparent_emitted [OF assms(1) t(2) u(3), of r]
  have span: "list_all is_ascii_hexdigit (generate_span_id u2)"
    using u(3) by (auto simp: generate_span_id_def list_all_iff dest: in_set_takeD)
  have "split_on (CHR ''-'') (traceparent_value ?t (generate_span_id u2)) = [''00'', ?t, generate_span_id u2, ''01'']"
    using split_on_join4 [of "''00''" ?t "generate_span_id u2" "''01''"] hex_no_dash t(2) span by (simp add: traceparent_value_def)
  moreover have "get_header ''traceparent'' (headers req') = Some (traceparent_value ?t (generate_span_id u2))"
    using assms(4,5) out(1) by simp
  ultimately have "inbound_trace_id hl req' = Some ?t"
    using out(3) assms(4) t nz by (simp add: inbound_trace_id_def)
  then have again: "extract_or_generate_trace_id hl u3 req' = ?t" by (simp add: extract_or_generate_trace_id_def [of hl u3])
  note out' = traceparent_emitted [OF assms(1), of u3 req' u4 r', unfolded again, OF t(2) u(5)]
  have own: "inbound_trace_id hl req = None \<longrightarrow> ?t = u1" by (simp add: extract_or_generate_trace_id_def)
  show ?thesis
    using out(2) out'(1,2) assms(4) t nz own by (intro exI [of _ ?t]) (auto simp: traceparent_value_def)
qed

theorem traceparent_roundtrip_witness:
  "let hl = \<lparr>value_from_str = (\<lambda>_. True), value_to_str = Some\<rparr>;
     r = \<lparr>resp_status = 200, resp_headers = [], resp_body = Text ''x''\<rparr>;
     req = \<lparr>request_method = ''GET'', uri_path = ''/'', uri_query = [], headers = [], matched_path = None\<rparr>;
     out = traceparent_middleware hl (replicate 32 (CHR ''a'')) (replicate 32 (CHR ''b'')) req r;
     req' = req\<lparr>headers := [(''traceparent'', the (get_header ''traceparent'' (resp_headers out)))]\<rparr>
   in get_header ''x-trace-id'' (resp_headers (traceparent_middleware hl (replicate 32 (CHR ''c'')) (replicate 32 (CHR ''d'')) req' r)) =
     Some (replicate 32 (CHR ''a''))"
proof -
  let ?hl = "\<lparr>value_from_str = (\<lambda>_. True), value_to_str = Some\<rparr>" and ?r = "\<lparr>resp_status = 200, resp_headers = [], resp_body = Text ''x''\<rparr>"
  let ?req = "\<lparr>request_method = ''GET'', uri_path = ''/'', uri_query = [], headers = [], matched_path = None\<rparr>"
  let ?u = "\<lambda>c. replicate 32 c"
  let ?out = "traceparent_middleware ?hl (?u (CHR ''a'')) (?u (CHR ''b'')) ?req ?r"
  let ?req' = "?req\<lparr>headers := [(''traceparent'', the (get_header ''traceparent'' (resp_headers ?out)))]\<rparr>"
  have hl: "trace_text ?hl" by (simp add: trace_text_def)
  have ids: "list_all (\<lambda>u. length u = 32 \<and> list_all is_ascii_hexdigit u)
      [?u (CHR ''a''), ?u (CHR ''b''), ?u (CHR ''c''), ?u (CHR ''d'')]" by code_simp
  have nz: "?u (CHR ''a'') \<noteq> zero_trace_id" by code_simp
  have bare: "list_all (\<lambda>n. get_header n (resp_headers ?r) = None \<and> get_header n (resp_headers ?r) = None) [''traceparent'', ''x-trace-id'']"
    by (simp add: get_header_def)
  have sent: "get_header ''traceparent'' (headers ?req') = get_header ''traceparent'' (resp_headers ?out)"
    by (simp add: get_header_def remove_header_def traceparent_middleware_def Let_def insert_header_def)
  have "inbound_trace_id ?hl ?req = None" by (simp add: inbound_trace_id_def get_header_def)
  with traceparent_roundtrip [OF hl ids nz bare sent] show ?thesis unfolding Let_def by auto
qed

text \<open>
  After the rewrite every 413 response is JSON: a body that was not becomes the
  structured error naming the configured limit, one that was is untouched, and no other
  status is changed.
\<close>

theorem structured_413:
  "resp_status (structured_error_body_middleware hl limit r) = resp_status r \<and>
   (resp_status r \<noteq> 413 \<or> is_json_response hl r \<longrightarrow> structured_error_body_middleware hl limit r = r) \<and>
   (resp_status r = 413 \<and> \<not> is_json_response hl r \<longrightarrow>
      get_header ''content-type'' (resp_headers (structured_error_body_middleware hl limit r)) = Some ''application/json'' \<and>
      get_header ''content-length'' (resp_headers (structured_error_body_middleware hl limit r)) = None \<and>
      (413, resp_body (structured_error_body_middleware hl limit r)) =
        (fst (into_response (RequestTooLarge limit)), Json (snd (into_response (RequestTooLarge limit)))))"
  by (auto simp: structured_error_body_middleware_def get_remove get_insert into_response_def)

theorem structured_413_witness:
  "resp_body (structured_error_body_middleware \<lparr>value_from_str = (\<lambda>_. True), value_to_str = Some\<rparr> 10
     \<lparr>resp_status = 413, resp_headers = [], resp_body = Text ''length limit exceeded''\<rparr>) =
   Json (snd (into_response (RequestTooLarge 10)))"
  using structured_413 [of "\<lparr>value_from_str = (\<lambda>_. True), value_to_str = Some\<rparr>" 10
      "\<lparr>resp_status = 413, resp_headers = [], resp_body = Text ''length limit exceeded''\<rparr>"]
  by (simp add: is_json_response_def get_header_def)

end
