(* ===== verification/Router.thy ===== *)
theory Router
  imports Scheduler Middleware
begin

text \<open>
  \<open>src/router.rs\<close>: the reload throttle, the application state, the admin gate, the
  handlers, the route table and the stack of layers around it. The HTTP framework's own
  work is a parameter: matching a path against the registered patterns, decoding the query
  string, the request-body limit, the timeout and the CORS layer. A handler that panics is
  the value \<open>None\<close>.
\<close>

section \<open>Reload throttle\<close>

text \<open>Instants are milliseconds; the map is an association list with distinct keys.\<close>

type_synonym ReloadGate = "(string \<times> nat) list"

definition EVICT_STALE_MULTIPLIER :: nat where "EVICT_STALE_MULTIPLIER = 10"

definition MAX_ENTRIES :: nat where "MAX_ENTRIES = 1024"

definition saturating_mul :: "nat \<Rightarrow> nat \<Rightarrow> nat" where
  "saturating_mul a b = min (a * b) (2 ^ 64 - 1)"

definition elapsed_secs :: "nat \<Rightarrow> nat \<Rightarrow> nat" where
  "elapsed_secs now t = (now - t) div 1000"

definition evict_stale :: "nat \<Rightarrow> nat \<Rightarrow> ReloadGate \<Rightarrow> ReloadGate" where
  "evict_stale now min_interval gate =
     (let stale_after = saturating_mul min_interval EVICT_STALE_MULTIPLIER
      in if stale_after > 0 then filter (\<lambda>(_, t). elapsed_secs now t < stale_after) gate else gate)"

definition evict_oldest :: "string \<Rightarrow> ReloadGate \<Rightarrow> ReloadGate" where
  "evict_oldest grp gate =
     (if length gate \<ge> MAX_ENTRIES \<and> map_of gate grp = None \<and> gate \<noteq> []
      then AList.delete (fst (arg_min_list snd gate)) gate else gate)"

definition admit :: "string \<Rightarrow> nat \<Rightarrow> nat \<Rightarrow> ReloadGate \<Rightarrow> ReloadGate \<times> (nat + unit)" where
  "admit grp min_interval now gate =
     (if min_interval = 0 then (gate, Ok ())
      else
        (case (case map_of gate grp of
             Some t \<Rightarrow> if elapsed_secs now t < min_interval then Some (min_interval - elapsed_secs now t) else None
           | None \<Rightarrow> None) of
           Some wait \<Rightarrow> (gate, Err wait)
         | None \<Rightarrow> (AList.update grp now (evict_oldest grp (evict_stale now min_interval gate)), Ok ())))"

section \<open>State\<close>

record AppState =
  cfg :: AppConfig
  scheduler :: Scheduler
  admin_token :: "string option"
  per_group_tokens :: "string btree"
  reload_gate :: ReloadGate

definition app_state_new :: "AppConfig \<Rightarrow> Scheduler \<Rightarrow> AppState" where
  "app_state_new c s =
     \<lparr>cfg = c, scheduler = s, admin_token = None, per_group_tokens = [], reload_gate = []\<rparr>"

definition with_admin_token :: "string \<Rightarrow> AppState \<Rightarrow> AppState" where
  "with_admin_token token st = st\<lparr>admin_token := Some token\<rparr>"

definition with_per_group_tokens :: "(string \<times> string) list \<Rightarrow> AppState \<Rightarrow> AppState" where
  "with_per_group_tokens tokens st = st\<lparr>per_group_tokens := btree_of tokens\<rparr>"

definition refuse_to_start_without_token :: "AppConfig \<Rightarrow> string \<Rightarrow> bool \<Rightarrow> string + unit" where
  "refuse_to_start_without_token c bind token_present =
     (if token_present then Ok ()
      else if trust_network (admin c) then Ok ()
      else if bind_is_loopback bind then Ok ()
      else Err (''refusing to start on non-loopback bind '' @ bind
        @ '' without an admin token: set env var '' @ bearer_token_env (admin c)
        @ '' to enable the /execute + /stop + /reload gate, or set admin.trust_network=true if a ''
        @ ''reverse proxy / service mesh authenticates every request before it reaches this process''))"

section \<open>Admin gate\<close>

definition ct_token_matches :: "string \<Rightarrow> string \<Rightarrow> bool" where
  "ct_token_matches presented expected =
     (if length presented \<noteq> length expected then False else presented = expected)"

definition extract_group_from_path :: "string \<Rightarrow> string option" where
  "extract_group_from_path p =
     (case strip_prefix_str ''/'' p of
        None \<Rightarrow> None
      | Some rest \<Rightarrow>
          (let parts = split_on (CHR ''/'') rest
           in if hd parts \<in> {''execute'', ''stop'', ''reload''} \<and> 2 \<le> length parts \<and> parts ! 1 \<noteq> []
              then Some (parts ! 1) else None))"

definition bearer_token_bytes :: "string \<Rightarrow> string option" where
  "bearer_token_bytes header =
     (let cs = chars (trim header);
          sch = concat (takeWhile (\<lambda>c. \<not> is_whitespace c) cs);
          tail = dropWhile (\<lambda>c. \<not> is_whitespace c) cs;
          rest = trim (concat tail)
      in if tail = [] then None
         else if \<not> eq_ignore_ascii_case sch ''Bearer'' then None
         else if rest = [] then None
         else Some rest)"

definition presented_token :: "header_lib \<Rightarrow> Request \<Rightarrow> string option" where
  "presented_token hl req =
     (case get_header ''authorization'' (headers req) of
        None \<Rightarrow> None
      | Some v \<Rightarrow> (case value_to_str hl v of None \<Rightarrow> None | Some s \<Rightarrow> bearer_token_bytes s))"

text \<open>\<open>Ok ()\<close> lets the request through to the handler.\<close>

definition admin_gate :: "header_lib \<Rightarrow> AppState \<Rightarrow> Request \<Rightarrow> CronManagerError + unit" where
  "admin_gate hl st req =
     (case admin_token st of
        None \<Rightarrow> Ok ()
      | Some master \<Rightarrow>
          (case presented_token hl req of
             None \<Rightarrow> Err Unauthorized
           | Some presented \<Rightarrow>
               (let master_ok = ct_token_matches presented master;
                    group_ok = (case extract_group_from_path (uri_path req) of
                       None \<Rightarrow> False
                     | Some g \<Rightarrow>
                         (case map_of (per_group_tokens st) g of
                            None \<Rightarrow> False
                          | Some group_token \<Rightarrow> ct_token_matches presented group_token))
                in if \<not> (master_ok \<or> group_ok) then Err Unauthorized else Ok ())))"

section \<open>Handlers\<close>

text \<open>
  What a request meets: the clock, the environment, the file system and the parsers, the
  three UUIDs the layers draw, and whether the request deadline passes while a load is awaited.
\<close>

record web_events =
  ev_now :: nat
  ev_env :: env
  ev_tree :: "fs_node option"
  ev_load_end :: load_end
  ev_uuid1 :: string
  ev_uuid2 :: string
  ev_uuid3 :: string
  ev_deadline :: bool

definition descriptor_json :: "JobDescriptor \<Rightarrow> json" where
  "descriptor_json d =
     JObj [(''name'', JStr (desc_name d)), (''schedule'', JStr (desc_schedule d)),
           (''lastExecution'', JNum (last_execution d)), (''nextExecution'', JNum (next_execution d)),
           (''lastResult'', JStr (desc_last_result d))]"

definition groups_json :: "JobDescriptor list btree \<Rightarrow> json" where
  "groups_json gs = JObj (map (\<lambda>(g, ds). (g, JArr (map descriptor_json ds))) gs)"

definition group_filter :: "string \<Rightarrow> string option" where
  "group_filter g = (if g = [] then None else Some g)"

definition bounded_query :: "AppState \<Rightarrow> (string \<times> string) list \<Rightarrow> CronManagerError + (string \<times> string) list" where
  "bounded_query st pairs =
     (let limit = max_query_params (security (cfg st))
      in if length pairs > limit then Err (TooManyQueryParams (length pairs) limit) else Ok pairs)"

definition dangerous_override :: "AppState \<Rightarrow> (string \<times> string) list \<Rightarrow> string option" where
  "dangerous_override st params =
     (if allow_dangerous_env_overrides (security (cfg st)) then None
      else map_option fst (List.find (\<lambda>(k, _). is_dangerous_env k) params))"

definition execute_job ::
  "AppState \<Rightarrow> string \<Rightarrow> string \<Rightarrow> (string \<times> string) list \<Rightarrow> (AppState \<times> (CronManagerError + json)) option" where
  "execute_job st grp job pairs =
     (case bounded_query st pairs of
        Err e \<Rightarrow> Some (st, Err e)
      | Ok params \<Rightarrow>
          (case dangerous_override st params of
             Some k \<Rightarrow> Some (st, Err (Forbidden (''env override '' @ quoted k
               @ '' matches the dangerous-env blacklist (PATH, LD_*, DYLD_*, PYTHONPATH, NODE_OPTIONS, ''
               @ ellipsis @ ''); refusing to fire '' @ grp @ ''/'' @ job)))
           | None \<Rightarrow>
               (case trigger_now (job_key grp job) params (scheduler st) of
                  None \<Rightarrow> None
                | Some (Err e) \<Rightarrow> Some (st, Err e)
                | Some (Ok s') \<Rightarrow>
                    Some (st\<lparr>scheduler := s'\<rparr>, Ok (groups_json (describe_running (Some grp) s'))))))"

definition stop_job :: "AppState \<Rightarrow> string \<Rightarrow> string \<Rightarrow> AppState \<times> (CronManagerError + json)" where
  "stop_job st grp job =
     (case stop (job_key grp job) (scheduler st) of
        Err e \<Rightarrow> (st, Err e)
      | Ok (aborted, s') \<Rightarrow>
          (st\<lparr>scheduler := s'\<rparr>,
           Ok (JObj [(''stopped'', JBool aborted), (''running'', groups_json (describe_running (Some grp) s'))])))"

definition reload_jobs ::
  "dsl_lib \<Rightarrow> web_events \<Rightarrow> AppState \<Rightarrow> string \<Rightarrow> AppState \<times> (CronManagerError + json)" where
  "reload_jobs lib ev st grp =
     (let sec = security (cfg st) in
      case admit grp (reload_min_interval_secs sec) (ev_now ev) (reload_gate st) of
        (gate, Err wait) \<Rightarrow> (st\<lparr>reload_gate := gate\<rparr>, Err (TooManyRequests wait))
      | (gate, Ok _) \<Rightarrow>
          (let st1 = st\<lparr>reload_gate := gate\<rparr>;
               action = action_from_env (environment_from_env (ev_env ev)) (allow_dev_fixture_dsls sec)
           in case load_all_bounded lib (ev_env ev) (dsl_path (cfg st)) (ev_tree ev) (max_dsl_file_bytes sec)
                  (dsl_load_timeout_secs sec) (max_retry_count sec) (min_cron_interval_secs sec)
                  (block_private_networks sec) action (ev_load_end ev) of
                Err e \<Rightarrow> (st1, Err e)
              | Ok loaded \<Rightarrow>
                  (let (n, s') = reload_from loaded (scheduler st1)
                   in (st1\<lparr>scheduler := s'\<rparr>, Ok (JObj [(''reloaded'', JNum (int n))])))))"

section \<open>Routes\<close>

datatype handler =
    Index | Health | Info | JobsAll | JobsGroup | RunningAll | RunningGroup
  | ExecuteJob | StopJob | ReloadJobs

record route =
  r_pattern :: string
  r_method :: string
  r_handler :: handler
  r_gated :: bool

definition jobs_routes :: "bool \<Rightarrow> route list" where
  "jobs_routes gated =
     [\<lparr>r_pattern = ''/jobs'', r_method = ''GET'', r_handler = JobsAll, r_gated = gated\<rparr>,
      \<lparr>r_pattern = ''/jobs/'', r_method = ''GET'', r_handler = JobsAll, r_gated = gated\<rparr>,
      \<lparr>r_pattern = ''/jobs/:group'', r_method = ''GET'', r_handler = JobsGroup, r_gated = gated\<rparr>]"

definition running_routes :: "bool \<Rightarrow> route list" where
  "running_routes gated =
     [\<lparr>r_pattern = ''/running'', r_method = ''GET'', r_handler = RunningAll, r_gated = gated\<rparr>,
      \<lparr>r_pattern = ''/running/'', r_method = ''GET'', r_handler = RunningAll, r_gated = gated\<rparr>,
      \<lparr>r_pattern = ''/running/:group'', r_method = ''GET'', r_handler = RunningGroup, r_gated = gated\<rparr>]"

definition admin_routes :: "AppConfig \<Rightarrow> route list" where
  "admin_routes c =
     [\<lparr>r_pattern = ''/execute/:group/:job'', r_method = ''POST'', r_handler = ExecuteJob, r_gated = True\<rparr>,
      \<lparr>r_pattern = ''/stop/:group/:job'', r_method = ''POST'', r_handler = StopJob, r_gated = True\<rparr>,
      \<lparr>r_pattern = ''/reload/:group'', r_method = ''POST'', r_handler = ReloadJobs, r_gated = True\<rparr>] @
     (if \<not> expose_jobs_publicly (security c) then jobs_routes True else []) @
     (if \<not> expose_running_publicly (security c) then running_routes True else [])"

definition public_routes :: "AppConfig \<Rightarrow> route list" where
  "public_routes c =
     [\<lparr>r_pattern = ''/'', r_method = ''GET'', r_handler = Index, r_gated = False\<rparr>,
      \<lparr>r_pattern = ''/health'', r_method = ''GET'', r_handler = Health, r_gated = False\<rparr>,
      \<lparr>r_pattern = ''/healthz'', r_method = ''GET'', r_handler = Health, r_gated = False\<rparr>,
      \<lparr>r_pattern = ''/actuator/health'', r_method = ''GET'', r_handler = Health, r_gated = False\<rparr>,
      \<lparr>r_pattern = ''/actuator/info'', r_method = ''GET'', r_handler = Info, r_gated = False\<rparr>] @
     (if expose_jobs_publicly (security c) then jobs_routes False else []) @
     (if expose_running_publicly (security c) then running_routes False else [])"

definition routes :: "AppConfig \<Rightarrow> route list" where
  "routes c = public_routes c @ admin_routes c"

text \<open>
  The framework: the pattern a path matches with its raw parameters, their percent-decoding
  (\<open>None\<close> is the rejection of an invalid one), the pairs of a query string, whether the
  merged router answers an unmatched path behind the gate of the merged routes, and the answers of the
  limit, CORS and method-mismatch machinery.
\<close>

record web_lib =
  w_dsl :: dsl_lib
  w_headers :: header_lib
  match_path :: "string list \<Rightarrow> string \<Rightarrow> (string \<times> string list) option"
  decode_params :: "string list \<Rightarrow> string list option"
  parse_query :: "string \<Rightarrow> (string \<times> string) list"
  fallback_gated :: bool
  body_limit_layer :: "nat \<Rightarrow> Request \<Rightarrow> Response option"
  cors_preflight :: "string list \<Rightarrow> Request \<Rightarrow> Response option"
  cors_layer :: "string list \<Rightarrow> Request \<Rightarrow> Response \<Rightarrow> Response"
  path_rejection :: Response
  not_found_response :: Response
  method_not_allowed_response :: "string \<Rightarrow> Response"
  timeout_response :: Response
  origin_header_ok :: "string \<Rightarrow> bool"

definition json_response :: "nat \<Rightarrow> json \<Rightarrow> Response" where
  "json_response st j =
     \<lparr>resp_status = st, resp_headers = [(''content-type'', ''application/json'')], resp_body = Json j\<rparr>"

definition result_response :: "CronManagerError + json \<Rightarrow> Response" where
  "result_response r =
     (case r of Ok j \<Rightarrow> json_response 200 j | Err e \<Rightarrow> json_response (fst (into_response e)) (snd (into_response e)))"

definition param :: "nat \<Rightarrow> string list \<Rightarrow> string" where
  "param i ps = (if i < length ps then ps ! i else [])"

text \<open>The \<open>Path\<close> extractor answers for a parameter it cannot decode.\<close>

definition with_path ::
  "web_lib \<Rightarrow> AppState \<Rightarrow> string list \<Rightarrow> (string list \<Rightarrow> (AppState \<times> Response) option) \<Rightarrow> (AppState \<times> Response) option" where
  "with_path lib st raw k = (case decode_params lib raw of None \<Rightarrow> Some (st, path_rejection lib) | Some ps \<Rightarrow> k ps)"

definition view :: "AppState \<Rightarrow> JobDescriptor list btree \<Rightarrow> (AppState \<times> Response) option" where
  "view st gs = Some (st, result_response (Ok (groups_json gs)))"

definition run_handler ::
  "web_lib \<Rightarrow> web_events \<Rightarrow> AppState \<Rightarrow> handler \<Rightarrow> string list \<Rightarrow> Request \<Rightarrow> (AppState \<times> Response) option" where
  "run_handler lib ev st h raw req =
     (case h of
        Index \<Rightarrow> Some (st, \<lparr>resp_status = 200,
          resp_headers = [(''content-type'', ''text/plain; charset=utf-8'')], resp_body = Text ''CronManager started''\<rparr>)
      | Health \<Rightarrow> Some (st, result_response (Ok (JObj [(''status'', JStr ''ok'')])))
      | Info \<Rightarrow> Some (st, result_response (Ok (JObj [(''name'', JStr ''cronmanager''), (''version'', JStr ''0.3.0-alpha'')])))
      | JobsAll \<Rightarrow> view st (describe (w_dsl lib) None (scheduler st))
      | JobsGroup \<Rightarrow> with_path lib st raw (\<lambda>ps. view st (describe (w_dsl lib) (group_filter (param 0 ps)) (scheduler st)))
      | RunningAll \<Rightarrow> view st (describe_running None (scheduler st))
      | RunningGroup \<Rightarrow> with_path lib st raw (\<lambda>ps. view st (describe_running (group_filter (param 0 ps)) (scheduler st)))
      | ExecuteJob \<Rightarrow> with_path lib st raw (\<lambda>ps.
          map_option (\<lambda>(st', r). (st', result_response r))
            (execute_job st (param 0 ps) (param 1 ps) (parse_query lib (uri_query req))))
      | StopJob \<Rightarrow> with_path lib st raw (\<lambda>ps.
          let (st', r) = stop_job st (param 0 ps) (param 1 ps) in Some (st', result_response r))
      | ReloadJobs \<Rightarrow> with_path lib st raw (\<lambda>ps.
          let (st', r) = reload_jobs (w_dsl lib) ev st (param 0 ps) in Some (st', result_response r)))"

text \<open>
  Which handler a request reaches, or the response that answers it before. The gate wraps
  the whole method router of its routes, so it answers before a method mismatch.
\<close>

definition gated :: "web_lib \<Rightarrow> bool \<Rightarrow> AppState \<Rightarrow> Request \<Rightarrow> CronManagerError + unit" where
  "gated lib g st req = (if g then admin_gate (w_headers lib) st req else Ok ())"

definition resolve :: "web_lib \<Rightarrow> AppState \<Rightarrow> Request \<Rightarrow> Response + handler \<times> string list" where
  "resolve lib st req =
     (case (case match_path lib (map r_pattern (routes (cfg st))) (uri_path req) of
              None \<Rightarrow> None
            | Some (pat, raw) \<Rightarrow>
                map_option (\<lambda>r. (r, raw)) (List.find (\<lambda>r. r_pattern r = pat) (routes (cfg st)))) of
        None \<Rightarrow>
          (case gated lib (fallback_gated lib) st req of
             Err e \<Rightarrow> Err (result_response (Err e))
           | Ok _ \<Rightarrow> Err (not_found_response lib))
      | Some (r, raw) \<Rightarrow>
          (case gated lib (r_gated r) st req of
             Err e \<Rightarrow> Err (result_response (Err e))
           | Ok _ \<Rightarrow>
               if request_method req = r_method r \<or> request_method req = ''HEAD'' \<and> r_method r = ''GET''
               then Ok (r_handler r, raw)
               else Err (method_not_allowed_response lib (r_method r))))"

definition route_request ::
  "web_lib \<Rightarrow> web_events \<Rightarrow> AppState \<Rightarrow> Request \<Rightarrow> (AppState \<times> Response) option" where
  "route_request lib ev st req =
     (case body_limit_layer lib (max_request_bytes (limits (cfg st))) req of
        Some r \<Rightarrow> Some (st, r)
      | None \<Rightarrow>
          (case resolve lib st req of
             Err r \<Rightarrow> Some (st, r)
           | Ok (h, raw) \<Rightarrow> run_handler lib ev st h raw req))"

text \<open>
  The one handler that waits is an admitted reload, for its load; the state it leaves
  behind when the deadline drops it there.
\<close>

definition awaiting :: "web_lib \<Rightarrow> web_events \<Rightarrow> AppState \<Rightarrow> Request \<Rightarrow> AppState option" where
  "awaiting lib ev st req =
     (case body_limit_layer lib (max_request_bytes (limits (cfg st))) req of
        Some r \<Rightarrow> None
      | None \<Rightarrow>
          (case resolve lib st req of
             Ok (ReloadJobs, raw) \<Rightarrow>
               (case decode_params lib raw of
                  None \<Rightarrow> None
                | Some ps \<Rightarrow>
                    (case admit (param 0 ps) (reload_min_interval_secs (security (cfg st))) (ev_now ev) (reload_gate st) of
                       (gate, Ok _) \<Rightarrow> Some (st\<lparr>reload_gate := gate\<rparr>)
                     | (gate, Err _) \<Rightarrow> None))
           | _ \<Rightarrow> None))"

definition build_cors :: "web_lib \<Rightarrow> string list \<Rightarrow> string list option" where
  "build_cors lib origins =
     (let valid = filter (origin_header_ok lib) origins
      in if origins = [] then None else if valid = [] then None else Some valid)"

text \<open>The layers of \<open>build\<close> around the router, innermost first.\<close>

definition inner_layers :: "web_lib \<Rightarrow> web_events \<Rightarrow> AppState \<Rightarrow> Request \<Rightarrow> Response \<Rightarrow> Response" where
  "inner_layers lib ev st req r =
     snd (access_log_middleware (w_headers lib) (ev_uuid3 ev) req
       (traceparent_middleware (w_headers lib) (ev_uuid1 ev) (ev_uuid2 ev) req
         (security_headers_middleware
           (structured_error_body_middleware (w_headers lib) (max_request_bytes (limits (cfg st))) r))))"

definition deadline_layer :: "web_lib \<Rightarrow> web_events \<Rightarrow> AppState \<Rightarrow> Request \<Rightarrow> (AppState \<times> Response) option" where
  "deadline_layer lib ev st req =
     (case (if 0 < request_timeout_secs (limits (cfg st)) \<and> ev_deadline ev then awaiting lib ev st req else None) of
        Some st' \<Rightarrow> Some (st', timeout_response lib)
      | None \<Rightarrow> map_option (\<lambda>(st', r). (st', inner_layers lib ev st req r)) (route_request lib ev st req))"

definition serve :: "web_lib \<Rightarrow> web_events \<Rightarrow> AppState \<Rightarrow> Request \<Rightarrow> (AppState \<times> Response) option" where
  "serve lib ev st req =
     (case build_cors lib (allowed_origins (cfg st)) of
        None \<Rightarrow> deadline_layer lib ev st req
      | Some origins \<Rightarrow>
          (case cors_preflight lib origins req of
             Some r \<Rightarrow> Some (st, r)
           | None \<Rightarrow>
               map_option (\<lambda>(st', r). (st', cors_layer lib origins req r)) (deadline_layer lib ev st req)))"

section \<open>The throttle contract\<close>

text \<open>A sequence of calls against one state, with the answers in order.\<close>

fun run_all :: "('a \<Rightarrow> 's \<Rightarrow> 's \<times> 'r) \<Rightarrow> 'a list \<Rightarrow> 's \<Rightarrow> 's \<times> 'r list" where
  "run_all f [] s = (s, [])"
| "run_all f (a # as) s = (let (s1, r) = f a s; (s2, rs) = run_all f as s1 in (s2, r # rs))"

text \<open>
  What the reload handler relies on: an admission is remembered until its interval has
  passed, a refusal changes nothing. \<open>room K s\<close> says that the memory of \<open>s\<close> is enough for
  the keys \<open>K\<close>.
\<close>

locale throttle =
  fixes adm :: "'k \<Rightarrow> nat \<Rightarrow> 's \<Rightarrow> 's \<times> ('w + unit)"
    and last_of :: "'s \<Rightarrow> 'k \<Rightarrow> nat option"
    and ready :: "nat \<Rightarrow> nat \<Rightarrow> bool"
    and room :: "'k set \<Rightarrow> 's \<Rightarrow> bool"
  assumes refused: "snd (adm k now s) = Err w \<Longrightarrow> fst (adm k now s) = s"
    and recorded: "snd (adm k now s) = Ok u \<Longrightarrow>
      last_of (fst (adm k now s)) k = Some now \<or> (\<forall>n t. ready n t)"
    and due: "snd (adm k now s) = Ok u \<Longrightarrow> last_of s k = Some t \<Longrightarrow> ready now t"
    and forgets: "room K s \<Longrightarrow> k \<in> K \<Longrightarrow> j \<noteq> k \<Longrightarrow>
      last_of (fst (adm k now s)) j = last_of s j \<or>
      last_of (fst (adm k now s)) j = None \<and> (\<forall>t. last_of s j = Some t \<longrightarrow> ready now t)"
    and room_kept: "room K s \<Longrightarrow> k \<in> K \<Longrightarrow> room K (fst (adm k now s))"
    and ready_later: "ready now t \<Longrightarrow> now \<le> now' \<Longrightarrow> t' \<le> t \<Longrightarrow> ready now' t'"
begin

text \<open>What is still known of an admission of \<open>k\<close> at \<open>t0\<close>.\<close>

definition remembered :: "'k \<Rightarrow> nat \<Rightarrow> nat \<Rightarrow> 's \<Rightarrow> bool" where
  "remembered k t0 now s \<longleftrightarrow> (case last_of s k of Some t \<Rightarrow> t0 \<le> t | None \<Rightarrow> ready now t0) \<or> (\<forall>n t. ready n t)"

lemma remembered_adm:
  assumes "remembered k t0 c s" and "room K s" and "j \<in> K" and "c \<le> now" and "t0 \<le> c"
  shows "remembered k t0 now (fst (adm j now s))"
proof (cases "snd (adm j now s)")
  case (Inl w)
  with assms show ?thesis by (auto simp: remembered_def refused ready_later split: option.splits)
next
  case (Inr u)
  show ?thesis
  proof (cases "j = k")
    case True
    with recorded [OF Inr] assms(4,5) show ?thesis by (auto simp: remembered_def)
  next
    case False
    with forgets [OF assms(2,3), of k now] assms(1,4) ready_later show ?thesis
      by (auto simp: remembered_def split: option.splits)
  qed
qed

lemma spaced_from:
  assumes "remembered k t0 c s" and "room K s" and "fst ` set reqs \<subseteq> K" and "sorted (c # map snd reqs)"
    and "t0 \<le> c" and "j < length reqs" and "fst (reqs ! j) = k"
    and "snd (run_all (\<lambda>r. adm (fst r) (snd r)) reqs s) ! j = Ok u"
  shows "ready (snd (reqs ! j)) t0"
  using assms
proof (induction reqs arbitrary: s c j)
  case (Cons r rs)
  obtain k1 now where r: "r = (k1, now)" by (cases r)
  let ?s = "fst (adm k1 now s)"
  show ?case
  proof (cases j)
    case 0
    with Cons.prems(7,8) r have ok: "k1 = k" "snd (adm k now s) = Ok u"
      by (simp_all add: case_prod_beta Let_def)
    show ?thesis
      using Cons.prems(1,4) due [OF ok(2)] ready_later 0 r
      by (fastforce simp: remembered_def split: option.splits)
  next
    case (Suc j')
    show ?thesis
      using Cons.IH [of now ?s j'] Cons.prems Suc r remembered_adm [OF Cons.prems(1,2), of k1 now]
        room_kept [OF Cons.prems(2), of k1 now]
      by (auto simp: case_prod_beta Let_def)
  qed
qed simp

lemma spacing:
  assumes "room K s" and "fst ` set reqs \<subseteq> K" and "sorted (map snd reqs)"
    and "i < j" and "j < length reqs" and "fst (reqs ! i) = fst (reqs ! j)"
    and "snd (run_all (\<lambda>r. adm (fst r) (snd r)) reqs s) ! i = Ok u"
    and "snd (run_all (\<lambda>r. adm (fst r) (snd r)) reqs s) ! j = Ok v"
  shows "ready (snd (reqs ! j)) (snd (reqs ! i))"
  using assms
proof (induction reqs arbitrary: s i j)
  case (Cons r rs)
  obtain k now where r: "r = (k, now)" by (cases r)
  let ?s = "fst (adm k now s)"
  obtain j' where j: "j = Suc j'" using Cons.prems(4) by (cases j) auto
  have room: "room K ?s" using Cons.prems(1,2) r room_kept by auto
  show ?case
  proof (cases i)
    case 0
    have "remembered k now now ?s"
      using recorded [of k now s u] Cons.prems(7) 0 r by (auto simp: remembered_def case_prod_beta Let_def)
    then show ?thesis
      using spaced_from [OF _ room, of k now now rs j' v] Cons.prems 0 r j
      by (auto simp: case_prod_beta Let_def)
  next
    case (Suc i')
    show ?thesis
      using Cons.IH [OF room, of i' j'] Cons.prems Suc r j
      by (auto simp: case_prod_beta Let_def)
  qed
qed simp

end

section \<open>The reload gate\<close>

definition gate_ok :: "ReloadGate \<Rightarrow> bool" where
  "gate_ok gate \<longleftrightarrow> distinct (map fst gate) \<and> length gate \<le> MAX_ENTRIES"

definition gate_room :: "string set \<Rightarrow> ReloadGate \<Rightarrow> bool" where
  "gate_room K gate \<longleftrightarrow> gate_ok gate \<and> finite K \<and> fst ` set gate \<subseteq> K \<and> card K \<le> MAX_ENTRIES"

lemma gate_ok_stale: "gate_ok gate \<Longrightarrow> gate_ok (evict_stale now m gate)"
  by (simp add: gate_ok_def evict_stale_def Let_def distinct_map_filter)
    (meson length_filter_le order_trans)

lemma gate_ok_oldest: "gate_ok gate \<Longrightarrow> gate_ok (evict_oldest grp gate)"
  by (auto simp: gate_ok_def evict_oldest_def distinct_map_filter AList.delete_eq
      intro: order_trans [OF length_filter_le])

lemma length_update_le: "length (AList.update k v xs) \<le> Suc (length xs)"
  by (induction xs) auto

lemma length_update_present: "map_of xs k \<noteq> None \<Longrightarrow> length (AList.update k v xs) = length xs"
  by (induction xs) (auto split: if_splits)

lemma arg_min_mem: "gate \<noteq> [] \<Longrightarrow> fst (arg_min_list snd gate) \<in> fst ` set gate"
  using arg_min_list_in [of gate snd] by auto

lemma evict_oldest_room:
  assumes "gate_ok gate" and "map_of (evict_oldest grp gate) grp = None"
  shows "length (evict_oldest grp gate) < MAX_ENTRIES"
proof (cases "length gate \<ge> MAX_ENTRIES \<and> map_of gate grp = None \<and> gate \<noteq> []")
  case True
  let ?k = "fst (arg_min_list snd gate)"
  have "length (AList.delete ?k gate) < length gate"
    using arg_min_mem [of gate] True by (fastforce simp: AList.delete_eq intro: length_filter_less)
  with True assms(1) show ?thesis by (simp add: evict_oldest_def gate_ok_def)
next
  case False
  then have same: "evict_oldest grp gate = gate" by (simp only: evict_oldest_def if_False)
  then show ?thesis
  proof (cases "gate = []")
    case False': False
    have "map_of gate grp = None" using assms(2) same by simp
    with False False' show ?thesis by (simp add: same)
  qed (simp add: evict_oldest_def MAX_ENTRIES_def)
qed

lemma gate_ok_admit: "gate_ok gate \<Longrightarrow> gate_ok (fst (admit grp m now gate))"
proof -
  assume ok: "gate_ok gate"
  let ?g = "evict_oldest grp (evict_stale now m gate)"
  have g: "gate_ok ?g" using ok by (simp add: gate_ok_stale gate_ok_oldest)
  have "length (AList.update grp now ?g) \<le> MAX_ENTRIES"
  proof (cases "map_of ?g grp")
    case None
    then have "length ?g < MAX_ENTRIES" using evict_oldest_room [OF gate_ok_stale [OF ok]] by blast
    then show ?thesis using length_update_le [of grp now ?g] by simp
  next
    case (Some t)
    with g show ?thesis by (simp add: length_update_present gate_ok_def)
  qed
  then have "gate_ok (AList.update grp now ?g)" using g by (simp add: gate_ok_def distinct_update)
  with ok show ?thesis by (auto simp: admit_def split: option.splits if_splits)
qed

lemma map_of_filter_val:
  "distinct (map fst xs) \<Longrightarrow>
     map_of (filter (\<lambda>(_, v). P v) xs) k =
       (case map_of xs k of None \<Rightarrow> None | Some v \<Rightarrow> if P v then Some v else None)"
  by (induction xs) (force simp: map_of_eq_None_iff split: option.split)+

lemma map_of_stale:
  assumes "distinct (map fst gate)"
  shows "map_of (evict_stale now m gate) k =
    (case map_of gate k of
       None \<Rightarrow> None
     | Some t \<Rightarrow> if 0 < saturating_mul m EVICT_STALE_MULTIPLIER \<and>
          saturating_mul m EVICT_STALE_MULTIPLIER \<le> elapsed_secs now t then None else Some t)"
  by (simp add: evict_stale_def Let_def map_of_filter_val [OF assms] not_less split: option.split)

lemma stale_is_due: "m < 2 ^ 64 \<Longrightarrow> saturating_mul m EVICT_STALE_MULTIPLIER \<le> n \<Longrightarrow> m \<le> n"
  by (auto simp: saturating_mul_def EVICT_STALE_MULTIPLIER_def split: if_splits)

text \<open>With room for every group in play the hard cap never evicts.\<close>

lemma evict_oldest_idle:
  assumes "gate_room K gate" and "grp \<in> K"
  shows "evict_oldest grp (evict_stale now m gate) = evict_stale now m gate"
proof -
  let ?g = "evict_stale now m gate"
  have ok: "gate_ok ?g" using assms(1) by (simp add: gate_room_def gate_ok_stale)
  have sub: "fst ` set ?g \<subseteq> K"
    using assms(1) by (auto simp: gate_room_def evict_stale_def Let_def)
  have "length ?g < MAX_ENTRIES" if "map_of ?g grp = None"
  proof -
    have "fst ` set ?g \<subset> K" using sub that assms(2) by (auto simp: map_of_eq_None_iff)
    then have "card (fst ` set ?g) < card K" using assms(1) by (simp add: gate_room_def psubset_card_mono)
    moreover have "card (fst ` set ?g) = length ?g"
      using ok by (metis gate_ok_def distinct_card length_map set_map)
    ultimately show ?thesis using assms(1) by (simp add: gate_room_def)
  qed
  then show ?thesis by (auto simp: evict_oldest_def)
qed

definition u64 :: "nat \<Rightarrow> nat" where "u64 m = min m (2 ^ 64 - 1)"

lemma u64_bound: "u64 m < 2 ^ 64" by (simp add: u64_def)

lemma admitted_gate:
  assumes "snd (admit grp m now gate) = Ok u" and "gate_room K gate" and "grp \<in> K" and "0 < m"
  shows "fst (admit grp m now gate) = AList.update grp now (evict_stale now m gate)"
  using assms(1,4) evict_oldest_idle [OF assms(2,3)]
  by (auto simp: admit_def split: option.splits if_splits)

lemma refused_gate: "snd (admit grp m now gate) = Err w \<Longrightarrow> fst (admit grp m now gate) = gate"
  by (auto simp: admit_def split: option.splits if_splits)

lemma stale_keys: "fst ` set (evict_stale now m gate) \<subseteq> fst ` set gate"
  by (auto simp: evict_stale_def Let_def)

lemma gate_room_admit:
  assumes "gate_room K gate" and "grp \<in> K"
  shows "gate_room K (fst (admit grp m now gate))"
proof -
  have "fst ` set (fst (admit grp m now gate)) \<subseteq> K"
  proof (cases "snd (admit grp m now gate)")
    case (Inl w)
    with assms show ?thesis by (simp add: refused_gate gate_room_def)
  next
    case (Inr u)
    show ?thesis
    proof (cases "m = 0")
      case False
      then have "fst (admit grp m now gate) = AList.update grp now (evict_stale now m gate)"
        using admitted_gate [OF Inr assms] by simp
      with stale_keys [of now m gate] assms show ?thesis by (auto simp: dom_update gate_room_def)
    qed (use assms in \<open>simp add: admit_def gate_room_def\<close>)
  qed
  with assms(1) gate_ok_admit show ?thesis by (simp add: gate_room_def)
qed

lemma admit_forgets:
  assumes "gate_room K gate" and "grp \<in> K" and "j \<noteq> grp" and "m < 2 ^ 64"
  shows "map_of (fst (admit grp m now gate)) j = map_of gate j \<or>
    map_of (fst (admit grp m now gate)) j = None \<and> (\<forall>t. map_of gate j = Some t \<longrightarrow> m \<le> elapsed_secs now t)"
proof (cases "m = 0 \<or> is_err (snd (admit grp m now gate))")
  case True
  then show ?thesis by (auto simp: admit_def is_err_def split: option.splits if_splits)
next
  case False
  then have "fst (admit grp m now gate) = AList.update grp now (evict_stale now m gate)"
    using admitted_gate [OF _ assms(1,2)] by (cases "snd (admit grp m now gate)") (auto simp: is_err_def)
  moreover have "distinct (map fst gate)" using assms(1) by (simp add: gate_room_def gate_ok_def)
  ultimately show ?thesis
    using map_of_stale [of gate now m j] stale_is_due [OF assms(4)] assms(3)
    by (cases "map_of gate j") (simp_all add: update_conv')
qed

lemma admit_recorded:
  "snd (admit grp m now gate) = Ok u \<Longrightarrow> 0 < m \<Longrightarrow> map_of (fst (admit grp m now gate)) grp = Some now"
  by (auto simp: admit_def update_conv' split: option.splits if_splits)

lemma admit_due:
  "snd (admit grp m now gate) = Ok u \<Longrightarrow> map_of gate grp = Some t \<Longrightarrow> m \<le> elapsed_secs now t"
  by (auto simp: admit_def split: option.splits if_splits)

interpretation gate: throttle "\<lambda>k now g. admit k (u64 m) now g" map_of
  "\<lambda>now t. u64 m \<le> elapsed_secs now t" gate_room for m
proof unfold_locales
  show "map_of (fst (admit k (u64 m) now s)) k = Some now \<or> (\<forall>n t. u64 m \<le> elapsed_secs n t)"
    if "snd (admit k (u64 m) now s) = Ok u" for k now s u
    using admit_recorded [OF that] by (cases "u64 m") auto
  show "u64 m \<le> elapsed_secs now' t'" if "u64 m \<le> elapsed_secs now t" "now \<le> now'" "t' \<le> t" for now t now' t'
  proof -
    have "now - t \<le> now' - t'" using that(2,3) by simp
    then have "elapsed_secs now t \<le> elapsed_secs now' t'" unfolding elapsed_secs_def by (rule div_le_mono)
    with that(1) show ?thesis by simp
  qed
qed (use admit_forgets [OF _ _ _ u64_bound] in \<open>simp_all add: refused_gate admit_due gate_room_admit\<close>)

lemma arg_min_list_hd: "list_all (\<lambda>y. f x \<le> f y) xs \<Longrightarrow> arg_min_list f (x # xs) = x"
proof (induction xs)
  case (Cons a xs)
  have "arg_min_list f (a # xs) \<in> set (a # xs)" by (rule arg_min_list_in) simp
  with Cons.prems have "f x \<le> f (arg_min_list f (a # xs))" by (auto simp: list_all_iff)
  then show ?case by (simp add: Let_def)
qed simp

lemma admit_unknown: "map_of gate g = None \<Longrightarrow> snd (admit g m now gate) = Ok ()"
  by (simp add: admit_def)

lemma admit_early:
  "map_of gate g = Some t \<Longrightarrow> elapsed_secs now t < m \<Longrightarrow> admit g m now gate = (gate, Err (m - elapsed_secs now t))"
  by (simp add: admit_def)

definition admit_all :: "nat \<Rightarrow> (string \<times> nat) list \<Rightarrow> ReloadGate \<Rightarrow> ReloadGate \<times> (nat + unit) list" where
  "admit_all m reqs gate = run_all (\<lambda>r. admit (fst r) m (snd r)) reqs gate"

lemma gate_ok_admit_all: "gate_ok gate \<Longrightarrow> gate_ok (fst (admit_all m reqs gate))"
  by (induction reqs arbitrary: gate) (simp_all add: admit_all_def case_prod_beta Let_def gate_ok_admit)

text \<open>
  C19. The reload throttle: whatever requests come, for however many groups and in whatever order,
  its map never holds more than 1024 entries. And for up to 1024 group names it keeps its
  promise: in any sequence of reload requests in time order, two admitted ones for the same group are
  at least the configured number of seconds apart.
\<close>

theorem reload_spacing:
  "length (fst (admit_all m reqs [])) \<le> MAX_ENTRIES \<and>
   (m < 2 ^ 64 \<and> sorted (map snd reqs) \<and> card (fst ` set reqs) \<le> MAX_ENTRIES \<and>
    i < j \<and> j < length reqs \<and> fst (reqs ! i) = fst (reqs ! j) \<and>
    snd (admit_all m reqs []) ! i = Ok () \<and> snd (admit_all m reqs []) ! j = Ok () \<longrightarrow>
      m \<le> elapsed_secs (snd (reqs ! j)) (snd (reqs ! i)))"
proof (intro conjI impI, goal_cases)
  case 1
  show ?case using gate_ok_admit_all [of "[]" m reqs] by (simp add: gate_ok_def)
next
  case 2
  then have u: "u64 m = m" by (simp add: u64_def)
  have room: "gate_room (fst ` set reqs) []" using 2 by (simp add: gate_room_def gate_ok_def)
  have "snd (run_all (\<lambda>r. admit (fst r) (u64 m) (snd r)) reqs []) ! i = Ok ()"
    "snd (run_all (\<lambda>r. admit (fst r) (u64 m) (snd r)) reqs []) ! j = Ok ()"
    using 2 by (simp_all add: admit_all_def u)
  from gate.spacing [OF room order_refl _ _ _ _ this] 2 show ?case by (simp add: u)
qed

theorem reload_spacing_witness:
  "snd (admit_all 5 [(''jobs'', 0), (''jobs'', 2000), (''jobs'', 5000)] []) = [Ok (), Err 3, Ok ()] \<and>
   5 \<le> elapsed_secs 5000 0"
proof -
  let ?r = "[(''jobs'', 0), (''jobs'', 2000), (''jobs'', 5000 :: nat)]"
  have e: "snd (admit_all 5 ?r []) = [Ok (), Err 3, Ok ()]"
    by (simp add: admit_all_def admit_def evict_stale_def evict_oldest_def elapsed_secs_def saturating_mul_def
        EVICT_STALE_MULTIPLIER_def MAX_ENTRIES_def)
  then show ?thesis using reload_spacing [of 5 ?r 0 2] by (simp add: MAX_ENTRIES_def)
qed

lemma evict_stale_fresh:
  assumes "\<forall>e\<in>set gate. elapsed_secs now (snd e) < m" and "m < 2 ^ 64"
  shows "evict_stale now m gate = gate"
proof -
  have "m \<le> saturating_mul m EVICT_STALE_MULTIPLIER"
    using assms(2) by (simp add: saturating_mul_def EVICT_STALE_MULTIPLIER_def)
  then show ?thesis using assms(1) by (auto simp: evict_stale_def Let_def intro!: filter_True)
qed

text \<open>
  The hard cap changes the throttle: with 1024 fresh entries a request for a new group
  evicts the oldest one, whose group is then admitted again at once, inside its interval.
\<close>

theorem evicted_group_readmitted:
  assumes "gate = (g, t) # rest" and "distinct (map fst gate)" and "length gate = MAX_ENTRIES"
    and "list_all (\<lambda>e. t \<le> snd e) rest" and "list_all (\<lambda>e. elapsed_secs now (snd e) < m) gate"
    and "map_of gate grp = None" and "0 < m" and "m < 2 ^ 64"
  shows "admit g m now gate = (gate, Err (m - elapsed_secs now t)) \<and> snd (admit grp m now gate) = Ok () \<and>
    snd (admit g m now (fst (admit grp m now gate))) = Ok ()"
proof -
  have stale: "evict_stale now m gate = gate"
    using assms(5,8) by (intro evict_stale_fresh) (simp_all add: list_all_iff)
  have "arg_min_list snd gate = (g, t)" using arg_min_list_hd [of snd "(g, t)" rest] assms(1,4) by simp
  then have evict: "evict_oldest grp gate = AList.delete g gate"
    using assms(1,3,6) by (simp add: evict_oldest_def)
  have ok: "admit grp m now gate = (AList.update grp now (AList.delete g gate), Ok ())"
    using assms(6,7) by (simp add: admit_def stale evict)
  have "map_of (AList.update grp now (AList.delete g gate)) g = None"
    using assms(1,2,6) by (auto simp: update_conv' AList.delete_conv' map_of_eq_None_iff)
  then have again: "snd (admit g m now (fst (admit grp m now gate))) = Ok ()" by (simp add: ok admit_unknown)
  have "admit g m now gate = (gate, Err (m - elapsed_secs now t))"
    using assms(1,5) by (intro admit_early) simp_all
  with again show ?thesis by (simp add: ok)
qed

theorem evicted_group_readmitted_witness:
  "let gate = map (\<lambda>i. (replicate i (CHR ''g''), 0)) [0..<1024] in
   snd (admit [] 5 1000 gate) = Err 4 \<and> snd (admit [] 5 1000 (fst (admit ''new'' 5 1000 gate))) = Ok ()"
proof -
  let ?gate = "map (\<lambda>i. (replicate i (CHR ''g''), 0 :: nat)) [0..<1024]"
  let ?rest = "map (\<lambda>i. (replicate i (CHR ''g''), 0 :: nat)) [1..<1024]"
  have 1: "?gate = ([], 0) # ?rest" by (subst upt_conv_Cons) simp_all
  have 2: "distinct (map fst ?gate)"
    by (auto simp: comp_def distinct_map inj_on_def dest: arg_cong [where f = length])
  have 3: "length ?gate = MAX_ENTRIES" by (simp add: MAX_ENTRIES_def)
  have 4: "map_of ?gate ''new'' = None" by (auto simp: map_of_eq_None_iff Cons_replicate_eq)
  have 5: "list_all (\<lambda>e. elapsed_secs 1000 (snd e) < 5) ?gate"
    by (simp add: list_all_iff elapsed_secs_def)
  show ?thesis
    using evicted_group_readmitted [OF 1 2 3 _ 5 4] by (simp only: Let_def list_all_iff) (simp add: elapsed_secs_def)
qed

section \<open>Lemmas on the gate and the routes\<close>

lemma ct_token_matches_iff [simp]: "ct_token_matches p e \<longleftrightarrow> p = e"
  by (auto simp: ct_token_matches_def)

lemma state_routes_gated:
  "r \<in> set (routes c) \<Longrightarrow> r_handler r \<in> {ExecuteJob, StopJob, ReloadJobs} \<Longrightarrow> r_gated r \<and> r_method r = ''POST''"
  by (auto simp: routes_def public_routes_def admin_routes_def jobs_routes_def running_routes_def split: if_splits)

lemma resolve_route:
  assumes "resolve lib st req = Ok (h, raw)"
  shows "\<exists>r. r \<in> set (routes (cfg st)) \<and> r_handler r = h \<and> gated lib (r_gated r) st req = Ok () \<and>
    (request_method req = r_method r \<or> request_method req = ''HEAD'' \<and> r_method r = ''GET'')"
proof -
  obtain pat r where found: "List.find (\<lambda>r. r_pattern r = pat) (routes (cfg st)) = Some r" and "r_handler r = h"
    "gated lib (r_gated r) st req = Ok ()" "request_method req = r_method r \<or> request_method req = ''HEAD'' \<and> r_method r = ''GET''"
    using assms by (auto simp: resolve_def split: option.splits sum.splits if_splits)
  moreover have "r \<in> set (routes (cfg st))" using found by (auto simp: find_Some_iff)
  ultimately show ?thesis by blast
qed

subsection \<open>Grammars\<close>

text \<open>The texts of an authorization header that carry a token, and the paths that name a group.\<close>

inductive bearer_text :: "string \<Rightarrow> string \<Rightarrow> bool" where
  "list_all blank w1 \<Longrightarrow> to_ascii_lowercase sch = ''bearer'' \<Longrightarrow> list_all blank w2 \<Longrightarrow> w2 \<noteq> [] \<Longrightarrow>
   tok \<noteq> [] \<Longrightarrow> \<not> blank (hd tok) \<Longrightarrow> \<not> blank (last tok) \<Longrightarrow> list_all blank w3 \<Longrightarrow>
   bearer_text (w1 @ sch @ w2 @ tok @ w3) tok"

inductive group_path :: "string \<Rightarrow> string \<Rightarrow> bool" where
  "verb \<in> {''execute'', ''stop'', ''reload''} \<Longrightarrow> g \<noteq> [] \<Longrightarrow> CHR ''/'' \<notin> set g \<Longrightarrow> rest = [] \<or> hd rest = CHR ''/'' \<Longrightarrow>
   group_path (''/'' @ verb @ ''/'' @ g @ rest) g"

lemma bearer_bytes_ascii:
  assumes "ascii h" and "t = trim h"
  shows "bearer_token_bytes h =
    (let rest = trim (dropWhile (\<lambda>b. \<not> blank b) t)
     in if dropWhile (\<lambda>b. \<not> blank b) t \<noteq> [] \<and> to_ascii_lowercase (takeWhile (\<lambda>b. \<not> blank b) t) = ''bearer'' \<and> rest \<noteq> []
        then Some rest else None)"
proof -
  have "ascii t" using trim_split [OF assms(1)] assms by (metis ascii_append)
  then have cs: "chars t = map (\<lambda>b. [b]) t" by (rule chars_ascii)
  have low: "eq_ignore_ascii_case s ''Bearer'' \<longleftrightarrow> to_ascii_lowercase s = ''bearer''" for s
    by (simp add: eq_ignore_ascii_case_def) code_simp
  show ?thesis
    by (simp add: bearer_token_bytes_def assms(2) [symmetric] cs drop_bytes concat_bytes low Let_def
        del: is_whitespace.simps dropWhile_eq_Nil_conv)
qed

lemma bearer_word:
  assumes "to_ascii_lowercase sch = ''bearer''"
  shows "sch \<noteq> []" "list_all (\<lambda>b. \<not> blank b) sch"
proof -
  show "sch \<noteq> []" using assms by (auto simp: to_ascii_lowercase_def)
  have "list_all (\<lambda>b. \<not> blank b) (to_ascii_lowercase sch)" unfolding assms by (simp add: blank_def)
  then show "list_all (\<lambda>b. \<not> blank b) sch"
    by (induction sch) (auto simp: to_ascii_lowercase_def blank_def ascii_down_def is_ascii_upper_def)
qed

lemma bearer_bytes_iff:
  assumes "ascii h"
  shows "bearer_token_bytes h = Some tok \<longleftrightarrow> bearer_text h tok"
proof
  let ?t = "trim h"
  let ?tail = "dropWhile (\<lambda>b. \<not> blank b) ?t" and ?sch = "takeWhile (\<lambda>b. \<not> blank b) ?t"
  assume "bearer_token_bytes h = Some tok"
  then have b: "?tail \<noteq> []" "to_ascii_lowercase ?sch = ''bearer''" "tok = trim ?tail" "tok \<noteq> []"
    by (auto simp: bearer_bytes_ascii [OF assms refl] Let_def split: if_splits)
  obtain w1 w1' where w1: "h = w1 @ ?t @ w1'" "list_all blank w1" "list_all blank w1'"
    by (rule trim_split [OF assms])
  have "ascii ?t" using assms w1(1) by (metis ascii_append)
  then have "ascii ?tail" by (metis ascii_append takeWhile_dropWhile_id)
  then obtain w2 w2' where w2: "?tail = w2 @ tok @ w2'" "list_all blank w2" "list_all blank w2'"
    "\<not> blank (hd tok) \<and> \<not> blank (last tok)"
    using trim_split [of ?tail] b(3,4) by metis
  have "w2 \<noteq> []" using hd_dropWhile [OF b(1)] w2(1,4) b(4) by (cases w2) auto
  moreover have "h = w1 @ ?sch @ w2 @ tok @ w2' @ w1'" using w1(1) w2(1) takeWhile_dropWhile_id [of _ ?t] by (metis append.assoc)
  ultimately show "bearer_text h tok"
    using bearer_text.intros [OF w1(2) b(2) w2(2), of tok "w2' @ w1'"] w1(3) w2(3,4) b(4) by simp
next
  assume "bearer_text h tok"
  then show "bearer_token_bytes h = Some tok"
  proof cases
    case (1 w1 sch w2 w3)
    note sch = bearer_word [OF 1(3)]
    have asc: "ascii w1" "ascii (sch @ w2 @ tok)" "ascii w3" "ascii (w2 @ tok)" "ascii w2" "ascii tok" using assms 1(1) by simp_all
    have "trim (w1 @ (sch @ w2 @ tok) @ w3) = sch @ w2 @ tok"
      using sch 1(2,6,8,9) asc by (intro trim_between) (auto simp: hd_append list_all_iff)
    then have t: "trim h = sch @ w2 @ tok" using 1(1) by simp
    obtain c w where w2: "w2 = c # w" "blank c" using 1(4,5) by (cases w2) auto
    have tw: "takeWhile (\<lambda>b. \<not> blank b) (sch @ w2 @ tok) = sch" "dropWhile (\<lambda>b. \<not> blank b) (sch @ w2 @ tok) = w2 @ tok"
      using sch(2) w2 by (simp_all add: list_all_iff)
    have "trim (w2 @ tok @ []) = tok" using 1(4,6,7,8) asc by (intro trim_between) (simp_all add: ascii_def)
    then show ?thesis using 1(3,5,6) unfolding bearer_bytes_ascii [OF assms t [symmetric]] tw Let_def by simp
  qed
qed

lemma group_path_iff: "extract_group_from_path p = Some g \<longleftrightarrow> group_path p g"
proof
  assume "extract_group_from_path p = Some g"
  then obtain rest where p: "p = ''/'' @ rest" and parts: "hd (split_on (CHR ''/'') rest) \<in> {''execute'', ''stop'', ''reload''}"
    "2 \<le> length (split_on (CHR ''/'') rest)" "split_on (CHR ''/'') rest ! 1 = g" "g \<noteq> []"
    by (auto simp: extract_group_from_path_def strip_prefix_str_def prefix_def Let_def split: if_splits)
  obtain v tl where sp: "split_on (CHR ''/'') rest = v # g # tl"
    using parts(2,3) by (cases "split_on (CHR ''/'') rest"; cases "tl (split_on (CHR ''/'') rest)") auto
  have "rest = str_join ''/'' (v # g # tl)" unfolding sp [symmetric] by (rule str_join_split_on [symmetric])
  then have "rest = v @ ''/'' @ g @ (if tl = [] then [] else ''/'' @ str_join ''/'' tl)" by (cases tl) simp_all
  moreover have "CHR ''/'' \<notin> set g" using split_on_no_sep [of g "CHR ''/''" rest] sp by simp
  ultimately show "group_path p g"
    using group_path.intros [of v g "if tl = [] then [] else ''/'' @ str_join ''/'' tl"] parts(1,4) sp p by (cases tl) simp_all
next
  assume "group_path p g"
  then show "extract_group_from_path p = Some g"
  proof cases
    case (1 verb rest)
    have v: "CHR ''/'' \<notin> set verb" using 1(2) by auto
    have "split_on (CHR ''/'') (g @ rest) = g # (if rest = [] then [] else split_on (CHR ''/'') (tl rest))"
      using 1(4,5) split_on_Cons [OF 1(4), of "tl rest"] by (cases rest) (simp_all add: split_on_whole)
    then have "split_on (CHR ''/'') (verb @ CHR ''/'' # g @ rest) = verb # g # (if rest = [] then [] else split_on (CHR ''/'') (tl rest))"
      by (simp only: split_on_Cons [OF v])
    with 1 show ?thesis by (auto simp: extract_group_from_path_def strip_prefix_str_def)
  qed
qed

subsection \<open>Handlers and routes\<close>

definition same_setup :: "AppState \<Rightarrow> AppState \<Rightarrow> bool" where
  "same_setup st st' \<longleftrightarrow> cfg st' = cfg st \<and> admin_token st' = admin_token st \<and> per_group_tokens st' = per_group_tokens st"

lemma same_setup_refl [simp]: "same_setup st st" by (simp add: same_setup_def)

lemma execute_job_cases:
  "\<exists>st' r. execute_job st grp job pairs = Some (st', r) \<and> same_setup st st' \<and>
    (case r of
       Err e \<Rightarrow> st' = st \<and>
         (length pairs > max_query_params (security (cfg st)) \<and>
            e = TooManyQueryParams (length pairs) (max_query_params (security (cfg st))) \<or>
          dangerous_override st pairs \<noteq> None \<and> (\<exists>m. e = Forbidden m) \<or>
          trigger_now (job_key grp job) pairs (scheduler st) = Some (Err e))
     | Ok j \<Rightarrow> length pairs \<le> max_query_params (security (cfg st)) \<and> dangerous_override st pairs = None \<and>
         trigger_now (job_key grp job) pairs (scheduler st) = Some (Ok (scheduler st')) \<and>
         st' = st\<lparr>scheduler := scheduler st'\<rparr> \<and> j = groups_json (describe_running (Some grp) (scheduler st')))"
proof -
  have "trigger_now (job_key grp job) pairs (scheduler st) \<noteq> None"
    by (simp add: trigger_now_def begin_running_def update_conv' split: option.split)
  then show ?thesis
    by (cases "trigger_now (job_key grp job) pairs (scheduler st)")
      (auto simp: execute_job_def bounded_query_def Let_def same_setup_def split: option.split sum.split)
qed

lemma stop_job_setup: "same_setup st (fst (stop_job st grp job))"
  by (simp add: stop_job_def same_setup_def split: sum.split prod.split)

lemma reload_jobs_setup: "same_setup st (fst (reload_jobs lib ev st grp))"
  by (auto simp: reload_jobs_def same_setup_def Let_def split: sum.split prod.split)

lemma run_handler_total:
  "\<exists>st' r. run_handler lib ev st h raw req = Some (st', r) \<and> same_setup st st' \<and>
     (st' = st \<or> h \<in> {ExecuteJob, StopJob, ReloadJobs})"
proof (cases h)
  case ExecuteJob
  show ?thesis
  proof (cases "decode_params lib raw")
    case (Some ps)
    obtain st' r where "execute_job st (param 0 ps) (param 1 ps) (parse_query lib (uri_query req)) = Some (st', r)"
      "same_setup st st'" using execute_job_cases by blast
    with ExecuteJob Some show ?thesis by (simp add: run_handler_def with_path_def)
  qed (simp add: ExecuteJob run_handler_def with_path_def)
next
  case StopJob
  then show ?thesis using stop_job_setup [of st]
    by (auto simp: run_handler_def with_path_def case_prod_beta split: option.split)
next
  case ReloadJobs
  then show ?thesis using reload_jobs_setup [of st "w_dsl lib" ev]
    by (auto simp: run_handler_def with_path_def case_prod_beta split: option.split)
qed (simp_all add: run_handler_def with_path_def view_def split: option.split)

lemma route_request_total:
  "\<exists>st' r. route_request lib ev st req = Some (st', r) \<and> same_setup st st' \<and>
     (st' = st \<or> admin_gate (w_headers lib) st req = Ok () \<and> request_method req = ''POST'')"
proof (cases "body_limit_layer lib (max_request_bytes (limits (cfg st))) req")
  case None
  show ?thesis
  proof (cases "resolve lib st req")
    case (Inr hr)
    obtain h raw where hr: "hr = (h, raw)" by (cases hr)
    obtain st' r where run: "run_handler lib ev st h raw req = Some (st', r)" "same_setup st st'"
      "st' = st \<or> h \<in> {ExecuteJob, StopJob, ReloadJobs}" using run_handler_total by blast
    obtain rt where "rt \<in> set (routes (cfg st))" "r_handler rt = h" "gated lib (r_gated rt) st req = Ok ()"
      "request_method req = r_method rt \<or> request_method req = ''HEAD'' \<and> r_method rt = ''GET''"
      using resolve_route Inr hr by blast
    then have "st' = st \<or> admin_gate (w_headers lib) st req = Ok () \<and> request_method req = ''POST''"
      using run(3) state_routes_gated [of rt "cfg st"] by (auto simp: gated_def)
    with run None Inr hr show ?thesis by (simp add: route_request_def)
  qed (use None in \<open>simp add: route_request_def\<close>)
qed (simp add: route_request_def)

lemma awaiting_authorised:
  assumes "awaiting lib ev st req = Some st'"
  shows "same_setup st st' \<and> admin_gate (w_headers lib) st req = Ok () \<and> request_method req = ''POST''"
proof -
  obtain raw where r: "resolve lib st req = Ok (ReloadJobs, raw)" and s: "same_setup st st'"
    using assms
    by (auto simp: awaiting_def same_setup_def split: option.splits sum.splits prod.splits handler.splits)
  from resolve_route [OF r] state_routes_gated [of _ "cfg st"] s show ?thesis
    by (fastforce simp: gated_def)
qed

definition plain_responses :: "web_lib \<Rightarrow> bool" where
  "plain_responses lib \<longleftrightarrow> (\<forall>n\<in>set (map fst security_header_values).
     get_header n (resp_headers (path_rejection lib)) = None \<and>
     get_header n (resp_headers (not_found_response lib)) = None \<and>
     (\<forall>m. get_header n (resp_headers (method_not_allowed_response lib m)) = None) \<and>
     (\<forall>k req r. body_limit_layer lib k req = Some r \<longrightarrow> get_header n (resp_headers r) = None))"

lemma json_response_bare: "n \<in> set (map fst security_header_values) \<Longrightarrow> get_header n (resp_headers (json_response st j)) = None"
  by (auto simp: json_response_def get_header_def security_header_values_def)

lemma result_response_bare: "n \<in> set (map fst security_header_values) \<Longrightarrow> get_header n (resp_headers (result_response r)) = None"
  using json_response_bare by (cases r) (simp_all add: result_response_def)

lemma route_request_bare:
  assumes "plain_responses lib" and "route_request lib ev st req = Some (st', r)" and "n \<in> set (map fst security_header_values)"
  shows "get_header n (resp_headers r) = None"
proof -
  note bare = assms(1) [unfolded plain_responses_def, rule_format, OF assms(3)]
  have run: "get_header n (resp_headers r) = None" if "run_handler lib ev st h raw req = Some (st', r)" for h raw
    using that bare result_response_bare [OF assms(3)] assms(3)
    by (cases h) (auto simp: run_handler_def view_def with_path_def get_header_def security_header_values_def
        split: option.splits prod.splits)
  show ?thesis
    using assms(2) bare run result_response_bare [OF assms(3)]
    by (auto simp: route_request_def resolve_def split: option.splits sum.splits prod.splits if_splits)
qed

lemma inner_layers_values:
  assumes "get_header n (resp_headers r) = None" and "map_of security_header_values n = Some v"
  shows "get_header n (resp_headers (inner_layers lib ev st req r)) = Some v"
proof -
  let ?r = "structured_error_body_middleware (w_headers lib) (max_request_bytes (limits (cfg st))) r"
  have "n \<noteq> ''content-type''" using assms(2) by (auto simp: security_header_values_def split: if_splits)
  then have "get_header n (resp_headers ?r) = None"
    using assms(1) by (simp add: structured_error_body_middleware_def get_remove get_insert)
  then have "get_header n (resp_headers (security_headers_middleware ?r)) = Some v"
    using assms(2) by (simp add: security_headers_lookup)
  then show ?thesis by (simp add: inner_layers_def access_log_middleware_def tp.layer_keeps)
qed

definition hardened :: "Response \<Rightarrow> bool" where
  "hardened r \<longleftrightarrow>
     get_header ''content-security-policy'' (resp_headers r) = Some (''default-src '' @ [CHR 0x27] @ ''none'' @ [CHR 0x27]
       @ ''; frame-ancestors '' @ [CHR 0x27] @ ''none'' @ [CHR 0x27]) \<and>
     get_header ''strict-transport-security'' (resp_headers r) = Some ''max-age=63072000; includeSubDomains; preload'' \<and>
     get_header ''x-frame-options'' (resp_headers r) = Some ''DENY'' \<and>
     get_header ''x-content-type-options'' (resp_headers r) = Some ''nosniff'' \<and>
     get_header ''referrer-policy'' (resp_headers r) = Some ''no-referrer''"

lemma hardened_values:
  "hardened r \<longleftrightarrow> list_all (\<lambda>(n, v). get_header n (resp_headers r) = Some v) security_header_values"
  by (simp add: hardened_def security_header_values_def)

lemma deadline_layer_total:
  "\<exists>st' r. deadline_layer lib ev st req = Some (st', r) \<and> same_setup st st' \<and>
     (st' = st \<or> admin_gate (w_headers lib) st req = Ok () \<and> request_method req = ''POST'')"
proof (cases "if 0 < request_timeout_secs (limits (cfg st)) \<and> ev_deadline ev then awaiting lib ev st req else None")
  case None
  obtain st' r where "route_request lib ev st req = Some (st', r)" "same_setup st st'"
    "st' = st \<or> admin_gate (w_headers lib) st req = Ok () \<and> request_method req = ''POST''"
    using route_request_total by blast
  then show ?thesis unfolding deadline_layer_def None by simp
next
  case (Some st')
  then have "awaiting lib ev st req = Some st'" by (simp split: if_splits)
  from awaiting_authorised [OF this] show ?thesis unfolding deadline_layer_def Some by simp
qed

text \<open>The load a reload makes.\<close>

definition loads :: "web_lib \<Rightarrow> web_events \<Rightarrow> AppConfig \<Rightarrow> CronManagerError + LoadedJob list" where
  "loads lib ev c =
     (let sec = security c
      in load_all_bounded (w_dsl lib) (ev_env ev) (dsl_path c) (ev_tree ev) (max_dsl_file_bytes sec)
           (dsl_load_timeout_secs sec) (max_retry_count sec) (min_cron_interval_secs sec) (block_private_networks sec)
           (action_from_env (environment_from_env (ev_env ev)) (allow_dev_fixture_dsls sec)) (ev_load_end ev))"

section \<open>Concrete requests\<close>

definition ex_web_lib :: "string \<Rightarrow> web_lib" where
  "ex_web_lib pat =
     \<lparr>w_dsl = ex_lib, w_headers = \<lparr>value_from_str = (\<lambda>_. True), value_to_str = Some\<rparr>,
      match_path = (\<lambda>_ _. Some (pat, [''jobs'', ''ping''])), decode_params = Some, parse_query = (\<lambda>_. []),
      fallback_gated = True, body_limit_layer = (\<lambda>_ _. None), cors_preflight = (\<lambda>_ _. None),
      cors_layer = (\<lambda>_ _ r. r),
      path_rejection = \<lparr>resp_status = 400, resp_headers = [], resp_body = Text []\<rparr>,
      not_found_response = \<lparr>resp_status = 404, resp_headers = [], resp_body = Text []\<rparr>,
      method_not_allowed_response = (\<lambda>allowed. \<lparr>resp_status = 405, resp_headers = [(''allow'', allowed)], resp_body = Text []\<rparr>),
      timeout_response = \<lparr>resp_status = 408, resp_headers = [], resp_body = Text []\<rparr>,
      origin_header_ok = (\<lambda>_. True)\<rparr>"

definition ex_request :: "string \<Rightarrow> Request" where
  "ex_request p =
     \<lparr>request_method = ''POST'', uri_path = p, uri_query = [],
      headers = [(''authorization'', ''Bearer s3cret'')], matched_path = None\<rparr>"

definition ex_app :: AppState where
  "ex_app = with_per_group_tokens [(''jobs'', ''s3cret'')]
     (with_admin_token ''master'' (app_state_new default_config ex_running))"

definition ex_web_events :: web_events where
  "ex_web_events =
     \<lparr>ev_now = 0, ev_env = (\<lambda>_. None), ev_tree = None, ev_load_end = Joined, ev_uuid1 = [], ev_uuid2 = [],
      ev_uuid3 = [], ev_deadline = False\<rparr>"

lemma ex_match:
  "match_path (ex_web_lib pat) ps q = Some (pat, [''jobs'', ''ping''])" "request_method (ex_request q) = ''POST''"
  "body_limit_layer (ex_web_lib pat) n r = None" "decode_params (ex_web_lib pat) raw = Some raw"
  by (simp_all add: ex_web_lib_def ex_request_def)

lemma ex_presented:
  "presented_token \<lparr>value_from_str = (\<lambda>_. True), value_to_str = Some\<rparr> (ex_request p) = Some ''s3cret''"
  by (simp add: presented_token_def ex_request_def get_header_def) code_simp

lemma ex_app_fields:
  "admin_token ex_app = Some ''master''" "map_of (per_group_tokens ex_app) ''jobs'' = Some ''s3cret''"
  "scheduler ex_app = ex_running" "cfg ex_app = default_config" "reload_gate ex_app = []"
  by (simp_all add: ex_app_def with_per_group_tokens_def with_admin_token_def app_state_new_def btree_of_def)

lemma ex_paths:
  "extract_group_from_path ''/stop/jobs/ping'' = Some ''jobs''" "extract_group_from_path ''/reload/jobs'' = Some ''jobs''"
  by code_simp+

lemma ex_config_fields:
  "allowed_origins default_config = []" "expose_jobs_publicly (security default_config)"
  "expose_running_publicly (security default_config)"
  by (simp_all add: default_config_def default_security_def)

lemma ex_plain: "plain_responses (ex_web_lib pat)"
  by (auto simp: plain_responses_def ex_web_lib_def get_header_def security_header_values_def)

lemma ex_reload_loads: "loads (ex_web_lib pat) ex_web_events (cfg ex_app) = Ok []"
  by (simp add: loads_def ex_web_events_def load_all_bounded_def load_all_with_policy_def Let_def)

section \<open>Properties\<close>

text \<open>
  C13. What the admin gate accepts, down to the bytes of the request. It lets a request through
  exactly if no admin token is configured, or its \<open>authorization\<close> header has the text
  blanks, the word \<open>bearer\<close> in any case, at least one blank, a token that neither begins nor ends with
  a blank, blanks, and that token is the master token or the token of the group the path
  names; a path names the group \<open>g\<close> exactly if it is \<open>/execute/g\<close>, \<open>/stop/g\<close> or \<open>/reload/g\<close>, then
  nothing or a slash and anything. Every other request is answered 401. In particular group tokens
  without a master token protect nothing. The hypothesis is what \<open>HeaderValue::to_str\<close> documents:
  the text it yields is ASCII.
\<close>

theorem admin_gate_grammar:
  assumes "\<And>v s. value_to_str hl v = Some s \<Longrightarrow> ascii s"
  shows "admin_gate hl st req =
     (if admin_token st = None \<or>
         (\<exists>v h tok. get_header ''authorization'' (headers req) = Some v \<and> value_to_str hl v = Some h \<and> bearer_text h tok \<and>
           (admin_token st = Some tok \<or> (\<exists>g. group_path (uri_path req) g \<and> map_of (per_group_tokens st) g = Some tok)))
      then Ok () else Err Unauthorized)"
proof -
  have p: "presented_token hl req = Some tok \<longleftrightarrow>
      (\<exists>v h. get_header ''authorization'' (headers req) = Some v \<and> value_to_str hl v = Some h \<and> bearer_text h tok)" for tok
    using assms bearer_bytes_iff by (auto simp: presented_token_def split: option.splits)
  have "admin_gate hl st req = (if admin_token st = None \<or> (\<exists>tok. presented_token hl req = Some tok \<and>
       (admin_token st = Some tok \<or> (\<exists>g. extract_group_from_path (uri_path req) = Some g \<and> map_of (per_group_tokens st) g = Some tok)))
      then Ok () else Err Unauthorized)"
    by (auto simp: admin_gate_def Let_def split: option.splits)
  moreover have "(\<exists>tok. presented_token hl req = Some tok \<and> P tok) \<longleftrightarrow>
      (\<exists>v h tok. get_header ''authorization'' (headers req) = Some v \<and> value_to_str hl v = Some h \<and> bearer_text h tok \<and> P tok)" for P
    unfolding p by blast
  ultimately show ?thesis unfolding group_path_iff by simp
qed

theorem admin_gate_grammar_witness:
  "let hl = \<lparr>value_from_str = (\<lambda>_. True), value_to_str = (\<lambda>v. if ascii v then Some v else None)\<rparr> in
   admin_gate hl ex_app ((ex_request ''/stop/jobs/ping'')\<lparr>headers := [(''authorization'', ''  BEARER   s3cret '')]\<rparr>) = Ok ()"
proof -
  let ?hl = "\<lparr>value_from_str = (\<lambda>_. True), value_to_str = (\<lambda>v. if ascii v then Some v else None)\<rparr>"
  let ?h = "''  BEARER   s3cret ''"
  let ?req = "(ex_request ''/stop/jobs/ping'')\<lparr>headers := [(''authorization'', ?h)]\<rparr>"
  have "bearer_text (''  '' @ ''BEARER'' @ ''   '' @ ''s3cret'' @ '' '') ''s3cret''"
    by (rule bearer_text.intros) code_simp+
  then have bearer: "bearer_text ?h ''s3cret''" by simp
  have "group_path (''/'' @ ''stop'' @ ''/'' @ ''jobs'' @ ''/ping'') ''jobs''" by (rule group_path.intros) simp_all
  then have path: "group_path (uri_path ?req) ''jobs''" by (simp add: ex_request_def)
  have "ascii ?h" by code_simp
  then have hdr: "get_header ''authorization'' (headers ?req) = Some ?h" "value_to_str ?hl ?h = Some ?h"
    by (simp_all add: get_header_def)
  have hl: "ascii s" if "value_to_str ?hl v = Some s" for v s using that by (simp split: if_splits)
  have "\<exists>v h tok. get_header ''authorization'' (headers ?req) = Some v \<and> value_to_str ?hl v = Some h \<and> bearer_text h tok \<and>
      (admin_token ex_app = Some tok \<or> (\<exists>g. group_path (uri_path ?req) g \<and> map_of (per_group_tokens ex_app) g = Some tok))"
    using path by (intro exI [of _ ?h] exI [of _ "''s3cret''"] conjI hdr bearer disjI2 exI [of _ "''jobs''"] ex_app_fields(2))
  then have "admin_gate ?hl ex_app ?req = Ok ()"
    by (intro trans [OF admin_gate_grammar if_P]) (rule hl, assumption, rule disjI2)
  then show ?thesis unfolding Let_def .
qed

text \<open>
  C4. Nothing changes without authority: whatever the framework routes, a request after
  which the application state differs was a POST that passed the admin gate, and even then
  the configuration and the tokens are as before. Serving never panics.
\<close>

theorem state_change_authorised:
  "\<exists>st' r. serve lib ev st req = Some (st', r) \<and> same_setup st st' \<and>
     (st' \<noteq> st \<longrightarrow> admin_gate (w_headers lib) st req = Ok () \<and> request_method req = ''POST'')"
proof -
  obtain st'' r' where "deadline_layer lib ev st req = Some (st'', r')" "same_setup st st''"
    "st'' = st \<or> admin_gate (w_headers lib) st req = Ok () \<and> request_method req = ''POST''"
    using deadline_layer_total by blast
  then show ?thesis by (auto simp: serve_def same_setup_refl split: option.split)
qed

lemma ex_stop_served:
  "\<exists>r. serve (ex_web_lib ''/stop/:group/:job'') ex_web_events ex_app (ex_request ''/stop/jobs/ping'') =
     Some (ex_app\<lparr>scheduler := ex_running\<lparr>notified := [1]\<rparr>\<rparr>, r)"
proof -
  let ?lib = "ex_web_lib ''/stop/:group/:job''" and ?req = "ex_request ''/stop/jobs/ping''"
  have stop: "stop (job_key ''jobs'' ''ping'') ex_running = Ok (True, ex_running\<lparr>notified := [1]\<rparr>)"
    by (simp add: stop_def ex_running_def ex_sched_eval ex_spec_def job_key_def)
  have gate: "admin_gate (w_headers ?lib) ex_app ?req = Ok ()"
    using ex_presented ex_app_fields ex_paths by (simp add: admin_gate_def Let_def ex_web_lib_def ex_request_def)
  have "resolve ?lib ex_app ?req = Ok (StopJob, [''jobs'', ''ping''])"
    using gate
    by (simp add: resolve_def ex_match routes_def public_routes_def admin_routes_def jobs_routes_def
        running_routes_def ex_app_fields ex_config_fields gated_def)
  then have "route_request ?lib ex_web_events ex_app ?req =
      Some (ex_app\<lparr>scheduler := ex_running\<lparr>notified := [1]\<rparr>\<rparr>,
        result_response (snd (stop_job ex_app ''jobs'' ''ping'')))"
    by (simp add: route_request_def run_handler_def with_path_def stop_job_def ex_app_fields stop param_def
        ex_match)
  then show ?thesis
    by (simp add: serve_def deadline_layer_def build_cors_def ex_app_fields ex_config_fields ex_web_events_def)
qed

lemma ex_app_changed: "ex_app\<lparr>scheduler := ex_running\<lparr>notified := [1]\<rparr>\<rparr> \<noteq> ex_app"
proof
  assume "ex_app\<lparr>scheduler := ex_running\<lparr>notified := [1]\<rparr>\<rparr> = ex_app"
  then have "notified (scheduler (ex_app\<lparr>scheduler := ex_running\<lparr>notified := [1]\<rparr>\<rparr>)) = notified (scheduler ex_app)"
    by simp
  then show False by (simp add: ex_app_fields ex_running_eval)
qed

theorem state_change_authorised_witness:
  "admin_gate (w_headers (ex_web_lib ''/stop/:group/:job'')) ex_app (ex_request ''/stop/jobs/ping'') = Ok () \<and>
   request_method (ex_request ''/stop/jobs/ping'') = ''POST''"
proof -
  obtain r where "serve (ex_web_lib ''/stop/:group/:job'') ex_web_events ex_app (ex_request ''/stop/jobs/ping'') =
     Some (ex_app\<lparr>scheduler := ex_running\<lparr>notified := [1]\<rparr>\<rparr>, r)" using ex_stop_served by blast
  then show ?thesis
    using state_change_authorised [of "ex_web_lib ''/stop/:group/:job''" ex_web_events ex_app "ex_request ''/stop/jobs/ping''"]
      ex_app_changed by auto
qed

text \<open>
  C14. \<open>POST /execute\<close> never panics. On any error the state is untouched, and the error is that
  of the violated condition: too many parameters, a dangerous override the operator has not
  allowed, an unknown job or one already running. On success the query
  was within its limit, no override named a dangerous variable (unless the operator allows
  that), the job was registered and idle, and exactly one task was started, for that job's
  specification and with exactly the overrides of the query; the job is then running.
\<close>

theorem execute_job_outcome:
  "\<exists>st' r. execute_job st grp job pairs = Some (st', r) \<and>
    (case r of
       Err e \<Rightarrow> st' = st \<and>
         (length pairs > max_query_params (security (cfg st)) \<and>
            e = TooManyQueryParams (length pairs) (max_query_params (security (cfg st))) \<or>
          \<not> allow_dangerous_env_overrides (security (cfg st)) \<and> list_ex (\<lambda>(n, v). is_dangerous_env n) pairs \<and>
            (\<exists>m. e = Forbidden m) \<or>
          map_of (jobs (scheduler st)) (job_key grp job) = None \<and> e = JobNotFound grp job \<or>
          map_of (running (scheduler st)) (job_key grp job) \<noteq> None \<and> e = JobAlreadyRunning grp job)
     | Ok j \<Rightarrow> length pairs \<le> max_query_params (security (cfg st)) \<and>
         (allow_dangerous_env_overrides (security (cfg st)) \<or> list_all (\<lambda>(n, v). \<not> is_dangerous_env n) pairs) \<and>
         (\<exists>entry c. map_of (jobs (scheduler st)) (job_key grp job) = Some entry \<and>
            map_of (running (scheduler st)) (job_key grp job) = None \<and>
            map_of (running (scheduler st')) (job_key grp job) \<noteq> None \<and>
            tasks (scheduler st') = tasks (scheduler st) @
              [\<lparr>t_spec = reg_spec entry, t_state = reg_state entry, t_loop = False, t_extras = pairs,
                t_phase = Dispatching c\<rparr>]))"
proof -
  let ?k = "job_key grp job" and ?s = "scheduler st"
  have safe: "allow_dangerous_env_overrides (security (cfg st)) \<or> list_all (\<lambda>(n, v). \<not> is_dangerous_env n) pairs"
    if "dangerous_override st pairs = None"
    using that by (auto simp: dangerous_override_def find_None_iff list_all_iff split: if_splits)
  have unsafe: "\<not> allow_dangerous_env_overrides (security (cfg st)) \<and> list_ex (\<lambda>(n, v). is_dangerous_env n) pairs"
    if "dangerous_override st pairs \<noteq> None"
    using that by (auto simp: dangerous_override_def find_None_iff list_ex_iff split: if_splits dest!: find_Some_set)
  have fired: "\<exists>entry c. map_of (jobs ?s) ?k = Some entry \<and> map_of (running ?s) ?k = None \<and>
      map_of (running s') ?k \<noteq> None \<and> tasks s' = tasks ?s @
        [\<lparr>t_spec = reg_spec entry, t_state = reg_state entry, t_loop = False, t_extras = pairs, t_phase = Dispatching c\<rparr>]"
    if "trigger_now ?k pairs ?s = Some (Ok s')" for s'
    using that
    by (auto simp: trigger_now_def begin_running_def update_conv' simp del: map_of_eq_None_iff split: option.splits if_splits)
  have failed: "map_of (jobs ?s) ?k = None \<and> e = JobNotFound grp job \<or>
      map_of (running ?s) ?k \<noteq> None \<and> e = JobAlreadyRunning grp job"
    if "trigger_now ?k pairs ?s = Some (Err e)" for e
    using that
    by (auto simp: trigger_now_def begin_running_def job_key_def simp del: map_of_eq_None_iff split: option.splits if_splits)
  obtain st' r where "execute_job st grp job pairs = Some (st', r)"
    "case r of
       Err e \<Rightarrow> st' = st \<and>
         (length pairs > max_query_params (security (cfg st)) \<and>
            e = TooManyQueryParams (length pairs) (max_query_params (security (cfg st))) \<or>
          dangerous_override st pairs \<noteq> None \<and> (\<exists>m. e = Forbidden m) \<or>
          trigger_now ?k pairs ?s = Some (Err e))
     | Ok j \<Rightarrow> length pairs \<le> max_query_params (security (cfg st)) \<and> dangerous_override st pairs = None \<and>
         trigger_now ?k pairs ?s = Some (Ok (scheduler st')) \<and>
         st' = st\<lparr>scheduler := scheduler st'\<rparr> \<and> j = groups_json (describe_running (Some grp) (scheduler st'))"
    using execute_job_cases by blast
  then show ?thesis using safe unsafe fired failed by (auto split: sum.split)
qed



text \<open>
  C36. A group token is not confined to its group on \<open>/reload\<close>. A served POST to the reload path of
  the token's own group, admitted by the throttle and with the job files loading, is answered 200;
  afterwards the registry, over the keys of every group, is exactly what was loaded, so the jobs
  of every other group are replaced or removed too, and every run in progress, of whatever group, has
  been told to stop.
\<close>

theorem group_token_reloads_all:
  assumes "presented_token (w_headers lib) req = Some tok" and "extract_group_from_path (uri_path req) = Some g"
    and "map_of (per_group_tokens st) g = Some tok" and "request_method req = ''POST''"
    and "match_path lib (map r_pattern (routes (cfg st))) (uri_path req) = Some (''/reload/:group'', raw)"
    and "decode_params lib raw = Some [grp]" and "\<And>n. body_limit_layer lib n req = None"
    and "allowed_origins (cfg st) = []" and "\<not> ev_deadline ev"
    and "snd (admit grp (reload_min_interval_secs (security (cfg st))) (ev_now ev) (reload_gate st)) = Ok ()"
    and "loads lib ev (cfg st) = Ok loaded"
  shows "\<exists>st' r. serve lib ev st req = Some (st', r) \<and> resp_status r = 200 \<and>
    (\<forall>k. map_option reg_spec (map_of (jobs (scheduler st')) k) = map_of (rev (map (\<lambda>j. (key (spec j), spec j)) loaded)) k) \<and>
    notified (scheduler st') = notified (scheduler st) @ map (inst_cancel \<circ> snd) (running (scheduler st))"
proof -
  have gate: "admin_gate (w_headers lib) st req = Ok ()"
    using assms(1-3) by (simp add: admin_gate_def Let_def split: option.split)
  have route: "List.find (\<lambda>r. r_pattern r = ''/reload/:group'') (routes (cfg st)) =
      Some \<lparr>r_pattern = ''/reload/:group'', r_method = ''POST'', r_handler = ReloadJobs, r_gated = True\<rparr>"
    by (simp add: routes_def public_routes_def admin_routes_def jobs_routes_def running_routes_def)
  obtain gate' where adm: "admit grp (reload_min_interval_secs (security (cfg st))) (ev_now ev) (reload_gate st) = (gate', Ok ())"
    using assms(10) by (metis prod.collapse)
  let ?s = "snd (reload_from loaded (scheduler st))"
  have reload: "reload_jobs (w_dsl lib) ev st grp =
      (st\<lparr>reload_gate := gate', scheduler := ?s\<rparr>, Ok (JObj [(''reloaded'', JNum (int (fst (reload_from loaded (scheduler st)))))]))"
    using assms(11) adm by (simp add: reload_jobs_def loads_def Let_def case_prod_beta)
  have "resolve lib st req = Ok (ReloadJobs, raw)"
    using assms(4,5) gate by (simp add: resolve_def route gated_def)
  then have "route_request lib ev st req =
      Some (st\<lparr>reload_gate := gate', scheduler := ?s\<rparr>, result_response (snd (reload_jobs (w_dsl lib) ev st grp)))"
    using assms(6,7) by (simp add: route_request_def run_handler_def with_path_def param_def reload)
  then have served: "serve lib ev st req = Some (st\<lparr>reload_gate := gate', scheduler := ?s\<rparr>,
      inner_layers lib ev st req (result_response (snd (reload_jobs (w_dsl lib) ev st grp))))"
    using assms(8,9) by (simp add: serve_def build_cors_def deadline_layer_def)
  have "resp_status (inner_layers lib ev st req r) = resp_status r" for r
    by (simp add: inner_layers_def access_log_middleware_def tp.layer_status sec.layer_status structured_error_body_middleware_def)
  then show ?thesis
    using reload_registry [of loaded "scheduler st"]
    by (simp add: served reload result_response_def json_response_def reload_from_def notify_all_def)
qed

theorem group_token_reloads_all_witness:
  "let lib = (ex_web_lib ''/reload/:group'')\<lparr>decode_params := (\<lambda>_. Some [''jobs''])\<rparr> in
   \<exists>st' r. serve lib ex_web_events ex_app (ex_request ''/reload/jobs'') = Some (st', r) \<and> resp_status r = 200 \<and>
     map_of (jobs (scheduler st')) (key ex_spec) = None \<and> notified (scheduler st') = [1]"
proof -
  let ?lib = "(ex_web_lib ''/reload/:group'')\<lparr>decode_params := (\<lambda>_. Some [''jobs''])\<rparr>"
  have tok: "presented_token (w_headers ?lib) (ex_request ''/reload/jobs'') = Some ''s3cret''"
    using ex_presented by (simp add: ex_web_lib_def)
  have "loads ?lib ex_web_events (cfg ex_app) = Ok []" using ex_reload_loads by (simp add: loads_def)
  moreover have "map (inst_cancel \<circ> snd) (running ex_running) = [1]"
    by (simp add: ex_running_def ex_sched_eval ex_spec_def job_key_def)
  ultimately show ?thesis
    using group_token_reloads_all [OF tok, of "''jobs''" ex_app "[''jobs'', ''ping'']" "''jobs''" ex_web_events "[]"] ex_paths ex_app_fields ex_config_fields
    by (simp add: admit_unknown ex_match)
      (auto simp: ex_web_events_def ex_request_def ex_web_lib_def ex_running_eval)
qed

end
