(* ===== verification/Doctor.thy ===== *)
theory Doctor
  imports Router
begin

text \<open>
  \<open>src/doctor.rs\<close>: the offline audit. Its checks replay those of the boot; a replayed
  credential gate that panics makes the whole audit panic, which is the value \<open>None\<close>. The
  environment, what stands at the DSL path and the \<open>Debug\<close> rendering of a string are
  parameters.
\<close>

section \<open>Severities\<close>

datatype Severity = SevInfo | SevWeak | SevBreak | SevFatal

fun sev_rank :: "Severity \<Rightarrow> nat" where
  "sev_rank SevInfo = 0"
| "sev_rank SevWeak = 1"
| "sev_rank SevBreak = 2"
| "sev_rank SevFatal = 3"

instantiation Severity :: linorder
begin

definition less_eq_Severity :: "Severity \<Rightarrow> Severity \<Rightarrow> bool" where
  "less_eq_Severity a b \<longleftrightarrow> sev_rank a \<le> sev_rank b"

definition less_Severity :: "Severity \<Rightarrow> Severity \<Rightarrow> bool" where
  "less_Severity a b \<longleftrightarrow> sev_rank a < sev_rank b"

instance
proof
  fix a b :: Severity
  show "a \<le> b \<Longrightarrow> b \<le> a \<Longrightarrow> a = b" by (cases a; cases b) (simp_all add: less_eq_Severity_def)
qed (auto simp: less_eq_Severity_def less_Severity_def)

end

fun label :: "Severity \<Rightarrow> string" where
  "label SevFatal = ''FATAL''"
| "label SevBreak = ''BREAK''"
| "label SevWeak = ''WEAK ''"
| "label SevInfo = ''INFO ''"

record Finding =
  severity :: Severity
  finding_name :: string
  message :: string

definition finding_info :: "string \<Rightarrow> string \<Rightarrow> Finding" where
  "finding_info n m = \<lparr>severity = SevInfo, finding_name = n, message = m\<rparr>"

definition finding_weak :: "string \<Rightarrow> string \<Rightarrow> Finding" where
  "finding_weak n m = \<lparr>severity = SevWeak, finding_name = n, message = m\<rparr>"

definition finding_brk :: "string \<Rightarrow> string \<Rightarrow> Finding" where
  "finding_brk n m = \<lparr>severity = SevBreak, finding_name = n, message = m\<rparr>"

definition finding_fatal :: "string \<Rightarrow> string \<Rightarrow> Finding" where
  "finding_fatal n m = \<lparr>severity = SevFatal, finding_name = n, message = m\<rparr>"

record DoctorReport =
  report_env :: Environment
  findings :: "Finding list"

definition severity_count :: "Severity \<Rightarrow> DoctorReport \<Rightarrow> nat" where
  "severity_count sev rep = length (filter (\<lambda>f. severity f = sev) (findings rep))"

definition fatal_count :: "DoctorReport \<Rightarrow> nat" where
  "fatal_count rep = severity_count SevFatal rep"

definition exit_code :: "DoctorReport \<Rightarrow> int" where
  "exit_code rep = (if fatal_count rep > 0 then 1 else 0)"

definition finding_line :: "Finding \<Rightarrow> string" where
  "finding_line f = ''['' @ label (severity f) @ ''] '' @ finding_name f @ '': '' @ message f @ newline"

definition render :: "DoctorReport \<Rightarrow> string" where
  "render rep =
     ''cronmanager doctor '' @ em_dash @ '' '' @ to_ascii_lowercase (show_environment (report_env rep))
       @ '' environment'' @ newline
     @ concat (map finding_line (findings rep))
     @ ''summary: '' @ show_nat (fatal_count rep) @ '' fatal, '' @ show_nat (severity_count SevBreak rep)
       @ '' break, '' @ show_nat (severity_count SevWeak rep) @ '' weak, ''
       @ show_nat (severity_count SevInfo rep) @ '' info'' @ newline"

section \<open>Checks\<close>

definition wildcard_bind :: "AppConfig \<Rightarrow> string" where
  "wildcard_bind c = ''0.0.0.0:'' @ show_nat (port c)"

definition info_block :: "AppConfig \<Rightarrow> env \<Rightarrow> Finding list" where
  "info_block c env =
     [finding_info ''port'' (''bind port '' @ show_nat (port c))] @
     emit_if (offline_from_env env)
       [finding_info ''offline_mode'' (''CRONMANAGER_OFFLINE=true '' @ em_dash
          @ '' every dispatch will be stubbed to status=OFFLINE'')] @
     [finding_info ''dsl_path'' (''DSL directory: '' @ path_display (dsl_path c)),
      finding_info ''history'' (if database c \<noteq> None then ''database persistence configured''
        else ''history persistence disabled (NoopRecorder)''),
      finding_info ''admin.token'' (''admin bearer token ''
        @ (if resolve_admin_token c env \<noteq> None then ''resolved from env'' else ''NOT set''))]"

definition break_block :: "AppConfig \<Rightarrow> env \<Rightarrow> fs_node option \<Rightarrow> Finding list" where
  "break_block c env tree =
     (case tree of
        None \<Rightarrow> [finding_brk ''dsl_path'' (''DSL directory does not exist: '' @ path_display (dsl_path c)
          @ '' '' @ em_dash @ '' scheduler will boot with 0 jobs'')]
      | Some node \<Rightarrow> emit_if (\<not> is_dir node)
          [finding_brk ''dsl_path'' (''DSL path is not a directory: '' @ path_display (dsl_path c))]) @
     (case database c of
        None \<Rightarrow> []
      | Some db \<Rightarrow>
          (case env (password_env db) of
             None \<Rightarrow> [finding_brk ''database.password_env'' (''env var `'' @ password_env db
               @ ''` is not set; database.url is configured'')]
           | Some v \<Rightarrow> emit_if (v = []) [finding_brk ''database.password_env'' (''env var `'' @ password_env db
               @ ''` is empty; database.url is configured'')])) @
     (case refuse_to_start_without_token c (wildcard_bind c) (resolve_admin_token c env \<noteq> None) of
        Ok _ \<Rightarrow> []
      | Err _ \<Rightarrow> [finding_fatal ''refuse_to_start'' (''process would REFUSE to boot: non-loopback bind ''
          @ wildcard_bind c @ '' without an admin token and admin.trust_network=false'')])"

definition hosts_block :: "(string \<Rightarrow> string) \<Rightarrow> SecurityConfig \<Rightarrow> Finding list" where
  "hosts_block dbg sec =
     emit_if (allowed_private_hosts sec \<noteq> [])
       (let (valid, invalid) = split_allowed_private_hosts sec
        in emit_if (valid \<noteq> [])
             [finding_info ''security.allowed_private_hosts'' (''private-address access allowed for: ''
                @ str_join '', '' valid @ '' (link-local / metadata still refused)'')] @
           map (\<lambda>entry. finding_weak ''security.allowed_private_hosts''
             (''entry '' @ dbg entry @ '' is not a plain hostname and is ignored'')) invalid)"

definition tokens_block :: "SecurityConfig \<Rightarrow> env \<Rightarrow> Finding list" where
  "tokens_block sec env =
     concat (map (\<lambda>(group, env_var).
       emit_if (non_empty_var env env_var = None)
         [finding_weak ''security.per_group_token_envs'' (''group '' @ group @ '': env var '' @ env_var
            @ '' is unset or empty '' @ em_dash @ '' falls back to master-only'')])
       (per_group_token_envs sec))"

definition weak_block :: "(string \<Rightarrow> string) \<Rightarrow> AppConfig \<Rightarrow> env \<Rightarrow> Finding list" where
  "weak_block dbg c env =
     (let token_present = resolve_admin_token c env \<noteq> None; sec = security c in
      emit_if (request_timeout_secs (limits c) = 0)
        [finding_weak ''limits.request_timeout_secs''
           (''request timeout disabled (0) '' @ em_dash @ '' slow upstream can pin the executor'')] @
      emit_if (shell_timeout_secs (limits c) = 0)
        [finding_weak ''limits.shell_timeout_secs''
           (''shell timeout disabled (0) '' @ em_dash @ '' runaway process will not be SIGKILLed'')] @
      emit_if (''*'' \<in> set (allowed_origins c))
        [finding_weak ''allowed_origins'' (''`*` is treated as an exact origin string, not a wildcard ''
           @ em_dash @ '' CORS will not match browsers'')] @
      emit_if (\<not> token_present)
        [finding_weak ''admin.token'' (''admin bearer token not configured '' @ em_dash @ '' set env ''
           @ bearer_token_env (admin c)
           @ '' for the token, or admin.trust_network=true if a proxy authenticates every request'')] @
      emit_if (trust_network (admin c))
        [finding_weak ''admin.trust_network'' (''trust_network=true '' @ em_dash
           @ '' the loopback-only boot refusal is DISABLED; only safe behind an authenticating proxy'')] @
      emit_if (\<not> block_private_networks sec)
        [finding_weak ''security.block_private_networks'' (''block_private_networks=false '' @ em_dash
           @ '' HTTP jobs can reach cloud metadata endpoints'')] @
      hosts_block dbg sec @
      emit_if (allow_dangerous_env_overrides sec)
        [finding_weak ''security.allow_dangerous_env_overrides'' (''allow_dangerous_env_overrides=true ''
           @ em_dash @ '' PATH / LD_* / PYTHONPATH may be set from /execute query params'')] @
      emit_if (allow_dev_fixture_dsls sec)
        [finding_weak ''security.allow_dev_fixture_dsls'' (''allow_dev_fixture_dsls=true '' @ em_dash
           @ '' FLEET '' @ section_sign @ ''11.3 dev-fixture DSL gate is DISABLED; files matching dev-login / mock- ''
           @ ''/ -mock / /test/ / example- / -example / /dev/ / /mocks/ load with only a WARN'')] @
      emit_if (expose_jobs_publicly sec \<and> token_present)
        [finding_weak ''security.expose_jobs_publicly''
           ''GET /jobs is anonymous even though an admin token is configured''] @
      emit_if (expose_running_publicly sec \<and> token_present)
        [finding_weak ''security.expose_running_publicly''
           ''GET /running is anonymous even though an admin token is configured''] @
      tokens_block sec env)"

definition fatal_block :: "AppConfig \<Rightarrow> env \<Rightarrow> Environment \<Rightarrow> Finding list option" where
  "fatal_block c env e =
     map_option (\<lambda>creds.
       (case creds of Ok _ \<Rightarrow> [] | Err msg \<Rightarrow> [finding_fatal ''env_safety.creds'' msg]) @
       (case enforce_posture e (posture_checks_for c) of
          Ok _ \<Rightarrow> [] | Err msg \<Rightarrow> [finding_fatal ''env_safety.posture'' msg]) @
       emit_if (allow_dangerous_env_overrides (security c) \<and> requires_prod_creds e)
         [finding_fatal ''security.allow_dangerous_env_overrides''
            ''allow_dangerous_env_overrides=true in a non-dev environment''])
       (enforce_creds e (cred_checks_for c env))"

definition run :: "(string \<Rightarrow> string) \<Rightarrow> AppConfig \<Rightarrow> env \<Rightarrow> fs_node option \<Rightarrow> Environment \<Rightarrow> DoctorReport option" where
  "run dbg c env tree e =
     map_option (\<lambda>fatal. \<lparr>report_env = e,
         findings = info_block c env @ break_block c env tree @ weak_block dbg c env @ fatal\<rparr>)
       (fatal_block c env e)"

text \<open>The command: what it prints and its exit code.\<close>

definition cli_entry ::
  "(string \<Rightarrow> string) \<Rightarrow> config_fs \<Rightarrow> (string \<Rightarrow> string + AppConfig) \<Rightarrow> string list \<Rightarrow> env
     \<Rightarrow> (path \<Rightarrow> fs_node option) \<Rightarrow> (CronManagerError + string \<times> int) option" where
  "cli_entry dbg fs yaml args env disk =
     (case load_or_default fs yaml args env of
        Err e \<Rightarrow> Some (Err e)
      | Ok (c, src) \<Rightarrow>
          map_option (\<lambda>rep.
            Ok ((case src of
                   Some p \<Rightarrow> ''loaded config from '' @ p @ newline
                 | None \<Rightarrow> ''using built-in defaults (no cronmanager.yaml found)'' @ newline)
                @ render rep, exit_code rep))
            (run dbg c env (disk (dsl_path c)) (environment_from_env env)))"

section \<open>Lemmas\<close>

lemma severity_finding [simp]:
  "severity (finding_info n m) = SevInfo" "severity (finding_weak n m) = SevWeak"
  "severity (finding_brk n m) = SevBreak" "severity (finding_fatal n m) = SevFatal"
  by (simp_all add: finding_info_def finding_weak_def finding_brk_def finding_fatal_def)

lemma emit_if_simps [simp]: "emit_if True xs = xs" "emit_if False xs = []" "emit_if b [] = []"
  by (simp_all add: emit_if_def)

lemma filter_emit_if [simp]: "filter P (emit_if b xs) = emit_if b (filter P xs)"
  by (simp add: emit_if_def)

lemma list_all_emit_if [simp]: "list_all P (emit_if b xs) \<longleftrightarrow> (b \<longrightarrow> list_all P xs)"
  by (simp add: emit_if_def)

lemma list_ex_emit_if [simp]: "list_ex P (emit_if b xs) \<longleftrightarrow> b \<and> list_ex P xs"
  by (simp add: emit_if_def)

definition fatal :: "Finding \<Rightarrow> bool" where
  "fatal f \<longleftrightarrow> severity f = SevFatal"

lemma exit_code_Fatal: "exit_code rep = 1 \<longleftrightarrow> list_ex fatal (findings rep)"
  by (auto simp: exit_code_def fatal_count_def severity_count_def filter_empty_conv list_ex_iff fatal_def)

lemma fatal_is_top: "a \<le> SevFatal" "SevFatal \<le> a \<longleftrightarrow> a = SevFatal"
  by (cases a; simp add: less_eq_Severity_def)+

lemma fatal_in_info: "\<not> list_ex fatal (info_block c env)"
  by (simp add: info_block_def fatal_def)

lemma fatal_in_hosts: "\<not> list_ex fatal (hosts_block dbg sec)"
  by (cases "split_allowed_private_hosts sec") (auto simp: hosts_block_def fatal_def list_ex_iff)

lemma fatal_in_tokens: "\<not> list_ex fatal (tokens_block sec env)"
  by (auto simp: tokens_block_def fatal_def list_ex_iff)

lemma fatal_in_weak: "\<not> list_ex fatal (weak_block dbg c env)"
  by (simp add: weak_block_def Let_def fatal_in_hosts fatal_in_tokens) (simp add: fatal_def)

lemma fatal_in_break:
  "list_ex fatal (break_block c env tree) \<longleftrightarrow>
     is_err (refuse_to_start_without_token c (wildcard_bind c) (resolve_admin_token c env \<noteq> None))"
  by (simp add: break_block_def fatal_def is_err_def split: option.split sum.split)

lemma dangerous_is_posture:
  "allow_dangerous_env_overrides (security c) \<Longrightarrow> requires_prod_creds e \<Longrightarrow> is_err (enforce_posture e (posture_checks_for c))"
  using pg.gate_passes_iff [of "posture_checks_for c" e] posture_all_safe [of c]
  by (cases "enforce_posture e (posture_checks_for c)") (auto simp: requires_prod_creds_def is_err_def)

lemma fatal_in_fatal:
  assumes "fatal_block c env e = Some fs"
  shows "list_ex fatal fs \<longleftrightarrow>
    enforce_creds e (cred_checks_for c env) \<noteq> Some (Ok ()) \<or> is_err (enforce_posture e (posture_checks_for c))"
proof -
  obtain creds where cr: "enforce_creds e (cred_checks_for c env) = Some creds"
    using assms by (auto simp: fatal_block_def)
  show ?thesis
    using assms dangerous_is_posture [of c e]
    by (cases creds; cases "enforce_posture e (posture_checks_for c)")
      (auto simp: fatal_block_def cr fatal_def is_err_def)
qed

lemma run_fatal:
  assumes "run dbg c env tree e = Some rep"
  shows "exit_code rep = 1 \<longleftrightarrow>
    enforce_creds e (cred_checks_for c env) \<noteq> Some (Ok ()) \<or>
    is_err (enforce_posture e (posture_checks_for c)) \<or>
    is_err (refuse_to_start_without_token c (wildcard_bind c) (resolve_admin_token c env \<noteq> None))"
proof -
  obtain fs where fs: "fatal_block c env e = Some fs"
    "findings rep = info_block c env @ break_block c env tree @ weak_block dbg c env @ fs"
    using assms by (auto simp: run_def)
  then show ?thesis
    by (auto simp: exit_code_Fatal fatal_in_info fatal_in_weak fatal_in_break fatal_in_fatal)
qed

subsection \<open>Group tokens\<close>

lemma resolve_tokens_fold:
  fixes env :: env
  defines "add \<equiv> \<lambda>out (g, var). case env var of Some v \<Rightarrow> if v \<noteq> [] then btree_insert g v out else out | None \<Rightarrow> out"
  assumes "btree_ok m" and "distinct (map fst xs)"
  shows "map_of (foldl add m xs) g =
    (case map_of xs g of None \<Rightarrow> map_of m g
     | Some var \<Rightarrow> (case non_empty_var env var of Some v \<Rightarrow> Some v | None \<Rightarrow> map_of m g))"
  using assms(2,3)
proof (induction xs arbitrary: m)
  case (Cons x xs)
  obtain k var where x: "x = (k, var)" by (cases x)
  have ok: "btree_ok (add m (k, var))" using Cons.prems(1) by (simp add: add_def bt.invar_insert split: option.split)
  have look: "map_of (add m (k, var)) g =
      (if g = k then (case non_empty_var env var of Some v \<Rightarrow> Some v | None \<Rightarrow> map_of m g) else map_of m g)"
    using Cons.prems(1) by (simp add: add_def non_empty_var_def bt.lookup_insert split: option.split)
  have new: "map_of xs k = None" and dis: "distinct (map fst xs)"
    using Cons.prems(2) by (simp_all add: x map_of_eq_None_iff)
  show ?case
    unfolding x foldl.simps Cons.IH [OF ok dis] look
    by (cases "g = k") (simp_all add: new split: option.split)
qed simp

lemma resolve_tokens_lookup:
  assumes "distinct (map fst (per_group_token_envs (security c)))" and "(g, var) \<in> set (per_group_token_envs (security c))"
  shows "map_of (resolve_per_group_tokens c env) g = non_empty_var env var"
  using resolve_tokens_fold [OF bt.invar_empty assms(1), of env g] assms
  by (simp add: resolve_per_group_tokens_def map_of_is_SomeI split: option.split)

section \<open>Boot warnings\<close>

text \<open>The check of the audit that corresponds to a boot warning.\<close>

fun warn_name :: "diag \<Rightarrow> string" where
  "warn_name RequestTimeoutDisabled = ''limits.request_timeout_secs''"
| "warn_name ShellTimeoutDisabled = ''limits.shell_timeout_secs''"
| "warn_name WildcardOrigin = ''allowed_origins''"
| "warn_name (NoAdminToken _) = ''admin.token''"
| "warn_name TrustNetwork = ''admin.trust_network''"
| "warn_name PrivateNetworksAllowed = ''security.block_private_networks''"
| "warn_name (AllowedHostIgnored _) = ''security.allowed_private_hosts''"
| "warn_name DangerousEnvAllowed = ''security.allow_dangerous_env_overrides''"
| "warn_name DevFixturesAllowed = ''security.allow_dev_fixture_dsls''"
| "warn_name JobsPublic = ''security.expose_jobs_publicly''"
| "warn_name RunningPublic = ''security.expose_running_publicly''"
| "warn_name (GroupTokenUnset _ _) = ''security.per_group_token_envs''"
| "warn_name _ = []"

definition weak_names :: "Finding list \<Rightarrow> string list" where
  "weak_names fs = map finding_name (filter (\<lambda>f. severity f = SevWeak) fs)"

definition warn_names :: "diag list \<Rightarrow> string list" where
  "warn_names ds = map warn_name (filter (\<lambda>d. diag_level d = WARN \<and> d \<noteq> AllowlistInert) ds)"

lemma names_append [simp]:
  "weak_names (xs @ ys) = weak_names xs @ weak_names ys" "warn_names (ds @ es) = warn_names ds @ warn_names es"
  "weak_names [] = []" "warn_names [] = []"
  "weak_names (emit_if b xs) = emit_if b (weak_names xs)" "warn_names (emit_if b ds) = emit_if b (warn_names ds)"
  by (simp_all add: weak_names_def warn_names_def emit_if_def)

lemma weak_names_one [simp]:
  "weak_names [finding_info n m] = []" "weak_names [finding_weak n m] = [n]"
  "weak_names [finding_brk n m] = []" "weak_names [finding_fatal n m] = []"
  by (simp_all add: weak_names_def) (simp add: finding_weak_def)

lemma weak_names_hosts:
  "weak_names (hosts_block dbg (security c)) =
     warn_names (emit_if (allowed_private_hosts (security c) \<noteq> [])
       (let (valid, invalid) = split_allowed_private_hosts (security c)
        in [AllowedHosts valid] @ map AllowedHostIgnored invalid @
           emit_if (\<not> block_private_networks (security c)) [AllowlistInert]))"
  by (cases "split_allowed_private_hosts (security c)")
    (simp add: hosts_block_def weak_names_def warn_names_def emit_if_def finding_weak_def comp_def filter_map)

lemma weak_names_tokens:
  assumes "distinct (map fst (per_group_token_envs (security c)))"
  shows "weak_names (tokens_block (security c) env) =
     warn_names (concat (map (\<lambda>(group, env_var).
       emit_if (map_of (resolve_per_group_tokens c env) group = None) [GroupTokenUnset group env_var])
       (per_group_token_envs (security c))))"
proof -
  have "weak_names (concat (map (\<lambda>(g, v). emit_if (non_empty_var env v = None) [finding_weak n (msg g v)]) xs)) =
      warn_names (concat (map (\<lambda>(g, v). emit_if (map_of r g = None) [GroupTokenUnset g v]) xs))"
    if "\<And>g v. (g, v) \<in> set xs \<Longrightarrow> map_of r g = non_empty_var env v" "n = ''security.per_group_token_envs''"
    for xs r n and msg :: "string \<Rightarrow> string \<Rightarrow> string"
    using that
  proof (induction xs)
    case (Cons x xs)
    obtain g v where x: "x = (g, v)" by (cases x)
    have name: "warn_names [GroupTokenUnset g v] = [n]" by (simp add: warn_names_def Cons.prems(2))
    have same: "map_of r g = non_empty_var env v" using Cons.prems(1) x by simp
    have "weak_names (concat (map (\<lambda>(g, v). emit_if (non_empty_var env v = None) [finding_weak n (msg g v)]) xs)) =
        warn_names (concat (map (\<lambda>(g, v). emit_if (map_of r g = None) [GroupTokenUnset g v]) xs))"
      using Cons by simp
    then show ?case by (simp add: x name same)
  qed simp
  from this [OF resolve_tokens_lookup [OF assms] refl] show ?thesis by (simp add: tokens_block_def)
qed

lemma weak_block_names:
  assumes "distinct (map fst (per_group_token_envs (security c)))"
  shows "weak_names (weak_block dbg c env) = warn_names (boot_diagnostics c env)"
proof -
  have one: "warn_names [d] = (if diag_level d = WARN \<and> d \<noteq> AllowlistInert then [warn_name d] else [])" for d
    by (simp add: warn_names_def)
  have tokens: "emit_if (per_group_token_envs (security c) \<noteq> [])
      (warn_names (concat (map f (per_group_token_envs (security c))))) =
      warn_names (concat (map f (per_group_token_envs (security c))))" for f
    by (simp add: emit_if_def warn_names_def)
  show ?thesis
    unfolding weak_block_def boot_diagnostics_def Let_def names_append weak_names_hosts weak_names_tokens [OF assms]
    by (simp add: one Let_def tokens)
qed

lemma weak_names_fatal:
  assumes "fatal_block c env e = Some fs"
  shows "weak_names fs = []"
proof -
  obtain creds where cr: "enforce_creds e (cred_checks_for c env) = Some creds"
    using assms by (auto simp: fatal_block_def)
  show ?thesis
    using assms
    by (cases creds; cases "enforce_posture e (posture_checks_for c)") (auto simp: fatal_block_def cr weak_names_def)
qed

lemma weak_names_run:
  assumes "run dbg c env tree e = Some rep"
  shows "weak_names (findings rep) = weak_names (weak_block dbg c env)"
proof -
  obtain fs where fs: "fatal_block c env e = Some fs"
    "findings rep = info_block c env @ break_block c env tree @ weak_block dbg c env @ fs"
    using assms by (auto simp: run_def)
  have "weak_names (info_block c env) = []" by (simp add: info_block_def weak_names_def)
  moreover have "weak_names (break_block c env tree) = []"
    by (simp add: break_block_def split: option.split sum.split)
  ultimately show ?thesis using weak_names_fatal [OF fs(1)] by (simp add: fs(2))
qed

lemma offline_finding:
  assumes "run dbg c env tree e = Some rep"
  shows "list_ex (\<lambda>f. finding_name f = ''offline_mode'' \<and> severity f = SevInfo) (findings rep) \<longleftrightarrow> offline_from_env env"
proof -
  obtain fs where fs: "fatal_block c env e = Some fs"
    "findings rep = info_block c env @ break_block c env tree @ weak_block dbg c env @ fs"
    using assms by (auto simp: run_def)
  have name: "finding_name (finding_info n m) = n" "finding_name (finding_weak n m) = n"
    "finding_name (finding_brk n m) = n" "finding_name (finding_fatal n m) = n" for n m
    by (simp_all add: finding_info_def finding_weak_def finding_brk_def finding_fatal_def)
  have "\<not> list_ex (\<lambda>f. finding_name f = ''offline_mode'') (hosts_block dbg (security c))"
    by (cases "split_allowed_private_hosts (security c)") (auto simp: hosts_block_def name list_ex_iff)
  moreover have "\<not> list_ex (\<lambda>f. finding_name f = ''offline_mode'') (tokens_block (security c) env)"
    by (auto simp: tokens_block_def list_ex_iff name)
  ultimately have "\<not> list_ex (\<lambda>f. finding_name f = ''offline_mode'') (weak_block dbg c env)"
    by (simp add: weak_block_def Let_def name)
  moreover have "\<not> list_ex (\<lambda>f. finding_name f = ''offline_mode'') (break_block c env tree)"
    by (simp add: break_block_def name split: option.split sum.split)
  moreover have "\<not> list_ex (\<lambda>f. finding_name f = ''offline_mode'') fs"
  proof -
    obtain creds where "enforce_creds e (cred_checks_for c env) = Some creds" using fs(1) by (auto simp: fatal_block_def)
    then show ?thesis
      using fs(1) by (cases creds; cases "enforce_posture e (posture_checks_for c)") (auto simp: fatal_block_def name list_ex_iff emit_if_def)
  qed
  ultimately show ?thesis by (auto simp: fs(2) info_block_def name list_ex_iff)
qed

end
