(* ===== verification/Boot.thy ===== *)
theory Boot
  imports Doctor
begin

text \<open>
  \<open>src/main.rs\<close>: the boot sequence from the configuration to the listening server, the
  dispatch to the audit, and the redaction of the database URL. What the process meets
  outside (files, environment, database, HTTP client, listener) is a record of answers; a
  panic is \<open>None\<close>.
\<close>

section \<open>The sequence\<close>

record boot_world =
  bw_args :: "string list"
  bw_env :: env
  bw_fs :: config_fs
  bw_yaml :: "string \<Rightarrow> string + AppConfig"
  bw_disk :: "path \<Rightarrow> fs_node option"
  bw_lib :: dsl_lib
  bw_load_end :: load_end
  bw_connect :: "string \<Rightarrow> string + unit"
  bw_migrate :: "string + unit"
  bw_client :: "string + unit"
  bw_listen :: "string \<Rightarrow> io_error + unit"
  bw_debug :: "string \<Rightarrow> string"

text \<open>An \<open>anyhow\<close> error is a refusal message, an error of the program or one of the listener.\<close>

datatype boot_error = Refusal string | App CronManagerError | Bind io_error

text \<open>
  The lines of the start-up diagnostics and the warnings a boot that gets so far has logged before it
  reads the job files; the other INFO lines and the error of an unreachable database are left out.
\<close>

datatype boot_line = Diag diag | WeakCredential string | UnsafePosture string string | OfflineLever

datatype Recorder = NoopRecorder | PostgresRecorder nat

record booted =
  b_recorder :: Recorder
  b_bundle :: ExecutorBundle
  b_state :: AppState
  b_log :: "boot_line list"
  b_bind :: string

definition boot_log :: "AppConfig \<Rightarrow> env \<Rightarrow> boot_line list" where
  "boot_log c env =
     (let e = environment_from_env env
      in map Diag (boot_diagnostics c env) @
         map WeakCredential (unwrap_or [] (cred_warnings e (cred_checks_for c env))) @
         map (\<lambda>(n, line). UnsafePosture n line) (posture_warnings e (posture_checks_for c)) @
         emit_if (offline_from_env env) [OfflineLever])"

text \<open>Postgres if a DSN is configured and reachable, otherwise no history.\<close>

definition choose_recorder :: "boot_world \<Rightarrow> AppConfig \<Rightarrow> string option \<Rightarrow> Recorder" where
  "choose_recorder w c dsn =
     (case dsn of
        None \<Rightarrow> NoopRecorder
      | Some d \<Rightarrow>
          (case postgres_connect (bw_connect w d) (bw_migrate w) (stored_response_body_max_bytes (security c)) of
             Ok r \<Rightarrow> PostgresRecorder r
           | Err e \<Rightarrow> NoopRecorder))"

definition boot_load :: "boot_world \<Rightarrow> AppConfig \<Rightarrow> CronManagerError + LoadedJob list" where
  "boot_load w c =
     (let sec = security c;
          action = action_from_env (environment_from_env (bw_env w)) (allow_dev_fixture_dsls sec)
      in load_all_bounded (bw_lib w) (bw_env w) (dsl_path c) (bw_disk w (dsl_path c)) (max_dsl_file_bytes sec)
           (dsl_load_timeout_secs sec) (max_retry_count sec) (min_cron_interval_secs sec)
           (block_private_networks sec) action (bw_load_end w))"

definition initial_state :: "AppConfig \<Rightarrow> env \<Rightarrow> Scheduler \<Rightarrow> AppState" where
  "initial_state c env sched =
     (let st = app_state_new c sched;
          st1 = (case resolve_admin_token c env of Some token \<Rightarrow> with_admin_token token st | None \<Rightarrow> st);
          groups = resolve_per_group_tokens c env
      in if groups \<noteq> [] then with_per_group_tokens groups st1 else st1)"

definition gates :: "AppConfig \<Rightarrow> env \<Rightarrow> (string + unit) option" where
  "gates c env =
     (let e = environment_from_env env in
      case enforce_creds e (cred_checks_for c env) of
        None \<Rightarrow> None
      | Some creds \<Rightarrow>
          Some (and_then creds (\<lambda>_.
                and_then (enforce_posture e (posture_checks_for c)) (\<lambda>_.
                refuse_to_start_without_token c (wildcard_bind c) (resolve_admin_token c env \<noteq> None)))))"

definition start_up :: "boot_world \<Rightarrow> AppConfig \<Rightarrow> boot_error + booted" where
  "start_up w c =
     and_then (map_err App (database_dsn c (bw_env w))) (\<lambda>dsn.
     and_then (map_err App (bundle_new (bw_client w) c (bw_env w))) (\<lambda>bundle.
     and_then (map_err App (boot_load w c)) (\<lambda>loaded.
     and_then (map_err Bind (bw_listen w (wildcard_bind c))) (\<lambda>_.
     Ok \<lparr>b_recorder = choose_recorder w c dsn, b_bundle = bundle,
         b_state = initial_state c (bw_env w) (register_all (map spec loaded) scheduler_new),
         b_log = boot_log c (bw_env w), b_bind = wildcard_bind c\<rparr>))))"

definition boot :: "boot_world \<Rightarrow> (boot_error + booted) option" where
  "boot w =
     (case load_or_default (bw_fs w) (bw_yaml w) (bw_args w) (bw_env w) of
        Err e \<Rightarrow> Some (Err (App e))
      | Ok (c, src) \<Rightarrow>
          map_option (\<lambda>g. and_then (map_err Refusal g) (\<lambda>_. start_up w c)) (gates c (bw_env w)))"

datatype main_end = Exit int | MainErr boot_error | Serving booted

definition main :: "boot_world \<Rightarrow> main_end option" where
  "main w =
     (if list_ex (\<lambda>a. a = ''doctor'') (bw_args w) then
        map_option (\<lambda>r. case r of Err e \<Rightarrow> MainErr (App e) | Ok (out, n) \<Rightarrow> Exit n)
          (cli_entry (bw_debug w) (bw_fs w) (bw_yaml w) (bw_args w) (bw_env w) (bw_disk w))
      else map_option (\<lambda>r. case r of Err e \<Rightarrow> MainErr e | Ok b \<Rightarrow> Serving b) (boot w))"

section \<open>Redaction\<close>

definition redact_password :: "string \<Rightarrow> string" where
  "redact_password dsn =
     (let (pre, rest) = (case strip_prefix_str ''jdbc:'' dsn of Some inner \<Rightarrow> (''jdbc:'', inner) | None \<Rightarrow> ([], dsn))
      in case find_str ''://'' rest of
           None \<Rightarrow> dsn
         | Some idx \<Rightarrow>
             (let sch = take (idx + 3) rest; after = drop (idx + 3) rest
              in case find_byte (CHR ''@'') after of
                   None \<Rightarrow> dsn
                 | Some at \<Rightarrow>
                     (let userinfo = take at after; tail = drop at after;
                          user = (case find_byte (CHR '':'') userinfo of Some i \<Rightarrow> take i userinfo | None \<Rightarrow> userinfo)
                      in pre @ sch @ user @ '':***'' @ tail)))"

section \<open>Lemmas\<close>

declare map_err_eq_Err [result_simps]

lemma gates_Ok:
  "gates c env = Some (Ok ()) \<longleftrightarrow>
     enforce_creds (environment_from_env env) (cred_checks_for c env) = Some (Ok ()) \<and>
     enforce_posture (environment_from_env env) (posture_checks_for c) = Ok () \<and>
     refuse_to_start_without_token c (wildcard_bind c) (resolve_admin_token c env \<noteq> None) = Ok ()"
  by (auto simp: gates_def Let_def result_simps split: option.splits)

lemma gates_None: "gates c env = None \<longleftrightarrow> enforce_creds (environment_from_env env) (cred_checks_for c env) = None"
  by (simp add: gates_def Let_def split: option.split)

lemma gates_Err: "gates c env \<noteq> None \<Longrightarrow> gates c env \<noteq> Some (Ok ()) \<Longrightarrow> \<exists>m. gates c env = Some (Err m)"
  using not_passed by blast

lemma start_up_no_refusal: "start_up w c \<noteq> Err (Refusal m)"
  by (auto simp: start_up_def result_simps)

lemma refuse_wildcard:
  "refuse_to_start_without_token c (wildcard_bind c) t = Ok () \<longleftrightarrow> t \<or> trust_network (admin c)"
  using wildcard_not_loopback [of "port c"] by (simp add: refuse_to_start_without_token_def wildcard_bind_def)

lemma boot_Ok:
  "boot w = Some (Ok b) \<longleftrightarrow>
     (\<exists>c src. load_or_default (bw_fs w) (bw_yaml w) (bw_args w) (bw_env w) = Ok (c, src) \<and>
        gates c (bw_env w) = Some (Ok ()) \<and> start_up w c = Ok b)"
  by (auto simp: boot_def result_simps split: sum.splits)

lemma creds_passed:
  assumes "enforce_creds e cs = Some (Ok ())" and "e \<noteq> Dev"
  shows "\<forall>c\<in>set cs. is_weak c = None"
proof -
  obtain fs where "cred_failures cs = Some fs" using assms(1) by (auto simp: enforce_creds_def)
  with assms cred_failures_Some enforce_creds_Some(1) show ?thesis by blast
qed

lemma posture_passed:
  "enforce_posture e (posture_checks_for c) = Ok () \<Longrightarrow> e \<noteq> Dev \<Longrightarrow>
     \<not> trust_network (admin c) \<and> block_private_networks (security c) \<and>
     \<not> allow_dangerous_env_overrides (security c) \<and> \<not> allow_dev_fixture_dsls (security c)"
  using pg.gate_passes_iff [of "posture_checks_for c" e] posture_all_safe [of c] by simp

text \<open>The load policy of the boot, field by field from the configuration.\<close>

definition boot_policy :: "AppConfig \<Rightarrow> env \<Rightarrow> LoadPolicy" where
  "boot_policy c env =
     \<lparr>pol_max_file_bytes = max_dsl_file_bytes (security c), pol_max_retry_count = max_retry_count (security c),
      pol_min_cron_interval_secs = min_cron_interval_secs (security c),
      pol_block_private_networks = block_private_networks (security c),
      pol_dev_fixture_action = action_from_env (environment_from_env env) (allow_dev_fixture_dsls (security c))\<rparr>"

lemma boot_load_Ok:
  "boot_load w c = Ok loaded \<Longrightarrow>
     load_all_with_policy (bw_lib w) (bw_env w) (dsl_path c) (bw_disk w (dsl_path c)) (boot_policy c (bw_env w)) = Ok loaded"
  by (auto simp: boot_load_def load_all_bounded_def boot_policy_def Let_def split: load_end.splits)

lemma registered_from_load:
  assumes "map_of (jobs (register_all (map spec loaded) scheduler_new)) k = Some entry"
  shows "\<exists>j\<in>set loaded. reg_spec entry = spec j \<and> key (spec j) = k"
proof -
  have "map_of (rev (map (\<lambda>sp. (key sp, sp)) (map spec loaded))) k = Some (reg_spec entry)"
    using register_all_jobs [of "map spec loaded" scheduler_new k] assms
    by (simp add: scheduler_new_def split: option.splits)
  then have "(k, reg_spec entry) \<in> set (map (\<lambda>sp. (key sp, sp)) (map spec loaded))"
    by (metis map_of_SomeD set_rev)
  then show ?thesis by auto
qed

lemma initial_state_fields:
  "cfg (initial_state c env s) = c" "scheduler (initial_state c env s) = s"
  "admin_token (initial_state c env s) = resolve_admin_token c env"
  by (simp_all add: initial_state_def Let_def app_state_new_def with_admin_token_def with_per_group_tokens_def
      split: option.split)

lemma start_up_Ok:
  assumes "start_up w c = Ok b"
  obtains loaded where "boot_load w c = Ok loaded"
    "b_state b = initial_state c (bw_env w) (register_all (map spec loaded) scheduler_new)"
  using assms by (auto simp: start_up_def result_simps)

lemma cli_entry_config:
  assumes "load_or_default (bw_fs w) (bw_yaml w) (bw_args w) (bw_env w) = Ok (c, src)"
  shows "\<exists>f. cli_entry (bw_debug w) (bw_fs w) (bw_yaml w) (bw_args w) (bw_env w) (bw_disk w) =
    map_option (\<lambda>rep. Ok (f rep, exit_code rep))
      (run (bw_debug w) c (bw_env w) (bw_disk w (dsl_path c)) (environment_from_env (bw_env w)))"
  using assms by (auto simp: cli_entry_def)

lemma run_None: "run dbg c env tree (environment_from_env env) = None \<longleftrightarrow> gates c env = None"
  by (simp add: run_def fatal_block_def gates_None)

lemma run_exit_gates:
  assumes "run dbg c env tree (environment_from_env env) = Some rep"
  shows "exit_code rep = 1 \<longleftrightarrow> gates c env \<noteq> Some (Ok ())" "exit_code rep = 0 \<longleftrightarrow> gates c env = Some (Ok ())"
proof -
  have err: "r \<noteq> Ok () \<longleftrightarrow> is_err r" for r :: "string + unit" by (cases r) (simp_all add: is_err_def)
  show 1: "exit_code rep = 1 \<longleftrightarrow> gates c env \<noteq> Some (Ok ())"
    using run_fatal [OF assms] by (auto simp: gates_Ok err [symmetric])
  show "exit_code rep = 0 \<longleftrightarrow> gates c env = Some (Ok ())"
    using 1 by (auto simp: exit_code_def split: if_splits)
qed

lemma fixture_fails_start_up:
  assumes "gates c (bw_env w) = Some (Ok ())" and "environment_from_env (bw_env w) \<noteq> Dev"
    and "bw_disk w (dsl_path c) = Some node" "Ok (p, f) \<in> set (visits (dsl_path c) node)"
    and "is_yaml p" "dev_fixture_pattern (path_display p) \<noteq> None"
  shows "\<exists>e. start_up w c = Err e"
proof -
  have "\<not> allow_dev_fixture_dsls (security c)" using assms(1,2) posture_passed by (auto simp: gates_Ok)
  then have ref: "refused (boot_policy c (bw_env w)) p"
    using assms(2,5,6) by (simp add: refused_def boot_policy_def action_from_env_def requires_prod_creds_def)
  have "boot_load w c \<noteq> Ok loaded" for loaded
  proof
    assume "boot_load w c = Ok loaded"
    then have "\<forall>v\<in>set (visits (dsl_path c) node). visit_fine (boot_policy c (bw_env w)) v"
      using boot_load_Ok [of w c loaded] assms(3) by (simp add: load_all_Ok_iff)
    then show False using assms(4) ref by fastforce
  qed
  then have "start_up w c \<noteq> Ok b" for b by (metis start_up_Ok)
  then show ?thesis by (metis sum.exhaust)
qed

subsection \<open>The log\<close>

text \<open>The check of the audit that repeats a line of the log.\<close>

fun audited :: "boot_line \<Rightarrow> string list" where
  "audited (Diag d) = (if diag_level d = WARN \<and> d \<noteq> AllowlistInert then [warn_name d] else [])"
| "audited _ = []"

lemma audited_diags: "concat (map (audited \<circ> Diag) ds) = warn_names ds"
  by (induction ds) (simp_all add: warn_names_def)

lemma concat_nothing: "(\<And>x. f x = []) \<Longrightarrow> concat (map f xs) = []"
  by (induction xs) simp_all

lemma audited_log: "concat (map audited (boot_log c env)) = warn_names (boot_diagnostics c env)"
proof -
  have "concat (map (audited \<circ> WeakCredential) xs) = []" "concat (map (audited \<circ> (\<lambda>(n, l). UnsafePosture n l)) ps) = []"
    "concat (map audited (emit_if b [OfflineLever])) = []" for xs ps b
    by (auto intro!: concat_nothing simp: emit_if_def)
  then show ?thesis by (simp add: boot_log_def Let_def audited_diags)
qed

lemma posture_is_weak:
  assumes "(n, l) \<in> set (posture_warnings e (posture_checks_for c))"
  shows "n \<in> set (weak_names (weak_block dbg c env))"
proof -
  have n: "n = ''admin.trust_network'' \<and> trust_network (admin c) \<or>
      n = ''security.block_private_networks'' \<and> \<not> block_private_networks (security c) \<or>
      n = ''security.allow_dangerous_env_overrides'' \<and> allow_dangerous_env_overrides (security c) \<or>
      n = ''security.allow_dev_fixture_dsls'' \<and> allow_dev_fixture_dsls (security c)"
    using assms by (auto simp: posture_warnings_def posture_checks_for_def split: if_splits)
  show ?thesis
    using n unfolding weak_block_def Let_def names_append by (auto simp: emit_if_def)
qed

section \<open>A concrete deployment\<close>

definition ex_env :: "string \<Rightarrow> env" where
  "ex_env e v =
     (if v = ''APP_ENV'' then Some e
      else if v = ''CRONMANAGER_ADMIN_TOKEN'' then Some ''x9KqPz77LmVtx9KqPz77LmVtx9KqPz77LmVt'' else None)"

definition ex_config :: "DatabaseCfg option \<Rightarrow> AppConfig" where
  "ex_config db = default_config\<lparr>dsl_path := [''/'', ''dsl''], database := db,
     security := default_security\<lparr>max_dsl_file_bytes := 100, max_retry_count := 3, min_cron_interval_secs := 0\<rparr>\<rparr>"

definition ex_world :: "string \<Rightarrow> DatabaseCfg option \<Rightarrow> boot_world" where
  "ex_world e db =
     \<lparr>bw_args = [''cronmanager''], bw_env = ex_env e, bw_fs = (\<lambda>_. Some (Ok [])), bw_yaml = (\<lambda>_. Ok (ex_config db)),
      bw_disk = (\<lambda>_. Some ex_tree), bw_lib = ex_lib, bw_load_end = Joined, bw_connect = (\<lambda>_. Ok ()),
      bw_migrate = Ok (), bw_client = Ok (), bw_listen = (\<lambda>_. Ok ()), bw_debug = id\<rparr>"

lemma ex_world_config:
  "load_or_default (bw_fs (ex_world e db)) (bw_yaml (ex_world e db)) (bw_args (ex_world e db)) (bw_env (ex_world e db)) =
     Ok (ex_config db, Some ''./cronmanager.yaml'')"
  by (simp add: load_or_default_def config_search_paths_def ex_world_def ex_env_def reject_jvm_wrappers_def
      str_lines_def)

lemma ex_token: "resolve_admin_token (ex_config db) (ex_env e) = Some ''x9KqPz77LmVtx9KqPz77LmVtx9KqPz77LmVt''"
  by (simp add: resolve_admin_token_def non_empty_var_def ex_config_def default_config_def default_admin_def
      default_admin_token_env_def ex_env_def)

lemma ex_token_strong:
  "is_weak \<lparr>cred_context = ''admin'', cred_field = ''token'',
     cred_value = ''x9KqPz77LmVtx9KqPz77LmVtx9KqPz77LmVt'', min_len = 32\<rparr> = None"
  by code_simp

lemma ex_posture: "enforce_posture e (posture_checks_for (ex_config db)) = Ok ()"
  by (simp add: enforce_posture_def posture_checks_for_def ex_config_def default_config_def default_admin_def
      default_security_def)

lemma ex_environment: "environment_from_env (ex_env ''production'') = Production" "environment_from_env (ex_env ''dev'') = Dev"
  by (simp_all add: environment_from_env_def ex_env_def) code_simp+

lemma ex_gates: "gates (ex_config None) (ex_env ''production'') = Some (Ok ())"
proof -
  have "enforce_creds Production (cred_checks_for (ex_config None) (ex_env ''production'')) = Some (Ok ())"
    using ex_token_strong
    by (intro cg.gate_clean) (simp add: cred_checks_for_def ex_token, simp add: ex_config_def)
  then show ?thesis by (simp add: gates_Ok ex_environment ex_posture refuse_wildcard ex_token)
qed

lemma ex_boot_lib:
  assumes "load_all_with_policy lib (ex_env ''production'') [''/'', ''dsl''] (Some ex_tree) ex_policy =
    Ok [\<lparr>spec = sp, source_path = p\<rparr>]"
  shows "\<exists>b. boot ((ex_world ''production'' None)\<lparr>bw_lib := lib\<rparr>) = Some (Ok b) \<and>
    scheduler (b_state b) = register_all [sp] scheduler_new \<and> cfg (b_state b) = ex_config None \<and>
    http_block_private (bundle_http (b_bundle b)) \<and> http_allowed_hosts (bundle_http (b_bundle b)) = []"
proof -
  let ?w = "(ex_world ''production'' None)\<lparr>bw_lib := lib\<rparr>" and ?c = "ex_config None"
  have load: "boot_load ?w ?c = Ok [\<lparr>spec = sp, source_path = p\<rparr>]"
    using assms
    by (simp add: boot_load_def load_all_bounded_def ex_world_def ex_environment ex_config_def default_config_def
        default_security_def ex_policy_def action_from_env_def requires_prod_creds_def)
  have dsn: "database_dsn ?c (bw_env ?w) = Ok None" by (simp add: database_dsn_def ex_config_def)
  obtain bd where bd: "bundle_new (bw_client ?w) ?c (bw_env ?w) = Ok bd"
    "http_block_private (bundle_http bd)" "http_allowed_hosts (bundle_http bd) = []"
    by (simp add: bundle_new_def with_ssrf_policy_def with_allowed_private_hosts_def ex_world_def ex_config_def
        default_security_def split_allowed_private_hosts_def)
  have listen: "bw_listen ?w a = Ok ()" for a by (simp add: ex_world_def)
  obtain b where "start_up ?w ?c = Ok b" "b_bundle b = bd"
      "b_state b = initial_state ?c (bw_env ?w) (register_all [sp] scheduler_new)"
    using load dsn bd(1) listen by (simp add: start_up_def)
  moreover have "load_or_default (bw_fs ?w) (bw_yaml ?w) (bw_args ?w) (bw_env ?w) = Ok (?c, Some ''./cronmanager.yaml'')"
    using ex_world_config [of "''production''" None] by simp
  moreover have "gates ?c (bw_env ?w) = Some (Ok ())" using ex_gates by (simp add: ex_world_def)
  ultimately show ?thesis using bd(2,3) by (intro exI [of _ b]) (simp add: boot_Ok initial_state_fields)
qed

lemma ex_boot: "\<exists>b. boot (ex_world ''production'' None) = Some (Ok b) \<and>
    map_of (jobs (scheduler (b_state b))) (key ex_spec) \<noteq> None"
proof -
  have "(ex_world ''production'' None)\<lparr>bw_lib := ex_lib\<rparr> = ex_world ''production'' None" by (simp add: ex_world_def)
  moreover have "map_of (jobs (register_all [ex_spec] scheduler_new)) (key ex_spec) \<noteq> None"
    by (simp add: register_all_def register_def spawn_and_insert_def unregister_def scheduler_new_def ex_spec_def)
  ultimately show ?thesis using ex_boot_lib [OF ex_load_env] by auto
qed

section \<open>Properties\<close>

text \<open>
  C7. A process that serves is safe: it has an admin token or an operator who vouched for
  the network; outside \<open>Dev\<close> its credentials are strong and its posture flags safe; every
  registered job satisfies the load policy taken from the configuration, under its own key,
  and none is running. In particular a process with neither token nor opt-out never serves,
  whatever its environment. The safe flags include \<open>allow_dev_fixture_dsls = false\<close>: outside
  \<open>Dev\<close> the posture gate refuses that opt-out, although \<open>CHANGELOG.md\<close>, \<open>configuration.md\<close> and
  the comments of \<open>config.rs\<close> and \<open>loader.rs\<close> describe it as booting with a WARN.
\<close>

theorem boot_success_is_safe:
  assumes "boot w = Some (Ok b)"
  shows "let c = cfg (b_state b); e = environment_from_env (bw_env w) in
    admin_token (b_state b) = resolve_admin_token c (bw_env w) \<and>
    (admin_token (b_state b) \<noteq> None \<or> trust_network (admin c)) \<and>
    (e = Dev \<or> list_all (\<lambda>k. is_weak k = None) (cred_checks_for c (bw_env w)) \<and> \<not> trust_network (admin c) \<and>
       block_private_networks (security c) \<and> \<not> allow_dangerous_env_overrides (security c) \<and>
       \<not> allow_dev_fixture_dsls (security c)) \<and>
    (\<forall>k entry. map_of (jobs (scheduler (b_state b))) k = Some entry \<longrightarrow>
       spec_ok (bw_lib w) (bw_env w) (boot_policy c (bw_env w)) (reg_spec entry) \<and> key (reg_spec entry) = k) \<and>
    running (scheduler (b_state b)) = []"
proof -
  obtain c src where c: "gates c (bw_env w) = Some (Ok ())" "start_up w c = Ok b"
    using assms by (auto simp: boot_Ok)
  then obtain loaded where l: "boot_load w c = Ok loaded"
    "b_state b = initial_state c (bw_env w) (register_all (map spec loaded) scheduler_new)"
    by (elim start_up_Ok)
  have jobs: "spec_ok (bw_lib w) (bw_env w) (boot_policy c (bw_env w)) (reg_spec entry) \<and> key (reg_spec entry) = k"
    if "map_of (jobs (register_all (map spec loaded) scheduler_new)) k = Some entry" for k entry
    using registered_from_load [OF that] load_all_spec_ok [OF boot_load_Ok [OF l(1)]] by auto
  have run: "running (register_all (map spec loaded) scheduler_new) = []"
    by (simp add: register_all_keeps_tasks(2)) (simp add: scheduler_new_def)
  show ?thesis
    using c(1) jobs run creds_passed [of "environment_from_env (bw_env w)" "cred_checks_for c (bw_env w)"]
      posture_passed [of "environment_from_env (bw_env w)" c]
    by (auto simp: Let_def l(2) initial_state_fields gates_Ok refuse_wildcard list_all_iff)
qed

theorem boot_success_is_safe_witness:
  "\<exists>b entry. boot (ex_world ''production'' None) = Some (Ok b) \<and>
     map_of (jobs (scheduler (b_state b))) (key ex_spec) = Some entry \<and> key (reg_spec entry) = key ex_spec"
proof -
  obtain b entry where b: "boot (ex_world ''production'' None) = Some (Ok b)"
    "map_of (jobs (scheduler (b_state b))) (key ex_spec) = Some entry" using ex_boot by blast
  with boot_success_is_safe [OF b(1)] show ?thesis by (auto simp: Let_def)
qed

text \<open>
  C15. What the audit predicts of the boot, on the same configuration and environment. It exits
  with 1 exactly if one of the three configuration gates (credentials, posture, missing token)
  refuses, and the boot then ends with the message of that gate; it exits with 0 exactly if the gates
  pass, and the boot is then the rest of the start-up; it panics exactly if the boot does. The gates
  are not all the refusals the documentation names: outside \<open>Dev\<close>, with the gates passed, a
  YAML file under the job directory whose path matches a dev-fixture pattern makes every boot end with
  an error, and the audit, which does not load the jobs, exits with 0.
\<close>

theorem doctor_predicts_gates:
  assumes "load_or_default (bw_fs w) (bw_yaml w) (bw_args w) (bw_env w) = Ok (c, src)"
  shows "let audit = cli_entry (bw_debug w) (bw_fs w) (bw_yaml w) (bw_args w) (bw_env w) (bw_disk w) in
    (audit = None \<longleftrightarrow> boot w = None) \<and>
    ((\<exists>out. audit = Some (Ok (out, 1))) \<longleftrightarrow> (\<exists>m. gates c (bw_env w) = Some (Err m))) \<and>
    (\<forall>m. gates c (bw_env w) = Some (Err m) \<longrightarrow> boot w = Some (Err (Refusal m))) \<and>
    ((\<exists>out. audit = Some (Ok (out, 0))) \<longleftrightarrow> gates c (bw_env w) = Some (Ok ())) \<and>
    (gates c (bw_env w) = Some (Ok ()) \<longrightarrow> boot w = Some (start_up w c)) \<and>
    (\<forall>node p f. gates c (bw_env w) = Some (Ok ()) \<and> environment_from_env (bw_env w) \<noteq> Dev \<and>
       bw_disk w (dsl_path c) = Some node \<and> Ok (p, f) \<in> set (visits (dsl_path c) node) \<and> is_yaml p \<and>
       dev_fixture_pattern (path_display p) \<noteq> None \<longrightarrow>
       (\<exists>out. audit = Some (Ok (out, 0))) \<and> (\<exists>e. boot w = Some (Err e)))"
proof -
  let ?audit = "cli_entry (bw_debug w) (bw_fs w) (bw_yaml w) (bw_args w) (bw_env w) (bw_disk w)"
  obtain f where f: "?audit = map_option (\<lambda>rep. Ok (f rep, exit_code rep))
        (run (bw_debug w) c (bw_env w) (bw_disk w (dsl_path c)) (environment_from_env (bw_env w)))"
    using cli_entry_config [OF assms] by blast
  have boot: "boot w = map_option (\<lambda>g. and_then (map_err Refusal g) (\<lambda>_. start_up w c)) (gates c (bw_env w))"
    using assms by (simp add: boot_def)
  have none: "?audit = None \<longleftrightarrow> gates c (bw_env w) = None" using run_None by (simp add: f)
  note run = run_exit_gates [of "bw_debug w" c "bw_env w"] gates_Err [of c "bw_env w"]
  have codes: "(\<exists>out. ?audit = Some (Ok (out, 1))) \<longleftrightarrow> (\<exists>m. gates c (bw_env w) = Some (Err m))"
    "(\<exists>out. ?audit = Some (Ok (out, 0))) \<longleftrightarrow> gates c (bw_env w) = Some (Ok ())"
    using none run by (auto simp: f)
  have fixture: "\<exists>e. boot w = Some (Err e)"
    if g: "gates c (bw_env w) = Some (Ok ())" and "environment_from_env (bw_env w) \<noteq> Dev"
      and "bw_disk w (dsl_path c) = Some node" "Ok (p, f) \<in> set (visits (dsl_path c) node)"
      and "is_yaml p" "dev_fixture_pattern (path_display p) \<noteq> None" for node p f
    using fixture_fails_start_up [OF that] g by (auto simp: boot)
  show ?thesis using none codes fixture by (auto simp: Let_def boot map_err_def)
qed

theorem doctor_predicts_gates_witness:
  "\<exists>out. cli_entry id (\<lambda>_. Some (Ok [])) (\<lambda>_. Ok (ex_config (Some \<lparr>db_url = [], password_env = ''DB_PW''\<rparr>)))
     [''cronmanager''] (ex_env ''production'') (\<lambda>_. Some ex_tree) = Some (Ok (out, 1))"
proof -
  let ?db = "Some \<lparr>db_url = [], password_env = ''DB_PW''\<rparr>" and ?e = "''production''"
  have weak: "is_weak \<lparr>cred_context = ''database'', cred_field = ''password'', cred_value = [], min_len = 12\<rparr> = Some Empty"
    by code_simp
  have checks: "set (cred_checks_for (ex_config ?db) (ex_env ?e)) =
      {\<lparr>cred_context = ''admin'', cred_field = ''token'',
        cred_value = ''x9KqPz77LmVtx9KqPz77LmVtx9KqPz77LmVt'', min_len = 32\<rparr>,
       \<lparr>cred_context = ''database'', cred_field = ''password'', cred_value = [], min_len = 12\<rparr>}"
    by (simp add: cred_checks_for_def ex_token) (simp add: ex_config_def ex_env_def)
  have "\<exists>m. enforce_creds Production (cred_checks_for (ex_config ?db) (ex_env ?e)) = Some (Err m)"
    by (rule cg.gate_refuses [where c = "\<lparr>cred_context = ''database'', cred_field = ''password'', cred_value = [], min_len = 12\<rparr>"])
      (simp_all add: checks weak ex_token_strong, simp add: redact_def trim_def trim_chars_def)
  then have "\<exists>m. gates (ex_config ?db) (ex_env ?e) = Some (Err m)"
    by (auto simp: gates_def Let_def ex_environment result_simps)
  with doctor_predicts_gates [OF ex_world_config [of ?e ?db]] show ?thesis
    by (simp add: Let_def ex_world_def)
qed

text \<open>
  C39. What the audit does not predict: with a database configured and its password variable
  unset, and the gates passed, it exits with 0, while the boot ends with an error.
\<close>

theorem doctor_passes_failing_boot:
  assumes "load_or_default (bw_fs w) (bw_yaml w) (bw_args w) (bw_env w) = Ok (c, src)"
    and "gates c (bw_env w) = Some (Ok ())" and "database c = Some db" and "bw_env w (password_env db) = None"
  shows "(\<exists>out. cli_entry (bw_debug w) (bw_fs w) (bw_yaml w) (bw_args w) (bw_env w) (bw_disk w) = Some (Ok (out, 0))) \<and>
    (\<exists>e. boot w = Some (Err (App e)))"
proof -
  obtain f where f: "cli_entry (bw_debug w) (bw_fs w) (bw_yaml w) (bw_args w) (bw_env w) (bw_disk w) =
      map_option (\<lambda>rep. Ok (f rep, exit_code rep))
        (run (bw_debug w) c (bw_env w) (bw_disk w (dsl_path c)) (environment_from_env (bw_env w)))"
    using cli_entry_config [OF assms(1)] by blast
  obtain rep where rep:
    "run (bw_debug w) c (bw_env w) (bw_disk w (dsl_path c)) (environment_from_env (bw_env w)) = Some rep"
    using assms(2) run_None by (metis not_None_eq)
  have "start_up w c = Err (App (Internal (''env var '' @ password_env db @ '' is unset but database.url is configured'')))"
    using assms(3,4) by (simp add: start_up_def database_dsn_def ok_or_def and_then_def map_err_def)
  then have "boot w = Some (Err (App (Internal (''env var '' @ password_env db @ '' is unset but database.url is configured''))))"
    using assms(1,2) by (simp add: boot_def map_err_def)
  with run_exit_gates(2) [OF rep] assms(2) show ?thesis by (auto simp: f rep)
qed

theorem doctor_passes_failing_boot_witness:
  "\<exists>out. cli_entry id (\<lambda>_. Some (Ok [])) (\<lambda>_. Ok (ex_config (Some \<lparr>db_url = [], password_env = ''DB_PW''\<rparr>)))
     [''cronmanager''] (ex_env ''dev'') (\<lambda>_. Some ex_tree) = Some (Ok (out, 0))"
proof -
  let ?db = "\<lparr>db_url = [], password_env = ''DB_PW''\<rparr>" and ?e = "''dev''"
  have "is_weak \<lparr>cred_context = ''database'', cred_field = ''password'', cred_value = [], min_len = 12\<rparr> = Some Empty"
    "redact (trim []) = Some ''****''" by code_simp+
  then have "enforce_creds Dev (cred_checks_for (ex_config (Some ?db)) (ex_env ?e)) = Some (Ok ())"
    by (intro cg.gate_dev) (simp add: cred_checks_for_def ex_token ex_token_strong, simp add: ex_config_def ex_env_def)
  then have "gates (ex_config (Some ?db)) (ex_env ?e) = Some (Ok ())"
    by (simp add: gates_Ok ex_environment ex_posture refuse_wildcard ex_token)
  with doctor_passes_failing_boot [OF ex_world_config [of ?e "Some ?db"], of ?db] show ?thesis
    by (simp add: ex_world_def) (simp add: ex_config_def ex_env_def)
qed



text \<open>
  C40. When the boot panics: exactly if the configuration loads and some credential of it, the
  admin token or the database password, is weak, has more than four bytes once
  trimmed, and has a character across the cut after its second byte or before its last two. The
  redaction of the credential then slices inside a character. The environment does not matter: the gate
  redacts every weak credential before it looks at the environment, in \<open>Dev\<close> too.
\<close>

theorem boot_panics_iff:
  "boot w = None \<longleftrightarrow>
     (\<exists>c src k. load_or_default (bw_fs w) (bw_yaml w) (bw_args w) (bw_env w) = Ok (c, src) \<and>
        k \<in> set (cred_checks_for c (bw_env w)) \<and> is_weak k \<noteq> None \<and>
        (let v = trim (cred_value k) in 4 < length v \<and> \<not> (is_char_boundary v 2 \<and> is_char_boundary v (length v - 2))))"
proof -
  have creds: "enforce_creds e cs = None \<longleftrightarrow>
      (\<exists>k\<in>set cs. is_weak k \<noteq> None \<and> redact (trim (cred_value k)) = None)" for e cs
    using cred_failures_total [of cs] by (auto simp: enforce_creds_def)
  have red: "redact v = None \<longleftrightarrow> 4 < length v \<and> \<not> (is_char_boundary v 2 \<and> is_char_boundary v (length v - 2))" for v
    by (simp add: redact_panics_iff)
  show ?thesis
  proof (cases "load_or_default (bw_fs w) (bw_yaml w) (bw_args w) (bw_env w)")
    case (Inr cs)
    obtain c src where cs: "cs = (c, src)" by (cases cs)
    have "boot w = None \<longleftrightarrow> (\<exists>k\<in>set (cred_checks_for c (bw_env w)). is_weak k \<noteq> None \<and> redact (trim (cred_value k)) = None)"
      using Inr cs by (simp add: boot_def gates_None creds)
    then show ?thesis unfolding Inr cs red Let_def by blast
  qed (simp add: boot_def)
qed

theorem boot_panics_iff_witness:
  "boot ((ex_world ''dev'' (Some \<lparr>db_url = [], password_env = ''DB_PW''\<rparr>))
     \<lparr>bw_env := (ex_env ''dev'')(''DB_PW'' \<mapsto> [CHR 0xE2, CHR 0x82, CHR 0xAC, CHR 0x31, CHR 0x32])\<rparr>) = None"
proof -
  let ?db = "\<lparr>db_url = [], password_env = ''DB_PW''\<rparr>" and ?pw = "[CHR 0xE2, CHR 0x82, CHR 0xAC, CHR 0x31, CHR 0x32]"
  let ?w = "(ex_world ''dev'' (Some ?db))\<lparr>bw_env := (ex_env ''dev'')(''DB_PW'' \<mapsto> ?pw)\<rparr>"
  let ?k = "\<lparr>cred_context = ''database'', cred_field = ''password'', cred_value = ?pw, min_len = 12\<rparr>"
  have "load_or_default (bw_fs ?w) (bw_yaml ?w) (bw_args ?w) (bw_env ?w) = Ok (ex_config (Some ?db), Some ''./cronmanager.yaml'')"
    by (simp add: load_or_default_def config_search_paths_def ex_world_def ex_env_def reject_jvm_wrappers_def str_lines_def)
  moreover have "?k \<in> set (cred_checks_for (ex_config (Some ?db)) (bw_env ?w))" by (simp add: cred_checks_for_def ex_config_def)
  moreover have "is_weak ?k \<noteq> None" "trim ?pw = ?pw" "\<not> is_char_boundary ?pw 2" by code_simp+
  ultimately show ?thesis by (subst boot_panics_iff) (force simp: Let_def)
qed

subsection \<open>Redaction\<close>

lemma takeWhile_colon: "CHR '':'' \<notin> set u \<Longrightarrow> takeWhile (\<lambda>c. c \<noteq> CHR '':'') (u @ CHR '':'' # v) = u"
  by (induction u) auto

lemma redact_shape:
  assumes "CHR '':'' \<notin> set sch" and "sch \<noteq> ''jdbc''" and "CHR ''@'' \<notin> set u"
  shows "redact_password (sch @ ''://'' @ u @ ''@'' @ tail) =
    sch @ ''://'' @ takeWhile (\<lambda>c. c \<noteq> CHR '':'') u @ '':***@'' @ tail"
proof -
  let ?dsn = "sch @ ''://'' @ u @ ''@'' @ tail"
  have "\<not> prefix ''jdbc:'' ?dsn"
  proof
    assume "prefix ''jdbc:'' ?dsn"
    then obtain r where r: "sch @ ''://'' @ u @ ''@'' @ tail = ''jdbc'' @ '':'' @ r" by (auto simp: prefix_def)
    then have "takeWhile (\<lambda>c. c \<noteq> CHR '':'') (sch @ ''://'' @ u @ ''@'' @ tail) =
        takeWhile (\<lambda>c. c \<noteq> CHR '':'') (''jdbc'' @ '':'' @ r)" by (rule arg_cong)
    with assms(1,2) show False by (simp add: takeWhile_colon)
  qed
  then have j: "strip_prefix_str ''jdbc:'' ?dsn = None" by (simp add: strip_prefix_str_def)
  have "find_byte (CHR ''@'') (u @ ''@'' @ tail) = Some (length u)"
    using find_byte_append [OF assms(3)] by simp
  with j cut_scheme [OF assms(1), of "u @ ''@'' @ tail"] show ?thesis
    by (simp add: redact_password_def Let_def cut_user)
qed

text \<open>
  C38. Log redaction of the database URL: for a user name without an at sign the logged text is
  the same for every password. With an at sign in the user name it cuts at the first one,
  unlike the splicing, which cuts at the last, and the logged text ends in the encoded
  password and the host.
\<close>

theorem redact_password_hides:
  assumes "CHR '':'' \<notin> set sch" and "sch \<noteq> ''jdbc''" and "CHR ''/'' \<notin> set (user @ ''@'' @ host)"
    and "CHR ''@'' \<notin> set host" and "CHR '':'' \<notin> set user" and "rest_ok rest"
  shows "(CHR ''@'' \<notin> set user \<longrightarrow>
      redact_password (splice_password (sch @ ''://'' @ user @ ''@'' @ host @ rest) pw) =
        sch @ ''://'' @ user @ '':***@'' @ host @ rest) \<and>
    (CHR ''@'' \<in> set user \<longrightarrow>
      suffix (percent_encode pw @ ''@'' @ host @ rest)
        (redact_password (splice_password (sch @ ''://'' @ user @ ''@'' @ host @ rest) pw)))"
proof -
  have no_colon: "takeWhile (\<lambda>c. c \<noteq> CHR '':'') u = u" if "CHR '':'' \<notin> set u" for u
    using that by (auto simp: takeWhile_eq_all_conv)
  have spliced: "splice_password (sch @ ''://'' @ user @ ''@'' @ host @ rest) pw =
      sch @ ''://'' @ user @ '':'' @ percent_encode pw @ ''@'' @ host @ rest"
    using splice_password_with_user [OF assms(1,3,4,6), of pw] no_colon [OF assms(5)] by simp
  have "redact_password (sch @ ''://'' @ (user @ '':'' @ percent_encode pw) @ ''@'' @ host @ rest) =
      sch @ ''://'' @ user @ '':***@'' @ host @ rest" if "CHR ''@'' \<notin> set user"
  proof -
    have "CHR ''@'' \<notin> set (percent_encode pw)" using reserved_not_encoded [of _ pw] by auto
    with that redact_shape [OF assms(1,2), of "user @ '':'' @ percent_encode pw" "host @ rest"] assms(5)
    show ?thesis by (simp add: takeWhile_colon)
  qed
  moreover have "suffix (percent_encode pw @ ''@'' @ host @ rest)
      (redact_password (sch @ ''://'' @ user @ '':'' @ percent_encode pw @ ''@'' @ host @ rest))"
    if at: "CHR ''@'' \<in> set user"
  proof -
    obtain u1 u2 where u: "user = u1 @ ''@'' @ u2" "CHR ''@'' \<notin> set u1"
      using split_list_first [OF at] by auto
    from redact_shape [OF assms(1,2) u(2), of "u2 @ '':'' @ percent_encode pw @ ''@'' @ host @ rest"]
    show ?thesis by (auto simp: u(1) suffix_def)
  qed
  ultimately show ?thesis unfolding spliced by (cases "CHR ''@'' \<in> set user") simp_all
qed

theorem redact_password_hides_witness:
  "redact_password (splice_password ''postgres://cron@db/jobs'' ''hunter2'') = ''postgres://cron:***@db/jobs'' \<and>
   suffix ''hunter2@db/jobs'' (redact_password (splice_password ''postgres://cron@corp@db/jobs'' ''hunter2''))"
proof -
  have enc: "percent_encode ''hunter2'' = ''hunter2''" by code_simp
  show ?thesis
    using redact_password_hides [of "''postgres''" "''cron''" "''db''" "''/jobs''" "''hunter2''"]
      redact_password_hides [of "''postgres''" "''cron@corp''" "''db''" "''/jobs''" "''hunter2''"]
    by (simp add: rest_ok_def enc)
qed

end
