(* ===== verification/Signal.thy ===== *)
theory Signal
  imports Exec_Common
begin

text \<open>
  \<open>src/signal.rs\<close>: the future that ends the server. Each source has whether its handler
  could be installed and when its signal arrives; a source that could not be installed
  waits forever.
\<close>

datatype signal_source = Terminate | CtrlC

record signal_events =
  term_installed :: bool
  term_at :: "nat option"
  ctrl_c_installed :: bool
  ctrl_c_at :: "nat option"
  sig_start :: nat

definition shutdown_signal :: "signal_events \<Rightarrow> signal_source option" where
  "shutdown_signal ev =
     (let terminate = (if term_installed ev then term_at ev else None);
          ctrl_c = (if ctrl_c_installed ev then ctrl_c_at ev else None)
      in select (sig_start ev) [(Terminate, terminate), (CtrlC, ctrl_c)])"

text \<open>
  The server is told to shut down exactly if one of the two signals it could install a
  handler for arrives, and then by the first of them to arrive; without one it runs on.
\<close>

theorem shutdown_resolves:
  "(shutdown_signal ev \<noteq> None \<longleftrightarrow>
      term_installed ev \<and> term_at ev \<noteq> None \<or> ctrl_c_installed ev \<and> ctrl_c_at ev \<noteq> None) \<and>
   (shutdown_signal ev = Some CtrlC \<longrightarrow>
      (\<exists>t. ctrl_c_at ev = Some t \<and> (\<forall>u. term_installed ev \<and> term_at ev = Some u \<longrightarrow> t \<le> u))) \<and>
   (shutdown_signal ev = Some Terminate \<longrightarrow>
      (\<exists>t. term_at ev = Some t \<and> (\<forall>u. ctrl_c_installed ev \<and> ctrl_c_at ev = Some u \<longrightarrow> t \<le> u)))"
proof -
  let ?bs = "[(Terminate, if term_installed ev then term_at ev else None),
    (CtrlC, if ctrl_c_installed ev then ctrl_c_at ev else None)]"
  have none: "shutdown_signal ev = None \<longleftrightarrow> (\<forall>c u. (c, Some u) \<notin> set ?bs)"
    unfolding shutdown_signal_def Let_def select_def using race_None [of "rotate (sig_start ev) ?bs"]
    by (simp only: option.map_disc_iff set_rotate)
  have first: "\<exists>t. (b, Some t) \<in> set ?bs \<and> (\<forall>c u. (c, Some u) \<in> set ?bs \<longrightarrow> t \<le> u)"
    if "shutdown_signal ev = Some b" for b
    using select_Some [of "sig_start ev" ?bs b] that by (simp only: shutdown_signal_def Let_def)
  show ?thesis
  proof (intro conjI impI)
    show "shutdown_signal ev \<noteq> None \<longleftrightarrow>
        term_installed ev \<and> term_at ev \<noteq> None \<or> ctrl_c_installed ev \<and> ctrl_c_at ev \<noteq> None"
      unfolding none by (cases "term_at ev"; cases "ctrl_c_at ev") (auto simp: ex_disj_distrib)
    show "\<exists>t. ctrl_c_at ev = Some t \<and> (\<forall>u. term_installed ev \<and> term_at ev = Some u \<longrightarrow> t \<le> u)"
      if "shutdown_signal ev = Some CtrlC" using first [OF that] by (cases "term_at ev"; cases "ctrl_c_at ev") (auto split: if_splits)
    show "\<exists>t. term_at ev = Some t \<and> (\<forall>u. ctrl_c_installed ev \<and> ctrl_c_at ev = Some u \<longrightarrow> t \<le> u)"
      if "shutdown_signal ev = Some Terminate" using first [OF that] by (cases "term_at ev"; cases "ctrl_c_at ev") (auto split: if_splits)
  qed
qed

theorem shutdown_resolves_witness:
  "shutdown_signal \<lparr>term_installed = True, term_at = Some 5, ctrl_c_installed = False, ctrl_c_at = None, sig_start = 0\<rparr> \<noteq> None"
  using shutdown_resolves [of "\<lparr>term_installed = True, term_at = Some 5, ctrl_c_installed = False, ctrl_c_at = None, sig_start = 0\<rparr>"]
  by simp

end
