(* ===== verification/Progress.thy ===== *)
theory Progress
  imports Scheduler
begin

text \<open>
  What becomes of a task while everything else goes on: how many steps it needs before it rests,
  that a run whose dispatch returns is recorded and freed, and that one whose dispatch does
  not return never is.
\<close>

section \<open>Interleaving\<close>

text \<open>Steps during which a task does not move.\<close>

definition meanwhile :: "http_lib \<Rightarrow> ExecutorBundle \<Rightarrow> nat \<Rightarrow> Scheduler \<Rightarrow> Scheduler \<Rightarrow> bool" where
  "meanwhile lib b i = rtranclp (\<lambda>s s'. sched_step lib b s s' \<and> tasks s' ! i = tasks s ! i)"

lemma meanwhile_keeps:
  assumes "meanwhile lib b i s s'" and "sched_reachable lib b s" and "i < length (tasks s)"
  shows "sched_reachable lib b s' \<and> i < length (tasks s') \<and> tasks s' ! i = tasks s ! i"
  using assms(1) unfolding meanwhile_def
proof (induction rule: rtranclp_induct)
  case (step t u)
  then show ?case using step_other [of lib b t u i] by (auto intro: sched_reachable.onward)
qed (use assms in simp)

lemma hung_steps:
  assumes "rtranclp (sched_step lib b) s s'" and "sched_reachable lib b s"
    and "i < length (tasks s)" and "t_phase (tasks s ! i) = Hung"
  shows "sched_reachable lib b s' \<and> i < length (tasks s') \<and> tasks s' ! i = tasks s ! i"
  using assms(1)
proof (induction rule: rtranclp_induct)
  case (step t u)
  then show ?case using step_other [OF step(2), of i] assms(4) by (auto simp: task_step_def intro: sched_reachable.onward)
qed (use assms in simp)

text \<open>
  How many steps a task has left until it rests, that is waits for its time or has ended,
  and runs in which it takes so many while it does not rest.
\<close>

fun steps_left :: "phase \<Rightarrow> nat" where
  "steps_left Looked = 6"
| "steps_left Begun = 5"
| "steps_left (Dispatching _) = 4"
| "steps_left (Finished _) = 3"
| "steps_left Recorded = 2"
| "steps_left (Skipping _) = 2"
| "steps_left Idle = 1"
| "steps_left _ = 0"

inductive own_steps :: "http_lib \<Rightarrow> ExecutorBundle \<Rightarrow> nat \<Rightarrow> nat \<Rightarrow> Scheduler \<Rightarrow> Scheduler \<Rightarrow> bool"
  for lib b i where
  none: "own_steps lib b i 0 s s"
| wait: "own_steps lib b i n s s' \<Longrightarrow> sched_step lib b s' s'' \<Longrightarrow> tasks s'' ! i = tasks s' ! i \<Longrightarrow> own_steps lib b i n s s''"
| own: "own_steps lib b i n s s' \<Longrightarrow> 0 < steps_left (t_phase (tasks s' ! i)) \<Longrightarrow>
    own_steps lib b i (Suc n) s (task_step lib b world i s')"

section \<open>Progress\<close>

lemma task_step_progress:
  assumes "i < length (tasks s)" and "0 < steps_left (t_phase (tasks s ! i))" and "t_phase (tasks s ! i) = Idle \<longrightarrow> t_loop (tasks s ! i)"
  shows "steps_left (t_phase (tasks (task_step lib b world i s) ! i)) < steps_left (t_phase (tasks s ! i))"
  using assms
  by (cases "t_phase (tasks s ! i)")
    (auto simp: task_step_def Let_def set_phase_def next_wait_def begin_running_def record_skip_def record_outcome_def end_running_def
      split: option.split sum.split prod.split)

text \<open>Only scheduling loops sleep.\<close>

definition loops_ok :: "Scheduler \<Rightarrow> bool" where
  "loops_ok s \<longleftrightarrow> (\<forall>t\<in>set (tasks s). t_loop t \<or> t_phase t \<notin> {Idle} \<union> range Waiting \<union> range Skipping)"

lemma loops_ok_step: "sched_step lib b s s' \<Longrightarrow> loops_ok s \<Longrightarrow> loops_ok s'"
proof (induction rule: sched_step.induct)
  case (ran s world i)
  show ?case
  proof (cases "i < length (tasks s)")
    case True
    then have "t_loop (tasks s ! i) \<or> t_phase (tasks s ! i) \<notin> {Idle} \<union> range Waiting \<union> range Skipping"
      using ran by (simp add: loops_ok_def)
    with True ran show ?thesis
      by (cases "t_phase (tasks s ! i)")
        (auto simp: loops_ok_def task_step_def fire_def Let_def set_phase_def next_wait_def begin_running_def
          record_skip_def record_outcome_def end_running_def
          dest!: set_update_subset_insert [THEN subsetD] split: option.split sum.split prod.split if_splits)
  qed (use ran in \<open>simp add: task_step_def\<close>)
next
  case (inserted s sp)
  then show ?case by (cases "trigger sp") (simp_all add: loops_ok_def spawn_and_insert_def Let_def)
next
  case (stopped k s r s')
  then show ?case by (auto simp: loops_ok_def stop_def split: if_splits option.splits)
qed (auto simp: loops_ok_def unregister_def notify_all_def look_up_def split: option.splits)

lemma reachable_loops_ok: "sched_reachable lib b s \<Longrightarrow> loops_ok s"
  by (induction rule: sched_reachable.induct) (simp add: loops_ok_def scheduler_new_def, rule loops_ok_step)

lemma own_steps_reachable:
  "own_steps lib b i n s s' \<Longrightarrow> sched_reachable lib b s \<Longrightarrow> i < length (tasks s) \<Longrightarrow>
     sched_reachable lib b s' \<and> i < length (tasks s')"
proof (induction rule: own_steps.induct)
  case (wait n s s' s'')
  then show ?case using step_other [of lib b s' s'' i] by (auto intro: sched_reachable.onward)
next
  case (own n s s' world)
  then show ?case using task_step_other(2) [of lib b world i s'] by (auto intro: sched_reachable.onward sched_step.ran)
qed simp

section \<open>Concrete run\<close>

text \<open>The rest of the example run: the dispatch returns, the clock moves on, the outcome is recorded.\<close>

definition ex_recorded :: Scheduler where
  "ex_recorded = ex_step ((ex_step ex_running)\<lparr>clock := 7\<rparr>)"

lemma ex_running_clock: "clock ex_running = 0"
  by (simp add: ex_running_def ex_sched_eval ex_spec_def)

lemma ex_recorded_phases:
  "tasks (ex_step ex_running) = [\<lparr>t_spec = ex_spec, t_state = 0, t_loop = False, t_extras = [],
     t_phase = Finished (the (snd (dispatch ex_http_lib (ex_bundle False) ex_spec [] (\<lambda>_. ex_attempt))))\<rparr>]"
  "tasks ex_recorded = [\<lparr>t_spec = ex_spec, t_state = 0, t_loop = False, t_extras = [], t_phase = Recorded\<rparr>]"
  "clock (ex_step ex_running) = 0"
  using ex_dispatch ex_running_clock
  by (simp_all add: ex_recorded_def ex_step_def task_step_def Let_def set_phase_def ex_running_eval record_outcome_def)

section \<open>Properties\<close>

text \<open>
  C21. A task comes to rest: in every interleaving with the other tasks, with requests, stops, reloads and the clock, a
  task takes at most six steps of its own, and no more than its phase has left, before it
  rests; it then waits for its next fire, has ended, or hangs in a dispatch that does not return. It is
  never at rest because of a panic.
\<close>

theorem task_settles:
  assumes "sched_reachable lib b s" and "i < length (tasks s)" and "own_steps lib b i n s s'"
  shows "n + steps_left (t_phase (tasks s' ! i)) \<le> steps_left (t_phase (tasks s ! i)) \<and> n \<le> 6 \<and>
    (steps_left (t_phase (tasks s' ! i)) = 0 \<longrightarrow> t_phase (tasks s' ! i) \<in> range Waiting \<union> {Done, Hung})"
proof -
  have "n + steps_left (t_phase (tasks s' ! i)) \<le> steps_left (t_phase (tasks s ! i))"
    using assms(3,1,2)
  proof (induction rule: own_steps.induct)
    case (own n s s' world)
    then have r: "sched_reachable lib b s'" "i < length (tasks s')" using own_steps_reachable by blast+
    then have "t_loop (tasks s' ! i) \<or> t_phase (tasks s' ! i) \<noteq> Idle"
      using reachable_loops_ok [OF r(1)] nth_mem [OF r(2)] unfolding loops_ok_def by blast
    then have "steps_left (t_phase (tasks (task_step lib b world i s') ! i)) < steps_left (t_phase (tasks s' ! i))"
      using task_step_progress [OF r(2) own(2)] by blast
    then show ?case using own by simp
  qed simp_all
  moreover have "steps_left p \<le> 6" for p by (cases p) simp_all
  moreover have "t_phase (tasks s' ! i) \<in> range Waiting \<union> {Done, Hung}" if "steps_left (t_phase (tasks s' ! i)) = 0"
  proof -
    have "t_phase (tasks s' ! i) \<noteq> Panicked"
      using reachable_tasks(3) [of lib b s'] own_steps_reachable [OF assms(3,1,2)] by (metis imageI nth_mem)
    then show ?thesis using that by (cases "t_phase (tasks s' ! i)") auto
  qed
  ultimately show ?thesis by (meson add_leD1 le_trans)
qed

theorem task_settles_witness:
  "own_steps ex_http_lib (ex_bundle False) 0 3 ex_running (ex_step ex_recorded) \<and>
   t_phase (tasks (ex_step ex_recorded) ! 0) \<in> range Waiting \<union> {Done, Hung}"
proof -
  let ?o = "own_steps ex_http_lib (ex_bundle False) 0"
  have "?o 1 ex_running (ex_step ex_running)"
    using own_steps.own [OF own_steps.none, of ex_running 0] by (simp add: ex_running_eval ex_step_def)
  then have "?o 1 ex_running ((ex_step ex_running)\<lparr>clock := 7\<rparr>)"
    by (rule own_steps.wait) (simp_all add: sched_step.tick ex_recorded_phases)
  then have "?o (Suc 1) ex_running ex_recorded"
    unfolding ex_recorded_def ex_step_def [of "(ex_step ex_running)\<lparr>clock := 7\<rparr>"]
    by (rule own_steps.own) (simp add: ex_recorded_phases)
  then have "?o (Suc (Suc 1)) ex_running (ex_step ex_recorded)"
    unfolding ex_step_def [of ex_recorded] by (rule own_steps.own) (simp add: ex_recorded_phases)
  then have o: "?o 3 ex_running (ex_step ex_recorded)" by (simp add: numeral_3_eq_3)
  have "t_phase (tasks (ex_step ex_recorded) ! 0) = Done"
    by (simp add: ex_step_def task_step_def ex_recorded_phases Let_def set_phase_def end_running_def)
  then show ?thesis
    using o task_settles [OF ex_running_reachable, of 0 3 "ex_step ex_recorded"] by (simp add: ex_running_eval)
qed

text \<open>
  C22. A run ends cleanly, whatever happens in between: once the dispatch of an active run
  returns, the next step of its task appends the rows of the dispatch to the history, the one after stores the time and the status in
  the job's runtime state, and the one after that frees the running entry, which has been held until
  then; the loop is idle again or the one-shot task has ended.
\<close>

theorem run_completes:
  assumes "sched_reachable lib b s" and "i < length (tasks s)" and "t_phase (tasks s ! i) = Dispatching c"
    and "dispatch lib b (t_spec (tasks s ! i)) (t_extras (tasks s ! i)) world = (rows, Some out)"
    and "s1 = task_step lib b world i s" and "meanwhile lib b i s1 s2"
    and "s3 = task_step lib b world i s2" and "meanwhile lib b i s3 s4"
  shows "let t = tasks s ! i; s5 = task_step lib b world i s4 in
    hist s1 = hist s @ rows \<and>
    states s3 (t_state t) = \<lparr>last_execution_ms = Some (clock s2), last_result = as_str (out_status out)\<rparr> \<and>
    map_of (running s4) (key_of t) \<noteq> None \<and> map_of (running s5) (key_of t) = None \<and>
    t_phase (tasks s5 ! i) = (if t_loop t then Idle else Done)"
proof -
  let ?t = "tasks s ! i"
  have s1: "hist s1 = hist s @ rows" "tasks s1 ! i = ?t\<lparr>t_phase := Finished out\<rparr>" "i < length (tasks s1)"
    using assms(2-5) by (simp_all add: task_step_def Let_def set_phase_def)
  have r1: "sched_reachable lib b s1" unfolding assms(5) using assms(1) sched_step.ran sched_reachable.onward by blast
  have s2: "sched_reachable lib b s2" "i < length (tasks s2)" "tasks s2 ! i = ?t\<lparr>t_phase := Finished out\<rparr>"
    using meanwhile_keeps [OF assms(6) r1 s1(3)] s1(2) by auto
  have s3: "states s3 (t_state ?t) = \<lparr>last_execution_ms = Some (clock s2), last_result = as_str (out_status out)\<rparr>"
    "tasks s3 ! i = ?t\<lparr>t_phase := Recorded\<rparr>" "i < length (tasks s3)"
    using s2 assms(7) by (simp_all add: task_step_def Let_def set_phase_def record_outcome_def)
  have r3: "sched_reachable lib b s3" unfolding assms(7) using s2(1) sched_step.ran sched_reachable.onward by blast
  have s4: "sched_reachable lib b s4" "i < length (tasks s4)" "tasks s4 ! i = ?t\<lparr>t_phase := Recorded\<rparr>"
    using meanwhile_keeps [OF assms(8) r3 s3(3)] s3(2) by auto
  have "active (tasks s4 ! i)" "key_of (tasks s4 ! i) = key_of ?t" by (simp_all add: s4 active_def key_of_def)
  then have "map_of (running s4) (key_of ?t) \<noteq> None" using reachable_tasks(1) [OF s4(1)] s4(2) nth_mem by blast
  then show ?thesis using s1(1) s3(1) s4 by (simp add: task_step_def Let_def set_phase_def end_running_def key_of_def)
qed

theorem run_completes_witness:
  "map_of (running ex_recorded) (key ex_spec) \<noteq> None \<and> map_of (running (ex_step ex_recorded)) (key ex_spec) = None \<and>
   states ex_recorded 0 = \<lparr>last_execution_ms = Some 7, last_result = ''SUCCESS''\<rparr>"
proof -
  have "0 < length (tasks ex_running)" "t_phase (tasks ex_running ! 0) = Dispatching 1"
    by (simp_all add: ex_running_eval)
  moreover have "meanwhile ex_http_lib (ex_bundle False) 0 (ex_step ex_running) ((ex_step ex_running)\<lparr>clock := 7\<rparr>)"
    unfolding meanwhile_def by (intro r_into_rtranclp conjI sched_step.tick) (simp_all add: ex_recorded_phases)
  moreover have "meanwhile ex_http_lib (ex_bundle False) 0 ex_recorded ex_recorded" by (simp add: meanwhile_def)
  ultimately show ?thesis
    using run_completes [OF ex_running_reachable, of 0 1 "\<lambda>_. ex_attempt" _ _ "ex_step ex_running"
        "(ex_step ex_running)\<lparr>clock := 7\<rparr>" ex_recorded ex_recorded] ex_dispatch
    by (simp add: ex_running_eval ex_step_def ex_recorded_def key_of_def Let_def)
qed

text \<open>
  C34. A run that hangs blocks its job for good: once the dispatch of a run does not return,
  no later sequence of fires, triggers, stops, reloads and task steps moves its task or
  frees its running entry, every trigger of the job is refused and no other task of the
  job becomes active.
\<close>

theorem hung_run_blocks:
  assumes "sched_reachable lib b s" and "i < length (tasks s)" and "t_phase (tasks s ! i) = Dispatching c"
    and "dispatch lib b (t_spec (tasks s ! i)) (t_extras (tasks s ! i)) world = (rows, None)"
    and "rtranclp (sched_step lib b) (task_step lib b world i s) s'"
  shows "let k = key_of (tasks s ! i) in
    t_phase (tasks s' ! i) = Hung \<and> map_of (running s') k \<noteq> None \<and>
    (\<exists>e. trigger_now k extras s' = Some (Err e)) \<and>
    (\<forall>j. j < length (tasks s') \<and> j \<noteq> i \<and> key_of (tasks s' ! j) = k \<longrightarrow> \<not> active (tasks s' ! j))"
proof -
  let ?k = "key_of (tasks s ! i)" and ?s = "task_step lib b world i s"
  have "?s = set_phase i Hung (s\<lparr>hist := hist s @ rows\<rparr>)"
    using assms(2-4) by (simp add: task_step_def Let_def)
  then have hung: "i < length (tasks ?s)" "t_phase (tasks ?s ! i) = Hung" "key_of (tasks ?s ! i) = ?k"
    using assms(2) by (simp_all add: key_of_def)
  have "sched_reachable lib b ?s" by (rule sched_reachable.onward [OF assms(1) ran])
  then have later: "sched_reachable lib b s'" "i < length (tasks s')" "tasks s' ! i = tasks ?s ! i"
    using hung_steps [OF assms(5) _ hung(1,2)] by blast+
  have act: "active (tasks s' ! i)" "key_of (tasks s' ! i) = ?k"
    using later(3) hung(2,3) active_phases(5) by simp_all
  then have run: "map_of (running s') ?k \<noteq> None"
    and one: "j < length (tasks s') \<Longrightarrow> active (tasks s' ! j) \<Longrightarrow> key_of (tasks s' ! j) = ?k \<Longrightarrow> j = i" for j
    using reachable_inv [OF later(1)] later(2) unfolding sched_inv_def guard_inv_def by metis+
  have "\<exists>e. trigger_now ?k extras s' = Some (Err e)"
    using run by (auto simp: trigger_now_def begin_running_def simp del: map_of_eq_None_iff split: option.split)
  then show ?thesis using run one later(3) hung(2) by (auto simp: Let_def)
qed

theorem hung_run_blocks_witness:
  "\<exists>e. trigger_now (key ex_spec) []
     (task_step ex_http_lib (ex_bundle False) (\<lambda>_. ex_attempt_open) 0 ex_running) = Some (Err e)"
proof -
  have "0 < length (tasks ex_running)" "t_phase (tasks ex_running ! 0) = Dispatching 1"
    "dispatch ex_http_lib (ex_bundle False) (t_spec (tasks ex_running ! 0)) (t_extras (tasks ex_running ! 0))
       (\<lambda>_. ex_attempt_open) = ([], None)"
    by (simp_all add: ex_running_eval ex_dispatch_open)
  from hung_run_blocks [OF ex_running_reachable this rtranclp.rtrancl_refl]
  show ?thesis by (simp add: ex_running_eval key_of_def Let_def)
qed

end
