(* ===== verification/Authority.thy ===== *)
theory Authority
  imports Router
begin

text \<open>
  What a group token entitles to: the composition of the admin gate, which reads the group
  from the raw path (\<open>extract_group_from_path\<close>), with the \<open>/execute\<close> and \<open>/stop\<close> handlers, which
  take it from the parameters the framework extracts and decodes.
\<close>

section \<open>What the framework promises\<close>

text \<open>
  The documented behaviour of the router crate on the three patterns of the state-changing
  routes, and of the percent-decoding of parameters, as far as it is needed: a parameter is
  one whole, non-empty segment of the path, and decoding changes only parameters with a percent sign.
\<close>

definition segment_params :: "web_lib \<Rightarrow> string \<Rightarrow> bool" where
  "segment_params lib w \<longleftrightarrow>
     (\<forall>ps p raw. match_path lib ps p = Some (''/'' @ w @ ''/:group/:job'', raw) \<longrightarrow>
        (\<exists>g j. raw = [g, j] \<and> p = ''/'' @ w @ ''/'' @ g @ ''/'' @ j \<and> g \<noteq> [] \<and> CHR ''/'' \<notin> set g))"

definition path_laws :: "web_lib \<Rightarrow> bool" where
  "path_laws lib \<longleftrightarrow>
     segment_params lib ''execute'' \<and> segment_params lib ''stop'' \<and>
     (\<forall>ps p raw. match_path lib ps p = Some (''/reload/:group'', raw) \<longrightarrow> prefix ''/reload/'' p) \<and>
     (\<forall>g j ps. decode_params lib [g, j] = Some ps \<longrightarrow> CHR ''%'' \<notin> set g \<longrightarrow> (\<exists>j'. ps = [g, j']))"

section \<open>Paths\<close>

lemma extract_group_of_path:
  assumes "w \<in> {''execute'', ''stop''}" and "CHR ''/'' \<notin> set g" and "g \<noteq> []"
  shows "extract_group_from_path (''/'' @ w @ ''/'' @ g @ ''/'' @ j) = Some g"
proof -
  have "CHR ''/'' \<notin> set w" using assms(1) by auto
  then have "split_on (CHR ''/'') (w @ ''/'' @ g @ ''/'' @ j) = w # g # split_on (CHR ''/'') j"
    using split_on_Cons [of "CHR ''/''" w] split_on_Cons [OF assms(2)] by simp
  then show ?thesis using assms by (auto simp: extract_group_from_path_def strip_prefix_str_def Let_def)
qed

section \<open>Handlers\<close>

text \<open>A scheduler that differs from another only in one group.\<close>

definition only_group :: "string \<Rightarrow> Scheduler \<Rightarrow> Scheduler \<Rightarrow> bool" where
  "only_group g s s' \<longleftrightarrow>
     jobs s' = jobs s \<and>
     (\<forall>k. group k \<noteq> g \<longrightarrow> map_of (running s') k = map_of (running s) k) \<and>
     (\<exists>ts. tasks s' = tasks s @ ts \<and> (\<forall>t\<in>set ts. group (key_of t) = g)) \<and>
     (\<exists>cs. notified s' = notified s @ cs \<and>
        (\<forall>c\<in>set cs. \<exists>k inst. map_of (running s) k = Some inst \<and> group k = g \<and> inst_cancel inst = c))"

lemma only_group_refl [simp]: "only_group g s s"
  by (simp add: only_group_def)

lemma trigger_now_only_group:
  assumes "trigger_now k extras s = Some (Ok s')" and "keys_ok s"
  shows "only_group (group k) s s'"
  using assms
  by (auto simp: trigger_now_def begin_running_def only_group_def key_of_def keys_ok_def
      simp del: map_of_eq_None_iff split: option.splits if_splits)

lemma stop_only_group:
  assumes "stop k s = Ok (r, s')"
  shows "only_group (group k) s s'"
  using assms by (fastforce simp: stop_def only_group_def split: option.splits if_splits)

lemma decoded_group:
  "path_laws lib \<Longrightarrow> decode_params lib [g, j] = Some ps \<Longrightarrow> CHR ''%'' \<notin> set g \<Longrightarrow> \<exists>j'. ps = [g, j']"
  unfolding path_laws_def by blast

lemma execute_job_only_group:
  assumes "execute_job st g j pairs = Some (st', r)" and "keys_ok (scheduler st)"
  shows "only_group g (scheduler st) (scheduler st') \<and> reload_gate st' = reload_gate st"
  using assms trigger_now_only_group [of "job_key g j" pairs "scheduler st"]
  by (auto simp: execute_job_def bounded_query_def Let_def job_key_def split: option.splits sum.splits if_splits)

lemma stop_job_only_group:
  "only_group g (scheduler st) (scheduler (fst (stop_job st g j))) \<and> reload_gate (fst (stop_job st g j)) = reload_gate st"
  using stop_only_group [of "job_key g j"] by (auto simp: stop_job_def job_key_def split: sum.split prod.split)

lemma run_handler_only_group:
  assumes run: "run_handler lib ev st h [g, j] req = Some (st', r)" and h: "h \<in> {ExecuteJob, StopJob}"
    and laws: "path_laws lib" "CHR ''%'' \<notin> set g" and keys: "keys_ok (scheduler st)"
  shows "only_group g (scheduler st) (scheduler st') \<and> reload_gate st' = reload_gate st"
proof (cases "decode_params lib [g, j]")
  case None
  with run h show ?thesis by (auto simp: run_handler_def with_path_def)
next
  case (Some ps)
  with laws obtain j' where ps: "ps = [g, j']" using decoded_group by blast
  show ?thesis
    using run h Some ps execute_job_only_group [OF _ keys, of g j'] stop_job_only_group [of g st j']
    by (auto simp: run_handler_def with_path_def param_def case_prod_beta)
qed

text \<open>The pattern behind a state-changing handler.\<close>

lemma state_patterns:
  "r \<in> set (routes c) \<Longrightarrow> (r_handler r = ExecuteJob \<longrightarrow> r_pattern r = ''/execute/:group/:job'') \<and>
     (r_handler r = StopJob \<longrightarrow> r_pattern r = ''/stop/:group/:job'') \<and>
     (r_handler r = ReloadJobs \<longrightarrow> r_pattern r = ''/reload/:group'')"
  by (auto simp: routes_def public_routes_def admin_routes_def jobs_routes_def running_routes_def split: if_splits)

lemma resolve_pattern:
  assumes "resolve lib st req = Ok (h, raw)"
  obtains r where "r \<in> set (routes (cfg st))" "r_handler r = h"
    "match_path lib (map r_pattern (routes (cfg st))) (uri_path req) = Some (r_pattern r, raw)"
proof -
  obtain pat r where "match_path lib (map r_pattern (routes (cfg st))) (uri_path req) = Some (pat, raw)"
    "List.find (\<lambda>r. r_pattern r = pat) (routes (cfg st)) = Some r" "r_handler r = h"
    using assms by (auto simp: resolve_def split: option.splits sum.splits if_splits)
  then show ?thesis using that [of r] by (auto simp: find_Some_iff)
qed

lemma match_reload:
  "path_laws lib \<Longrightarrow> match_path lib ps p = Some (''/reload/:group'', raw) \<Longrightarrow> prefix ''/reload/'' p"
  unfolding path_laws_def by blast

lemma resolve_reload:
  assumes "resolve lib st req = Ok (ReloadJobs, raw)" and "path_laws lib"
  shows "prefix ''/reload/'' (uri_path req)"
proof -
  obtain r where "r \<in> set (routes (cfg st))" "r_handler r = ReloadJobs"
    "match_path lib (map r_pattern (routes (cfg st))) (uri_path req) = Some (r_pattern r, raw)"
    using resolve_pattern [OF assms(1)] by blast
  then show ?thesis using match_reload [OF assms(2)] state_patterns [of r "cfg st"] by simp
qed

lemma resolve_group:
  assumes "resolve lib st req = Ok (h, raw)" and "path_laws lib" and "h \<in> {ExecuteJob, StopJob}"
  obtains g j where "raw = [g, j]" "extract_group_from_path (uri_path req) = Some g"
proof -
  obtain r where r: "r \<in> set (routes (cfg st))" "r_handler r = h"
    "match_path lib (map r_pattern (routes (cfg st))) (uri_path req) = Some (r_pattern r, raw)"
    using resolve_pattern [OF assms(1)] by blast
  define w where "w = (if h = StopJob then ''stop'' else ''execute'')"
  have w: "w \<in> {''execute'', ''stop''}" by (simp add: w_def)
  have "r_pattern r = ''/'' @ w @ ''/:group/:job''"
    using r(1,2) assms(3) state_patterns [of r "cfg st"] by (auto simp: w_def)
  moreover have "segment_params lib w" using assms(2) by (simp add: path_laws_def w_def)
  ultimately obtain g j where "raw = [g, j]" "uri_path req = ''/'' @ w @ ''/'' @ g @ ''/'' @ j" "g \<noteq> []" "CHR ''/'' \<notin> set g"
    using r(3) unfolding segment_params_def by metis
  then show ?thesis using that extract_group_of_path [OF w] by metis
qed

section \<open>Concrete requests\<close>

text \<open>A matcher that works on the segments of the path, and a decoder that refuses every percent sign.\<close>

definition ex_match_path :: "string \<Rightarrow> (string \<times> string list) option" where
  "ex_match_path p =
     (case split_on (CHR ''/'') p of
        [e, w, g, j] \<Rightarrow>
          if e = [] \<and> w \<in> {''execute'', ''stop''} \<and> g \<noteq> [] \<and> j \<noteq> [] then Some (''/'' @ w @ ''/:group/:job'', [g, j]) else None
      | [e, w, g] \<Rightarrow> if e = [] \<and> w = ''reload'' \<and> g \<noteq> [] then Some (''/reload/:group'', [g]) else None
      | _ \<Rightarrow> None)"

definition ex_path_lib :: web_lib where
  "ex_path_lib = (ex_web_lib [])\<lparr>match_path := \<lambda>_. ex_match_path,
     decode_params := \<lambda>ps. if list_all (\<lambda>p. CHR ''%'' \<notin> set p) ps then Some ps else None\<rparr>"

lemma ex_match_pair:
  assumes "ex_match_path p = Some (''/'' @ w @ ''/:group/:job'', raw)"
  shows "\<exists>g j. raw = [g, j] \<and> p = ''/'' @ w @ ''/'' @ g @ ''/'' @ j \<and> g \<noteq> [] \<and> CHR ''/'' \<notin> set g"
proof -
  obtain g j where s: "split_on (CHR ''/'') p = [[], w, g, j]" "raw = [g, j]" "g \<noteq> []"
    using assms by (auto simp: ex_match_path_def split: list.splits if_splits)
  then show ?thesis
    using str_join_split_on [of "CHR ''/''" p] split_on_no_sep [of g "CHR ''/''" p] by simp
qed

lemma ex_match_reload:
  assumes "ex_match_path p = Some (''/reload/:group'', raw)"
  shows "prefix ''/reload/'' p"
proof -
  obtain g where "split_on (CHR ''/'') p = [[], ''reload'', g]"
    using assms by (auto simp: ex_match_path_def split: list.splits if_splits)
  then show ?thesis using str_join_split_on [of "CHR ''/''" p] by auto
qed

lemma ex_segment_params: "segment_params ex_path_lib w"
  unfolding segment_params_def using ex_match_pair by (simp add: ex_path_lib_def)

lemma ex_path_laws: "path_laws ex_path_lib"
  using ex_match_reload by (simp add: path_laws_def ex_segment_params) (auto simp: ex_path_lib_def)

section \<open>Requests under a group token\<close>

lemma deadline_layer_confined:
  assumes laws: "path_laws lib" and keys: "keys_ok (scheduler st)"
    and tok: "admin_token st = Some master" "presented_token (w_headers lib) req = Some tok" "tok \<noteq> master"
    and plain: "list_all (\<lambda>(g, _). CHR ''%'' \<notin> set g) (per_group_tokens st)"
    and serve: "deadline_layer lib ev st req = Some (st', r)" "st' \<noteq> st"
  shows "prefix ''/reload/'' (uri_path req) \<or>
    (\<exists>g. map_of (per_group_tokens st) g = Some tok \<and> only_group g (scheduler st) (scheduler st') \<and>
       reload_gate st' = reload_gate st)"
proof (cases "\<exists>raw. resolve lib st req = Ok (ReloadJobs, raw)")
  case True
  then show ?thesis using resolve_reload laws by blast
next
  case False
  then have "awaiting lib ev st req = None" by (auto simp: awaiting_def split: option.split sum.split handler.split)
  with serve obtain r' where "route_request lib ev st req = Some (st', r')"
    by (auto simp: deadline_layer_def split: if_splits)
  with serve(2) obtain h raw where res: "resolve lib st req = Ok (h, raw)"
    and run: "run_handler lib ev st h raw req = Some (st', r')"
    by (auto simp: route_request_def split: option.splits sum.splits)
  have h: "h \<in> {ExecuteJob, StopJob}" using run_handler_total [of lib ev st h raw req] run serve(2) False res by auto
  obtain g j where g: "raw = [g, j]" "extract_group_from_path (uri_path req) = Some g"
    using resolve_group [OF res laws h] by blast
  obtain rt where "rt \<in> set (routes (cfg st))" "r_handler rt = h" "gated lib (r_gated rt) st req = Ok ()"
    using resolve_route [OF res] by blast
  then have "admin_gate (w_headers lib) st req = Ok ()" using h state_routes_gated [of rt "cfg st"] by (auto simp: gated_def)
  then have m: "map_of (per_group_tokens st) g = Some tok"
    using tok g by (auto simp: admin_gate_def Let_def split: option.splits if_splits)
  then have "CHR ''%'' \<notin> set g" using plain by (auto dest: map_of_SomeD simp: list_all_iff)
  with run_handler_only_group [OF run [unfolded g] h laws _ keys] m show ?thesis by blast
qed

section \<open>Properties\<close>

text \<open>
  C5. A group token reaches no further than its group, apart from reloads: suppose a master
  token is configured, a request presents another token, and no configured group name
  contains a percent sign. If serving it changes the state, then either its path starts with \<open>/reload/\<close>,
  or the token presented is that of some group, and the request has touched that group only: the
  registered jobs are the same, the entries of other groups in the table of running jobs are the same,
  every task it started belongs to the group, every cancel signal it sent is that of a running job of the group, and
  the reload throttle is as before.
\<close>

theorem group_token_confined:
  assumes "path_laws lib" and "sched_reachable hl b (scheduler st)"
    and "admin_token st = Some master" and "presented_token (w_headers lib) req = Some tok" and "tok \<noteq> master"
    and "list_all (\<lambda>(g, _). CHR ''%'' \<notin> set g) (per_group_tokens st)"
    and "serve lib ev st req = Some (st', r)" and "st' \<noteq> st"
  shows "prefix ''/reload/'' (uri_path req) \<or>
    (\<exists>g. map_of (per_group_tokens st) g = Some tok \<and> only_group g (scheduler st) (scheduler st') \<and>
       reload_gate st' = reload_gate st)"
proof -
  obtain r' where "deadline_layer lib ev st req = Some (st', r')"
    using assms(7,8) by (auto simp: serve_def split: option.splits)
  from deadline_layer_confined [OF assms(1) reachable_keys_ok [OF assms(2)] assms(3-6) this assms(8)] show ?thesis .
qed

lemma ex_stop_served_by_path:
  "\<exists>r. serve ex_path_lib ex_web_events ex_app (ex_request ''/stop/jobs/ping'') =
     Some (ex_app\<lparr>scheduler := ex_running\<lparr>notified := [1]\<rparr>\<rparr>, r)"
proof -
  let ?req = "ex_request ''/stop/jobs/ping''"
  have stop: "stop (job_key ''jobs'' ''ping'') ex_running = Ok (True, ex_running\<lparr>notified := [1]\<rparr>)"
    by (simp add: stop_def ex_running_def ex_sched_eval ex_spec_def job_key_def)
  have gate: "admin_gate (w_headers ex_path_lib) ex_app ?req = Ok ()"
    using ex_presented ex_app_fields ex_paths by (simp add: admin_gate_def Let_def ex_path_lib_def ex_web_lib_def ex_request_def)
  have m: "match_path ex_path_lib ps (uri_path ?req) = Some (''/stop/:group/:job'', [''jobs'', ''ping''])" for ps
    by (simp add: ex_path_lib_def ex_request_def ex_match_path_def)
  have "resolve ex_path_lib ex_app ?req = Ok (StopJob, [''jobs'', ''ping''])"
    using gate m
    by (simp add: resolve_def routes_def public_routes_def admin_routes_def jobs_routes_def
        running_routes_def ex_app_fields ex_config_fields gated_def ex_match(2))
  then have "route_request ex_path_lib ex_web_events ex_app ?req =
      Some (ex_app\<lparr>scheduler := ex_running\<lparr>notified := [1]\<rparr>\<rparr>,
        result_response (snd (stop_job ex_app ''jobs'' ''ping'')))"
    by (simp add: route_request_def run_handler_def with_path_def stop_job_def ex_app_fields stop param_def
        ex_path_lib_def ex_match(3))
  then show ?thesis
    by (simp add: serve_def deadline_layer_def build_cors_def ex_app_fields ex_config_fields ex_web_events_def)
qed

theorem group_token_confined_witness:
  "\<exists>st' r g. serve ex_path_lib ex_web_events ex_app (ex_request ''/stop/jobs/ping'') = Some (st', r) \<and> st' \<noteq> ex_app \<and>
     map_of (per_group_tokens ex_app) g = Some ''s3cret'' \<and> only_group g (scheduler ex_app) (scheduler st')"
proof -
  let ?st' = "ex_app\<lparr>scheduler := ex_running\<lparr>notified := [1]\<rparr>\<rparr>" and ?req = "ex_request ''/stop/jobs/ping''"
  obtain r where served: "serve ex_path_lib ex_web_events ex_app ?req = Some (?st', r)" using ex_stop_served_by_path by blast
  note changed = ex_app_changed
  have "list_all (\<lambda>(g, _). CHR ''%'' \<notin> set g) (per_group_tokens ex_app)"
    by (simp add: ex_app_def with_per_group_tokens_def with_admin_token_def app_state_new_def btree_of_def)
  moreover have "presented_token (w_headers ex_path_lib) ?req = Some ''s3cret''"
    using ex_presented by (simp add: ex_path_lib_def ex_web_lib_def)
  moreover have "\<not> prefix ''/reload/'' (uri_path ?req)" by (simp add: ex_request_def)
  ultimately show ?thesis
    using group_token_confined [OF ex_path_laws _ _ _ _ _ served changed, of ex_http_lib "ex_bundle False" "''master''" "''s3cret''"]
      ex_running_reachable served changed by (auto simp: ex_app_fields)
qed

end
