(* ===== verification/System.thy ===== *)
theory System
  imports Boot Signal Progress Authority
begin

text \<open>
  The running system: the application state after a boot, changed by served requests, by
  the steps of the scheduler's tasks and by time. The process environment does not change
  after the boot. The lemmas relate every such step to steps of the scheduler alone, so
  that its invariants hold for the whole.
\<close>

section \<open>Steps\<close>

inductive sys_step :: "web_lib \<Rightarrow> http_lib \<Rightarrow> ExecutorBundle \<Rightarrow> env \<Rightarrow> AppState \<Rightarrow> AppState \<Rightarrow> bool"
  for web lib b env where
  request: "serve web ev st req = Some (st', r) \<Longrightarrow> ev_env ev = env \<Longrightarrow> sys_step web lib b env st st'"
| task: "sys_step web lib b env st (st\<lparr>scheduler := task_step lib b world i (scheduler st)\<rparr>)"
| time: "clock (scheduler st) \<le> now \<Longrightarrow>
    sys_step web lib b env st (st\<lparr>scheduler := (scheduler st)\<lparr>clock := now\<rparr>\<rparr>)"

inductive sys_reachable :: "web_lib \<Rightarrow> http_lib \<Rightarrow> boot_world \<Rightarrow> AppState \<Rightarrow> bool"
  for web lib w where
  booted: "boot w = Some (Ok b) \<Longrightarrow> sys_reachable web lib w (b_state b)"
| goes_on: "sys_reachable web lib w st \<Longrightarrow> boot w = Some (Ok b) \<Longrightarrow>
    sys_step web lib (b_bundle b) (bw_env w) st st' \<Longrightarrow> sys_reachable web lib w st'"

section \<open>What a request does to the scheduler\<close>

definition sched_effect :: "dsl_lib \<Rightarrow> env \<Rightarrow> AppConfig \<Rightarrow> Scheduler \<Rightarrow> Scheduler \<Rightarrow> bool" where
  "sched_effect lib env c s s' \<longleftrightarrow>
     s' = s \<or> (\<exists>k x. trigger_now k x s = Some (Ok s')) \<or> (\<exists>k a. stop k s = Ok (a, s')) \<or>
     (\<exists>root tree loaded. load_all_with_policy lib env root tree (boot_policy c env) = Ok loaded \<and>
        s' = snd (reload_from loaded s))"

lemma effect_refl [simp]: "sched_effect lib env c s s"
  by (simp add: sched_effect_def)

lemma effect_stop_job: "sched_effect lib env c (scheduler st) (scheduler (fst (stop_job st grp job)))"
  by (auto simp: stop_job_def sched_effect_def split: sum.split prod.split)

lemma load_bounded_Ok:
  "load_all_bounded lib env root tree (max_dsl_file_bytes (security c)) to (max_retry_count (security c))
     (min_cron_interval_secs (security c)) (block_private_networks (security c))
     (action_from_env (environment_from_env env) (allow_dev_fixture_dsls (security c))) ending = Ok loaded \<Longrightarrow>
   load_all_with_policy lib env root tree (boot_policy c env) = Ok loaded"
  by (auto simp: load_all_bounded_def boot_policy_def split: load_end.splits)

lemma effect_reload_jobs:
  "sched_effect lib (ev_env ev) (cfg st) (scheduler st) (scheduler (fst (reload_jobs lib ev st grp)))"
proof (cases "admit grp (reload_min_interval_secs (security (cfg st))) (ev_now ev) (reload_gate st)")
  case (Pair gate answer)
  show ?thesis
  proof (cases answer)
    case (Inr u)
    let ?load = "load_all_bounded lib (ev_env ev) (dsl_path (cfg st)) (ev_tree ev)
      (max_dsl_file_bytes (security (cfg st))) (dsl_load_timeout_secs (security (cfg st)))
      (max_retry_count (security (cfg st))) (min_cron_interval_secs (security (cfg st)))
      (block_private_networks (security (cfg st)))
      (action_from_env (environment_from_env (ev_env ev)) (allow_dev_fixture_dsls (security (cfg st)))) (ev_load_end ev)"
    show ?thesis
    proof (cases ?load)
      case (Inr loaded)
      have "scheduler (fst (reload_jobs lib ev st grp)) = snd (reload_from loaded (scheduler st))"
        using Pair \<open>answer = Ok u\<close> Inr by (simp add: reload_jobs_def Let_def case_prod_beta)
      with load_bounded_Ok [OF Inr] show ?thesis unfolding sched_effect_def by blast
    qed (use Pair Inr in \<open>simp add: reload_jobs_def Let_def\<close>)
  qed (use Pair in \<open>simp add: reload_jobs_def Let_def\<close>)
qed

lemma effect_run_handler:
  assumes "run_handler web ev st h raw req = Some (st', r)"
  shows "sched_effect (w_dsl web) (ev_env ev) (cfg st) (scheduler st) (scheduler st')"
proof (cases "st' = st")
  case False
  have h: "h \<in> {ExecuteJob, StopJob, ReloadJobs}"
    using run_handler_total [of web ev st h raw req] assms False by auto
  obtain ps where ps: "decode_params web raw = Some ps"
    using assms False h by (cases "decode_params web raw") (auto simp: run_handler_def with_path_def)
  show ?thesis
  proof (cases h)
    case ExecuteJob
    obtain j where e: "execute_job st (param 0 ps) (param 1 ps) (parse_query web (uri_query req)) = Some (st', j)"
      using assms ExecuteJob ps by (auto simp: run_handler_def with_path_def)
    have "\<exists>k x. trigger_now k x (scheduler st) = Some (Ok (scheduler st'))"
      using execute_job_cases [of st "param 0 ps" "param 1 ps" "parse_query web (uri_query req)"] e False
      by (auto split: sum.splits)
    then show ?thesis by (auto simp: sched_effect_def)
  next
    case StopJob
    then have "st' = fst (stop_job st (param 0 ps) (param 1 ps))"
      using assms ps by (simp add: run_handler_def with_path_def case_prod_beta)
    then show ?thesis by (simp add: effect_stop_job)
  next
    case ReloadJobs
    then have "st' = fst (reload_jobs (w_dsl web) ev st (param 0 ps))"
      using assms ps by (simp add: run_handler_def with_path_def case_prod_beta)
    then show ?thesis by (simp add: effect_reload_jobs)
  qed (use h in simp_all)
qed simp

lemma awaiting_scheduler: "awaiting web ev st req = Some st' \<Longrightarrow> scheduler st' = scheduler st"
  by (auto simp: awaiting_def split: option.splits sum.splits prod.splits handler.splits)

lemma effect_serve:
  assumes "serve web ev st req = Some (st', r)"
  shows "sched_effect (w_dsl web) (ev_env ev) (cfg st) (scheduler st) (scheduler st')"
proof -
  have route: "sched_effect (w_dsl web) (ev_env ev) (cfg st) (scheduler st) (scheduler st2)"
    if "route_request web ev st req = Some (st2, r2)" for st2 r2
    using that effect_run_handler [of web ev st _ _ req] by (auto simp: route_request_def split: option.splits sum.splits)
  have dead: "sched_effect (w_dsl web) (ev_env ev) (cfg st) (scheduler st) (scheduler st2)"
    if "deadline_layer web ev st req = Some (st2, r2)" for st2 r2
    using that route awaiting_scheduler [of web ev st req]
    by (fastforce simp: deadline_layer_def split: option.splits if_splits)
  show ?thesis using assms dead by (fastforce simp: serve_def split: option.splits)
qed

section \<open>Reachability\<close>

lemma reachable_register_all: "sched_reachable lib b s \<Longrightarrow> sched_reachable lib b (register_all sps s)"
proof (induction sps arbitrary: s)
  case (Cons sp sps)
  have "sched_reachable lib b (register sp s)"
    unfolding register_def using Cons.prems sched_reachable.onward [OF _ removed] sched_reachable.onward [OF _ inserted] by blast
  with Cons.IH show ?case by (simp add: register_all_def)
qed (simp add: register_all_def)

lemma reachable_effect:
  assumes "sched_reachable lib b s" and "sched_effect dl env c s s'"
  shows "sched_reachable lib b s'"
proof -
  consider "s' = s" | k x where "trigger_now k x s = Some (Ok s')" | k a where "stop k s = Ok (a, s')"
    | loaded where "s' = snd (reload_from loaded s)"
    using assms(2) by (auto simp: sched_effect_def)
  then show ?thesis
  proof cases
    case (2 k x)
    obtain entry where e: "map_of (jobs s) k = Some entry" "map_of (running s) k = None"
      using 2 by (auto simp: trigger_now_def begin_running_def simp del: map_of_eq_None_iff split: option.splits if_splits)
    have "key (reg_spec entry) = k" using reachable_keys_ok [OF assms(1)] e(1) by (simp add: keys_ok_def)
    from trigger_now_steps [OF e this, of x lib b "\<lambda>_. undefined"] 2
    show ?thesis
      by (auto intro: sched_reachable.onward [OF _ ran] sched_reachable.onward [OF _ looked] assms(1))
  next
    case 3
    then show ?thesis using assms(1) by (blast intro: sched_reachable.onward stopped)
  next
    case (4 loaded)
    then show ?thesis
      using assms(1)
      by (auto simp: reload_from_def intro!: reachable_register_all
          intro: sched_reachable.onward [OF _ cleared] sched_reachable.onward [OF _ signalled_all])
  qed (use assms(1) in simp)
qed

section \<open>Specifications in use\<close>

text \<open>Every specification the scheduler holds, in the registry or in a task.\<close>

definition specs_in_use :: "Scheduler \<Rightarrow> JobSpec set" where
  "specs_in_use s = reg_spec ` ran (map_of (jobs s)) \<union> t_spec ` set (tasks s)"

lemma specs_in_use_ok:
  "specs_in_use s \<subseteq> A \<longleftrightarrow>
     (\<forall>k e. map_of (jobs s) k = Some e \<longrightarrow> reg_spec e \<in> A) \<and> (\<forall>t\<in>set (tasks s). t_spec t \<in> A)"
  by (auto simp: specs_in_use_def ran_def)

lemma t_spec_set_phase: "t_spec ` set (tasks (set_phase i p s)) \<subseteq> t_spec ` set (tasks s)"
proof (cases "i < length (tasks s)")
  case True
  then have "t_spec (tasks s ! i) \<in> t_spec ` set (tasks s)" by simp
  then show ?thesis
    using set_update_subset_insert [of "tasks s" i "(tasks s ! i)\<lparr>t_phase := p\<rparr>"] by (fastforce simp: set_phase_def)
qed (simp add: set_phase_def list_update_beyond)

lemma specs_set_phase: "specs_in_use (set_phase i p s) \<subseteq> specs_in_use s"
  using t_spec_set_phase [of i p s] by (auto simp: specs_in_use_def set_phase_def)

lemma specs_frame [simp]:
  "specs_in_use (s\<lparr>hist := h\<rparr>) = specs_in_use s" "specs_in_use (s\<lparr>clock := n\<rparr>) = specs_in_use s"
  "specs_in_use (s\<lparr>notified := ns\<rparr>) = specs_in_use s" "specs_in_use (notify_all s) = specs_in_use s"
  "specs_in_use (record_outcome q out s) = specs_in_use s" "specs_in_use (record_skip q m s) = specs_in_use s"
  "specs_in_use (end_running k s) = specs_in_use s"
  by (simp_all add: specs_in_use_def notify_all_def record_outcome_def record_skip_def end_running_def)

lemma specs_begin: "begin_running k sch s = Ok s' \<Longrightarrow> specs_in_use s' = specs_in_use s"
  by (auto simp: begin_running_def specs_in_use_def split: if_splits)

lemma specs_moved:
  "specs_in_use s' = specs_in_use s \<Longrightarrow> specs_in_use (set_phase i p s') \<subseteq> specs_in_use s"
  using specs_set_phase [of i p s'] by simp

lemma specs_begin_move: "begin_running k sch s = Ok s' \<Longrightarrow> specs_in_use (set_phase i p s') \<subseteq> specs_in_use s"
  by (rule specs_moved) (rule specs_begin)

lemma specs_fire: "specs_in_use (fire i t s) \<subseteq> specs_in_use s"
  using specs_moved [of "s\<lparr>hist := hist s @ [skip_entry (t_spec t) (clock s)]\<rparr>" s] specs_set_phase [of i Idle s]
    specs_begin_move [of _ _ s]
  by (simp add: fire_def split: sum.split)

lemma specs_task_step: "specs_in_use (task_step lib b world i s) \<subseteq> specs_in_use s"
proof (cases "i < length (tasks s)")
  case True
  let ?t = "tasks s ! i"
  show ?thesis
  proof (cases "t_phase ?t")
    case (Waiting nxt)
    then show ?thesis using True specs_fire by (simp add: task_step_def)
  next
    case Looked
    then show ?thesis
      using True specs_set_phase specs_begin_move by (simp add: task_step_def Let_def split: sum.split)
  next
    case Begun
    then show ?thesis using True specs_set_phase by (simp add: task_step_def Let_def split: option.split)
  next
    case (Dispatching c)
    then show ?thesis
      using True specs_moved [of "s\<lparr>hist := _\<rparr>" s] by (simp add: task_step_def Let_def split: prod.split option.split)
  next
    case (Skipping n)
    then show ?thesis using True specs_moved [of "record_skip _ _ s" s] by (simp add: task_step_def)
  next
    case (Finished out)
    then show ?thesis using True specs_moved [of "record_outcome _ _ s" s] by (simp add: task_step_def)
  next
    case Recorded
    then show ?thesis using True specs_moved [of "end_running _ s" s] by (simp add: task_step_def Let_def)
  qed (use True specs_set_phase in \<open>simp_all add: task_step_def Let_def\<close>)
qed (simp add: task_step_def)

lemma specs_register: "specs_in_use (register sp s) \<subseteq> {sp} \<union> specs_in_use s"
  by (auto simp: specs_in_use_def register_def spawn_and_insert_def unregister_def ran_def Let_def
      split: Trigger.splits if_splits)

lemma specs_register_all: "specs_in_use (register_all sps s) \<subseteq> set sps \<union> specs_in_use s"
proof (induction sps arbitrary: s)
  case (Cons sp sps)
  have "register_all (sp # sps) s = register_all sps (register sp s)" by (simp add: register_all_def)
  with Cons.IH [of "register sp s"] specs_register [of sp s] show ?case by auto
qed (simp add: register_all_def)

lemma specs_trigger_now:
  assumes "trigger_now k x s = Some (Ok s')"
  shows "specs_in_use s' \<subseteq> specs_in_use s"
proof -
  obtain entry where e: "map_of (jobs s) k = Some entry"
    using assms by (auto simp: trigger_now_def split: option.splits)
  then have "reg_spec entry \<in> specs_in_use s" by (auto simp: specs_in_use_def ran_def)
  with assms e show ?thesis
    by (auto simp: trigger_now_def begin_running_def specs_in_use_def split: option.splits if_splits)
qed

lemma specs_reload: "specs_in_use (snd (reload_from loaded s)) \<subseteq> spec ` set loaded \<union> specs_in_use s"
proof -
  have "specs_in_use ((notify_all s)\<lparr>jobs := []\<rparr>) \<subseteq> specs_in_use s"
    by (auto simp: specs_in_use_def notify_all_def)
  with specs_register_all [of "map spec loaded" "(notify_all s)\<lparr>jobs := []\<rparr>"] show ?thesis
    by (auto simp: reload_from_def)
qed

lemma specs_effect:
  assumes "sched_effect lib env c s s'" and "specs_in_use s \<subseteq> {sp. spec_ok lib env (boot_policy c env) sp}"
  shows "specs_in_use s' \<subseteq> {sp. spec_ok lib env (boot_policy c env) sp}"
proof -
  consider "s' = s" | k x where "trigger_now k x s = Some (Ok s')" | k a where "stop k s = Ok (a, s')"
    | root tree loaded where "load_all_with_policy lib env root tree (boot_policy c env) = Ok loaded"
        "s' = snd (reload_from loaded s)"
    using assms(1) unfolding sched_effect_def by blast
  then show ?thesis
  proof cases
    case 2
    with specs_trigger_now assms(2) show ?thesis by blast
  next
    case 3
    then have "specs_in_use s' = specs_in_use s" by (auto simp: stop_def split: option.splits if_splits)
    with assms(2) show ?thesis by simp
  next
    case 4
    with specs_reload [of loaded s] load_all_spec_ok [OF 4(1)] assms(2) show ?thesis by auto
  qed (use assms(2) in simp)
qed

section \<open>The invariant of the system\<close>

definition sys_inv :: "http_lib \<Rightarrow> dsl_lib \<Rightarrow> env \<Rightarrow> ExecutorBundle \<Rightarrow> AppState \<Rightarrow> AppState \<Rightarrow> bool" where
  "sys_inv lib dl env b st0 st \<longleftrightarrow>
     same_setup st0 st \<and> sched_reachable lib b (scheduler st) \<and>
     specs_in_use (scheduler st) \<subseteq> {sp. spec_ok dl env (boot_policy (cfg st0) env) sp}"

lemma same_setup_trans: "same_setup a b \<Longrightarrow> same_setup b c \<Longrightarrow> same_setup a c"
  by (simp add: same_setup_def)

lemma serve_setup:
  assumes "serve web ev st req = Some (st', r)"
  shows "same_setup st st'"
proof -
  obtain st2 r2 where "deadline_layer web ev st req = Some (st2, r2)" "same_setup st st2"
    using deadline_layer_total by blast
  with assms show ?thesis by (auto simp: serve_def split: option.splits)
qed

lemma sys_inv_step:
  assumes "sys_step web lib b env st st'" and "sys_inv lib (w_dsl web) env b st0 st"
  shows "sys_inv lib (w_dsl web) env b st0 st'"
  using assms
proof (induction rule: sys_step.induct)
  case (request ev st req st' r)
  have c: "cfg st = cfg st0" using request.prems by (simp add: sys_inv_def same_setup_def)
  have eff: "sched_effect (w_dsl web) env (cfg st0) (scheduler st) (scheduler st')"
    using effect_serve [OF request.hyps(1)] request.hyps(2) c by simp
  show ?case
    using request.prems reachable_effect [OF _ eff] specs_effect [OF eff] serve_setup [OF request.hyps(1)]
      same_setup_trans [of st0 st st'] by (simp add: sys_inv_def)
next
  case (task st world i)
  then show ?case
    using specs_task_step [of lib b world i "scheduler st"] sched_reachable.onward [OF _ ran, of lib b "scheduler st" world i]
    by (auto simp: sys_inv_def same_setup_def)
next
  case (time st now)
  then show ?case
    using sched_reachable.onward [OF _ tick, of lib b "scheduler st" now]
    by (auto simp: sys_inv_def same_setup_def)
qed

lemma boot_inv:
  assumes "boot w = Some (Ok b)" and "bw_lib w = w_dsl web"
  shows "sys_inv lib (w_dsl web) (bw_env w) (b_bundle b) (b_state b) (b_state b)"
proof -
  obtain c src where c: "start_up w c = Ok b" using assms by (auto simp: boot_Ok)
  then obtain loaded where l: "boot_load w c = Ok loaded"
    "b_state b = initial_state c (bw_env w) (register_all (map spec loaded) scheduler_new)"
    by (elim start_up_Ok)
  have "specs_in_use (register_all (map spec loaded) scheduler_new) \<subseteq> spec ` set loaded"
    using specs_register_all [of "map spec loaded" scheduler_new] by (simp add: specs_in_use_def scheduler_new_def)
  moreover have "sched_reachable lib (b_bundle b) (register_all (map spec loaded) scheduler_new)"
    by (rule reachable_register_all) (rule sched_reachable.start)
  ultimately show ?thesis
    using load_all_spec_ok [OF boot_load_Ok [OF l(1)]] assms(2)
    by (auto simp: sys_inv_def l(2) initial_state_fields)
qed

lemma sys_reachable_inv:
  assumes "sys_reachable web lib w st" and "boot w = Some (Ok b)" and "bw_lib w = w_dsl web"
  shows "sys_inv lib (w_dsl web) (bw_env w) (b_bundle b) (b_state b) st"
  using assms(1)
proof (induction rule: sys_reachable.induct)
  case (booted b')
  with assms(2) have "b' = b" by simp
  with boot_inv [OF assms(2,3)] show ?case by simp
next
  case (goes_on st b' st')
  with assms(2) have "b' = b" by simp
  with goes_on sys_inv_step show ?case by blast
qed

end
