(* ===== verification/Security_Tests.thy ===== *)
theory Security_Tests
  imports Security
begin

text \<open>
  The unit tests of \<open>src/security.rs\<close>, one definition per test function, and the proof that each
  holds of the model. A test parses its addresses like the code, so the parser is
  exercised too. The three known-answer tests of the client hash are about the
  SHA-256 implementation and are left out.
\<close>

unbundle bit_operations_syntax

section \<open>Dangerous environment variables\<close>

definition dangerous_env_matches_exact_names :: bool where
  "dangerous_env_matches_exact_names \<longleftrightarrow>
     list_all is_dangerous_env [''PATH'', ''path'', ''PythonHome'', ''NODE_OPTIONS'']"

definition dangerous_env_covers_ld_and_dyld_prefixes :: bool where
  "dangerous_env_covers_ld_and_dyld_prefixes \<longleftrightarrow>
     list_all is_dangerous_env [''LD_PRELOAD'', ''LD_ANYTHING'', ''DYLD_ANYTHING'']"

definition dangerous_env_ignores_unrelated_vars :: bool where
  "dangerous_env_ignores_unrelated_vars \<longleftrightarrow>
     list_all (\<lambda>v. \<not> is_dangerous_env v) [''LDPRELOAD'', ''HELLO'', ''MY_LD_HOOK'']"

lemmas ascii_case_eval = to_ascii_uppercase_def to_ascii_lowercase_def ascii_up_def ascii_down_def
  is_ascii_lower_def is_ascii_upper_def

lemma dangerous_env_tests:
  "dangerous_env_matches_exact_names" "dangerous_env_covers_ld_and_dyld_prefixes"
  "dangerous_env_ignores_unrelated_vars"
  by (simp_all add: dangerous_env_matches_exact_names_def dangerous_env_covers_ld_and_dyld_prefixes_def
      dangerous_env_ignores_unrelated_vars_def is_dangerous_env_def DANGEROUS_ENVS_def eq_ignore_ascii_case_def
      ascii_case_eval)

section \<open>Address classes\<close>

definition of_parsed :: "(IpAddr \<Rightarrow> bool) \<Rightarrow> string \<Rightarrow> bool" where
  "of_parsed P s = (case parse_ip s of Some ip \<Rightarrow> P ip | None \<Rightarrow> False)"

definition ip_ranges_ipv4_private_blocked :: bool where
  "ip_ranges_ipv4_private_blocked \<longleftrightarrow>
     list_all (of_parsed is_private_or_local)
       [''127.0.0.1'', ''169.254.169.254'', ''10.0.0.1'', ''172.16.0.1'', ''192.168.1.1'', ''100.64.0.1'', ''0.0.0.0'',
        ''224.0.0.1'', ''255.255.255.255'']"

definition ip_ranges_ipv4_public_allowed :: bool where
  "ip_ranges_ipv4_public_allowed \<longleftrightarrow>
     list_all (of_parsed (\<lambda>ip. \<not> is_private_or_local ip)) [''1.1.1.1'', ''8.8.8.8'', ''142.250.190.14'']"

definition ip_ranges_ipv6_private_blocked :: bool where
  "ip_ranges_ipv6_private_blocked \<longleftrightarrow>
     list_all (of_parsed is_private_or_local)
       [''::1'', ''fe80::1'', ''fd00::1'', ''::'', ''ff02::1'', ''::ffff:169.254.0.1'', ''::ffff:10.0.0.1'',
        ''::ffff:127.0.0.1'']"

definition ip_ranges_ipv6_public_allowed :: bool where
  "ip_ranges_ipv6_public_allowed \<longleftrightarrow>
     list_all (of_parsed (\<lambda>ip. \<not> is_private_or_local ip)) [''2001:4860:4860::8888'', ''2606:4700:4700::1111'']"

definition ip_ranges_all_ipv4_variants_use_std_flags :: bool where
  "ip_ranges_all_ipv4_variants_use_std_flags \<longleftrightarrow>
     is_private_or_local (V4 (Ipv4Addr 0 0 0 0)) \<and> is_private_or_local (V6 (Ipv6Addr 0 0 0 0 0 0 0 1))"

definition always_blocked_covers_metadata_not_cluster_ranges :: bool where
  "always_blocked_covers_metadata_not_cluster_ranges \<longleftrightarrow>
     is_always_blocked (V4 (Ipv4Addr 169 254 169 254)) \<and>
     is_always_blocked (V6 (Ipv6Addr 0xFD00 0xEC2 0 0 0 0 0 0x254)) \<and>
     \<not> is_always_blocked (V4 (Ipv4Addr 10 0 0 1)) \<and>
     \<not> is_always_blocked (V6 (Ipv6Addr 0xFD00 0xEC2 0 0 0 0 0 0x253))"

definition always_blocked_is_subset_of_private_or_local :: bool where
  "always_blocked_is_subset_of_private_or_local \<longleftrightarrow>
     list_all (\<lambda>ip. is_always_blocked ip \<and> is_private_or_local ip)
       [V4 (Ipv4Addr 169 254 0 1), V4 (Ipv4Addr 169 254 169 254), V4 (Ipv4Addr 169 254 170 2), V4 (Ipv4Addr 0 0 0 0),
        V4 (Ipv4Addr 224 0 0 1), V4 (Ipv4Addr 239 255 255 250), V4 (Ipv4Addr 255 255 255 255),
        V6 (Ipv6Addr 0 0 0 0 0 0 0 0), V6 (Ipv6Addr 0xFE80 0 0 0 0 0 0 1), V6 (Ipv6Addr 0xFEBF 0 0 0 0 0 0 1),
        V6 (Ipv6Addr 0xFF02 0 0 0 0 0 0 1), V6 (Ipv6Addr 0xFD00 0xEC2 0 0 0 0 0 0x254),
        V6 (Ipv6Addr 0 0 0 0 0 0xFFFF 0xA9FE 0xA9FE)]"

definition allowlist_actually_opens_something :: bool where
  "allowlist_actually_opens_something \<longleftrightarrow>
     list_all (\<lambda>ip. is_private_or_local ip \<and> \<not> is_always_blocked ip)
       [V4 (Ipv4Addr 10 0 0 1), V4 (Ipv4Addr 172 16 0 1), V4 (Ipv4Addr 192 168 1 1), V4 (Ipv4Addr 127 0 0 1),
        V4 (Ipv4Addr 100 64 0 1), V6 (Ipv6Addr 0xFD12 0 0 0 0 0 0 1), V6 (Ipv6Addr 0 0 0 0 0 0 0 1)]"

lemmas ip_class_eval = v6_is_loopback_def v6_is_unspecified_def seg_hi_def seg_lo_def seg_of_def ipv6_of_list_def word_le_nat_alt

lemma ip_range_v4_tests:
  "ip_ranges_ipv4_private_blocked" "ip_ranges_ipv4_public_allowed" "ip_ranges_all_ipv4_variants_use_std_flags"
  by (simp_all add: ip_ranges_ipv4_private_blocked_def ip_ranges_ipv4_public_allowed_def of_parsed_def parse_ip_eval
      ip_ranges_all_ipv4_variants_use_std_flags_def ip_class_eval)

lemma v6_vectors:
  "parse_ip ''::1'' = Some (V6 (Ipv6Addr 0 0 0 0 0 0 0 1))"
  "parse_ip ''fe80::1'' = Some (V6 (Ipv6Addr 0xFE80 0 0 0 0 0 0 1))"
  "parse_ip ''fd00::1'' = Some (V6 (Ipv6Addr 0xFD00 0 0 0 0 0 0 1))"
  "parse_ip ''::'' = Some (V6 (Ipv6Addr 0 0 0 0 0 0 0 0))"
  "parse_ip ''ff02::1'' = Some (V6 (Ipv6Addr 0xFF02 0 0 0 0 0 0 1))"
  "parse_ip ''2001:4860:4860::8888'' = Some (V6 (Ipv6Addr 0x2001 0x4860 0x4860 0 0 0 0 0x8888))"
  "parse_ip ''2606:4700:4700::1111'' = Some (V6 (Ipv6Addr 0x2606 0x4700 0x4700 0 0 0 0 0x1111))"
  by (simp_all add: parse_ip_eval ipv6_of_list_def is_ascii_upper_def nth_append)

lemma v6_mapped_vectors:
  "parse_ip ''::ffff:169.254.0.1'' = Some (V6 (Ipv6Addr 0 0 0 0 0 0xFFFF 0xA9FE 1))"
  "parse_ip ''::ffff:10.0.0.1'' = Some (V6 (Ipv6Addr 0 0 0 0 0 0xFFFF 0x0A00 1))"
  "parse_ip ''::ffff:127.0.0.1'' = Some (V6 (Ipv6Addr 0 0 0 0 0 0xFFFF 0x7F00 1))"
  by (simp_all add: parse_ip_eval ipv6_of_list_def seg_of_def is_ascii_upper_def nth_append)

lemma ip_range_v6_tests: "ip_ranges_ipv6_private_blocked" "ip_ranges_ipv6_public_allowed"
  by (simp_all add: ip_ranges_ipv6_private_blocked_def ip_ranges_ipv6_public_allowed_def of_parsed_def v6_vectors v6_mapped_vectors ip_class_eval)

lemma always_blocked_tests:
  "always_blocked_covers_metadata_not_cluster_ranges" "always_blocked_is_subset_of_private_or_local"
  "allowlist_actually_opens_something"
  by (simp_all add: always_blocked_covers_metadata_not_cluster_ranges_def always_blocked_is_subset_of_private_or_local_def
      allowlist_actually_opens_something_def ip_class_eval)

section \<open>Sanitisers\<close>

text \<open>The byte strings of the character literals the tests use.\<close>

definition a_umlaut :: string where "a_umlaut = [CHR 0xC3, CHR 0xA4]"

definition sanitize_strips_crlf :: bool where
  "sanitize_strips_crlf \<longleftrightarrow>
     (let out = sanitize_for_log (''hello'' @ [CHR 0x0D, CHR 0x0A] @ ''CRIT: pwned'' @ [CHR 0x0D, CHR 0x0A])
      in CHR 0x0D \<notin> set out \<and> CHR 0x0A \<notin> set out \<and> str_contains [CHR 0x5C, CHR ''r'', CHR 0x5C, CHR ''n''] out)"

definition sanitize_strips_ansi_escape :: bool where
  "sanitize_strips_ansi_escape \<longleftrightarrow> CHR 0x1B \<notin> set (sanitize_for_log (CHR 0x1B # ''[2Jhello''))"

definition sanitize_strips_null_and_del :: bool where
  "sanitize_strips_null_and_del \<longleftrightarrow>
     (let out = sanitize_for_log [CHR ''a'', CHR 0x00, CHR ''b'', CHR 0x7F, CHR ''c'']
      in CHR 0x00 \<notin> set out \<and> CHR 0x7F \<notin> set out \<and> CHR ''a'' \<in> set out \<and> CHR ''b'' \<in> set out \<and> CHR ''c'' \<in> set out)"

definition sanitize_keeps_tab_and_utf8 :: bool where
  "sanitize_keeps_tab_and_utf8 \<longleftrightarrow>
     (let out = sanitize_for_log ([CHR ''a'', CHR 0x09, CHR ''b''] @ a_umlaut)
      in CHR 0x09 \<in> set out \<and> str_contains a_umlaut out)"

definition sanitize_caps_at_4kib :: bool where
  "sanitize_caps_at_4kib \<longleftrightarrow>
     (let out = sanitize_for_log (replicate 10000 (CHR ''A''))
      in length out \<le> 4096 + length log_marker \<and> sublist log_marker out)"

definition sanitize_for_persistence_leaves_utf8_and_tab_intact :: bool where
  "sanitize_for_persistence_leaves_utf8_and_tab_intact \<longleftrightarrow>
     (let s = ''hello'' @ [CHR 0x09] @ ''world '' @ [CHR 0xC3, CHR 0xA4, CHR 0xC3, CHR 0xB6, CHR 0xC3, CHR 0xBC]
        @ '' '' @ [CHR 0xF0, CHR 0x9F, CHR 0x9A, CHR 0x80]
      in sanitize_for_persistence s = s)"

lemma hex_digit_chars:
  "hex_digit 0 = CHR ''0''" "hex_digit (Suc 0) = CHR ''1''" "hex_digit 7 = CHR ''7''" "hex_digit 11 = CHR ''b''"
  "hex_digit 15 = CHR ''f''"
  by code_simp+

lemmas sanitizer_eval = sanitize_for_log_def sanitize_for_persistence_def utf8_width_def unicode_escape_def hex_digit_chars
  a_umlaut_def Let_def

lemma sanitize_tests:
  "sanitize_strips_crlf" "sanitize_strips_ansi_escape" "sanitize_strips_null_and_del" "sanitize_keeps_tab_and_utf8"
  "sanitize_for_persistence_leaves_utf8_and_tab_intact"
  by (simp_all add: sanitize_strips_crlf_def sanitize_strips_ansi_escape_def sanitize_strips_null_and_del_def
      sanitize_keeps_tab_and_utf8_def sanitize_for_persistence_leaves_utf8_and_tab_intact_def sanitizer_eval)

lemma chars_replicate: "byte c < 0x80 \<Longrightarrow> chars (replicate n c) = replicate n [c]"
  by (induction n) (simp_all add: utf8_width_def)

lemma sanitize_log_loop_replicate:
  "w \<le> 4091 \<Longrightarrow> 4091 < w + n \<Longrightarrow>
     sanitize_for_log_loop (replicate n ''A'') w = replicate (4091 - w) (CHR ''A'') @ log_marker"
proof (induction n arbitrary: w)
  case (Suc n)
  show ?case
  proof (cases "w = 4091")
    case False
    then have "4091 - w = Suc (4091 - Suc w)" using Suc.prems by simp
    with False Suc show ?thesis by simp
  qed simp
qed simp

lemma sanitize_cap_test: "sanitize_caps_at_4kib"
proof -
  have "sanitize_for_log (replicate 10000 (CHR ''A'')) = replicate 4091 (CHR ''A'') @ log_marker"
    using sanitize_log_loop_replicate [of 0 10000] by (simp add: sanitize_for_log_def chars_replicate)
  then show ?thesis
    by (simp add: sanitize_caps_at_4kib_def Let_def sublist_append_rightI)
qed

section \<open>Stored bodies\<close>

definition truncate_body_leaves_small_strings_untouched :: bool where
  "truncate_body_leaves_small_strings_untouched \<longleftrightarrow>
     truncate_response_body ''hi'' 100 = ''hi'' \<and> truncate_response_body [] 10 = []"

definition trim_end :: "string \<Rightarrow> string" where
  "trim_end s = concat (rev (dropWhile is_whitespace (rev (chars s))))"

definition truncate_body_keeps_head_and_tail_with_marker :: bool where
  "truncate_body_keeps_head_and_tail_with_marker \<longleftrightarrow>
     (let out = truncate_response_body (replicate 200 (CHR ''x'')) 100
      in sublist ''truncated'' out \<and> prefix ''xxxx'' out \<and> suffix ''x'' (trim_end out) \<and> length out < 200)"

definition truncate_body_never_splits_multibyte :: bool where
  "truncate_body_never_splits_multibyte \<longleftrightarrow> str_ok (truncate_response_body (concat (replicate 100 a_umlaut)) 100)"

definition truncate_response_body_escapes_crlf_before_persist :: bool where
  "truncate_response_body_escapes_crlf_before_persist \<longleftrightarrow>
     (let q = CHR 0x22; hostile = ''line1'' @ [CHR 0x0D, CHR 0x0A] @ ''{'' @ [q] @ ''level'' @ [q] @ '':'' @ [q] @ ''ERROR'' @ [q] @ '',''
            @ [q] @ ''msg'' @ [q] @ '':'' @ [q] @ ''forged'' @ [q] @ ''}'' @ [CHR 0x0D, CHR 0x0A];
          out = truncate_response_body hostile 1024
      in CHR 0x0D \<notin> set out \<and> CHR 0x0A \<notin> set out \<and> str_contains [CHR 0x5C, CHR ''r'', CHR 0x5C, CHR ''n''] out)"

definition truncate_response_body_escapes_ansi_before_persist :: bool where
  "truncate_response_body_escapes_ansi_before_persist \<longleftrightarrow>
     (let out = truncate_response_body (CHR 0x1B # ''[2Jbenign_text'') 1024
      in CHR 0x1B \<notin> set out \<and> str_contains (CHR 0x5C # ''u001b'') out \<and> str_contains ''benign_text'' out)"

definition truncate_response_body_escapes_null_and_del_before_persist :: bool where
  "truncate_response_body_escapes_null_and_del_before_persist \<longleftrightarrow>
     (let out = truncate_response_body [CHR ''a'', CHR 0x00, CHR ''b'', CHR 0x7F, CHR ''c''] 1024
      in CHR 0x00 \<notin> set out \<and> CHR 0x7F \<notin> set out \<and> str_contains (CHR 0x5C # ''u0000'') out \<and>
         str_contains (CHR 0x5C # ''u007f'') out)"

lemma truncate_small_tests:
  "truncate_body_leaves_small_strings_untouched" "truncate_response_body_escapes_crlf_before_persist"
  "truncate_response_body_escapes_ansi_before_persist" "truncate_response_body_escapes_null_and_del_before_persist"
  by (simp_all add: truncate_body_leaves_small_strings_untouched_def truncate_response_body_escapes_crlf_before_persist_def
      truncate_response_body_escapes_ansi_before_persist_def truncate_response_body_escapes_null_and_del_before_persist_def
      truncate_response_body_def sanitizer_eval)

lemma floor_loop_at: "is_char_boundary s i \<Longrightarrow> floor_loop s i = i"
  by (cases i) simp_all

lemma ceil_loop_at: "is_char_boundary s i \<Longrightarrow> ceil_loop s i = i"
  by (subst ceil_loop.simps) simp

lemma chars_snoc: "str_ok s \<Longrightarrow> byte c < 0x80 \<Longrightarrow> chars (s @ [c]) = chars s @ [[c]]"
  using chars_append [of s "[c]"] by (simp add: utf8_width_def)

lemma x_body:
  "truncate_response_body (replicate 200 (CHR ''x'')) 100 =
     replicate 50 (CHR ''x'') @ truncation_marker 100 @ replicate 50 (CHR ''x'')"
proof -
  let ?x = "replicate 200 (CHR ''x'')"
  have clean: "sanitize_for_persistence ?x = ?x"
    by (simp add: sanitize_for_persistence_def chars_replicate map_replicate)
  have b: "is_char_boundary ?x 50" "is_char_boundary ?x 150" by (simp_all add: is_char_boundary_def is_cont_def)
  show ?thesis
    unfolding truncate_response_body_def clean Let_def
    by (simp add: char_boundary_floor_def char_boundary_ceil_def floor_loop_at [OF b(1)] ceil_loop_at [OF b(2)])
qed

lemma trim_end_snoc: "str_ok s \<Longrightarrow> byte c < 0x80 \<Longrightarrow> \<not> is_whitespace [c] \<Longrightarrow> trim_end (s @ [c]) = s @ [c]"
  by (auto simp: trim_end_def chars_append utf8_width_def)

lemma marker_100:
  "truncation_marker 100 = [CHR 0x0A] @ ellipsis @ '' [100 bytes '' @ ''truncated'' @ ''] '' @ ellipsis @ [CHR 0x0A]"
proof -
  have "show_nat 100 = ''100''" by code_simp
  then show ?thesis by (simp add: truncation_marker_def)
qed

lemma truncate_marker_test: "truncate_body_keeps_head_and_tail_with_marker"
proof -
  let ?r = "\<lambda>n. replicate n (CHR ''x'')"
  let ?out = "?r 50 @ truncation_marker 100 @ ?r 50"
  have "sublist ''truncated'' (truncation_marker 100)" unfolding marker_100 sublist_def by (metis append.assoc)
  then have 1: "sublist ''truncated'' ?out" by (meson sublist_appendI sublist_order.order_trans)
  have "?r 50 = ''xxxx'' @ ?r 46" using replicate_add [of 4 46 "CHR ''x''"] by (simp add: numeral_eq_Suc)
  then have 2: "prefix ''xxxx'' ?out" by simp
  have snoc: "?out = (?r 50 @ truncation_marker 100 @ ?r 49) @ [CHR ''x'']"
    using replicate_add [of 49 1 "CHR ''x''"] by simp
  have "str_ok (?r 50 @ truncation_marker 100 @ ?r 49)"
    by (intro str_ok_appendI truncation_marker_ok ascii_str_ok) (simp_all add: ascii_def list_all_iff)
  then have "trim_end ?out = ?out" unfolding snoc by (rule trim_end_snoc) simp_all
  then have 3: "suffix ''x'' (trim_end ?out)" unfolding snoc by (metis suffixI)
  have "length ?out < 200" by (simp add: marker_100 ellipsis_def)
  with 1 2 3 show ?thesis unfolding truncate_body_keeps_head_and_tail_with_marker_def x_body Let_def by blast
qed

lemma truncate_multibyte_test: "truncate_body_never_splits_multibyte"
  unfolding truncate_body_never_splits_multibyte_def
  by (intro truncate_response_body_ok str_ok_concat) (simp add: list_all_iff a_umlaut_def second_ok_def is_cont_def)

section \<open>Allowlist entries\<close>

definition normalize_allowed_host_accepts_plain_hostnames :: bool where
  "normalize_allowed_host_accepts_plain_hostnames \<longleftrightarrow>
     normalize_allowed_host '' Ruuter-Internal. '' = Some ''ruuter-internal'' \<and>
     normalize_allowed_host ''svc.ns.svc.cluster.local'' = Some ''svc.ns.svc.cluster.local''"

definition normalize_allowed_host_rejects_non_hostnames :: bool where
  "normalize_allowed_host_rejects_non_hostnames \<longleftrightarrow>
     list_all (\<lambda>bad. normalize_allowed_host bad = None)
       [[], ''  '', ''10.0.0.1'', ''::1'', ''[::1]'', ''ruuter-internal:8080'', ''http://ruuter-internal'', ''ruuter internal'',
        ''user@ruuter-internal'']"

definition normalize_allowed_host_rejects_sneaky_variants :: bool where
  "normalize_allowed_host_rejects_sneaky_variants \<longleftrightarrow>
     list_all (\<lambda>bad. normalize_allowed_host bad = None)
       [''*'', ''*.svc.cluster.local'', ''.'', ''..'', ''svc'' @ [CHR 0x00] @ ''.local'', ''svc'' @ [CHR 0x7F] @ ''local'',
        ''svc'' @ [CHR 0xC2, CHR 0xA0] @ ''local'', ''svc'' @ [CHR 0x09] @ ''local'', ''ruuter-internal/..'',
        ''ruuter-internal?x'', ''ruuter-internal#frag'', ''ruuter-internal%2Eevil'', ''ruuter+internal'', ''ruuter&internal'']"

definition normalize_allowed_host_rejects_unicode_whitespace :: bool where
  "normalize_allowed_host_rejects_unicode_whitespace \<longleftrightarrow>
     list_all (\<lambda>ws. normalize_allowed_host (''ruuter'' @ ws @ ''internal'') = None)
       [[CHR 0xC2, CHR 0xA0], [CHR 0xE2, CHR 0x80, CHR 0xA8], [CHR 0xE3, CHR 0x80, CHR 0x80]]"

definition normalize_allowed_host_accepts_rfc1035_plus_underscore :: bool where
  "normalize_allowed_host_accepts_rfc1035_plus_underscore \<longleftrightarrow>
     list_all (\<lambda>good. normalize_allowed_host good \<noteq> None)
       [''ruuter-internal'', ''svc1.ns.svc.cluster.local'', ''service_v2.ns.svc.cluster.local'', ''a'', ''a-b-c-1-2-3'',
        ''_tcp.svc.local'']"

lemmas host_eval = normalize_allowed_host_def Let_def trim_def trim_chars_def trim_end_matches_def utf8_width_def
  ascii_case_eval is_ascii_alphanumeric_def is_ascii_digit_def

lemma lower_ri: "char_of (114 :: nat) = CHR ''r''" "char_of (105 :: nat) = CHR ''i''"
  by code_simp+

lemma host_accept_tests:
  "normalize_allowed_host_accepts_plain_hostnames" "normalize_allowed_host_accepts_rfc1035_plus_underscore"
  by (simp_all add: normalize_allowed_host_accepts_plain_hostnames_def
      normalize_allowed_host_accepts_rfc1035_plus_underscore_def host_eval parse_ip_eval lower_ri)

lemma host_reject_tests:
  "normalize_allowed_host_rejects_non_hostnames" "normalize_allowed_host_rejects_sneaky_variants"
  "normalize_allowed_host_rejects_unicode_whitespace"
  by (simp_all add: normalize_allowed_host_rejects_non_hostnames_def normalize_allowed_host_rejects_sneaky_variants_def
      normalize_allowed_host_rejects_unicode_whitespace_def host_eval v6_vectors parse_ip_eval)

section \<open>Client hashes\<close>

text \<open>
  The digest is a parameter; it has at least four bytes, and the third test states the four the
  standard gives for its input.
\<close>

definition short_client_hash_is_deterministic_and_8_chars :: "(string \<Rightarrow> string) \<Rightarrow> bool" where
  "short_client_hash_is_deterministic_and_8_chars sha256 \<longleftrightarrow>
     (let a = short_client_hash sha256 ''1.2.3.4''
      in length a = 8 \<and> a = short_client_hash sha256 ''1.2.3.4'' \<and> list_all is_ascii_hexdigit a)"

definition short_client_hash_distinguishes_different_inputs :: "(string \<Rightarrow> string) \<Rightarrow> bool" where
  "short_client_hash_distinguishes_different_inputs sha256 \<longleftrightarrow>
     short_client_hash sha256 ''10.0.0.1'' \<noteq> short_client_hash sha256 ''10.0.0.2'' \<and>
     short_client_hash sha256 ''::1'' \<noteq> short_client_hash sha256 ''127.0.0.1''"

definition short_client_hash_matches_expected_sha256_prefix :: "(string \<Rightarrow> string) \<Rightarrow> bool" where
  "short_client_hash_matches_expected_sha256_prefix sha256 \<longleftrightarrow> short_client_hash sha256 ''abc'' = ''ba7816bf''"

lemma byte_hex_digit: "d < 16 \<Longrightarrow> byte (hex_digit d) = (if d < 10 then 48 + d else 87 + d)"
  by (simp add: hex_digit_def)

lemma byte_lt: "byte c < 256"
  using nat_of_char_less_256 by simp

lemma hex2_inj: "hex2 a = hex2 b \<longleftrightarrow> a = b"
proof
  assume "hex2 a = hex2 b"
  then have "byte (hex_digit (byte a div 16)) = byte (hex_digit (byte b div 16))"
    "byte (hex_digit (byte a mod 16)) = byte (hex_digit (byte b mod 16))"
    by (simp_all add: hex2_def)
  then have "byte a div 16 = byte b div 16" "byte a mod 16 = byte b mod 16"
    using byte_lt [of a] byte_lt [of b] by (auto simp: byte_hex_digit split: if_splits)
  then have "byte a = byte b" by (metis div_mult_mod_eq)
  then show "a = b" by simp
qed simp

lemma concat_hex2_inj: "length xs = length ys \<Longrightarrow> concat (map hex2 xs) = concat (map hex2 ys) \<longleftrightarrow> xs = ys"
proof (induction xs ys rule: list_induct2)
  case (Cons x xs y ys)
  have "length (hex2 x) = length (hex2 y)" by (simp add: hex2_def)
  then show ?case using Cons by (simp add: append_eq_append_conv hex2_inj)
qed simp

lemma client_hash_tests:
  assumes "\<And>s. 4 \<le> length (sha256 s)"
  shows "short_client_hash_is_deterministic_and_8_chars sha256"
    and "take 4 (sha256 ''10.0.0.1'') \<noteq> take 4 (sha256 ''10.0.0.2'') \<Longrightarrow> take 4 (sha256 ''::1'') \<noteq> take 4 (sha256 ''127.0.0.1'') \<Longrightarrow>
      short_client_hash_distinguishes_different_inputs sha256"
    and "take 4 (sha256 ''abc'') = [CHR 0xBA, CHR 0x78, CHR 0x16, CHR 0xBF] \<Longrightarrow>
      short_client_hash_matches_expected_sha256_prefix sha256"
proof -
  have four: "length (take 4 (sha256 s)) = 4" for s using assms [of s] by simp
  have hex: "length (concat (map hex2 xs)) = 2 * length xs" "list_all is_ascii_hexdigit (concat (map hex2 xs))" for xs
  proof (induction xs)
    case (Cons x xs)
    {
      case 1
      show ?case using Cons(1) by (simp add: hex2_def)
    next
      case 2
      have "is_ascii_hexdigit (hex_digit d)" if "d < 16" for d
        using that by (auto simp: is_ascii_hexdigit_def is_ascii_digit_def byte_hex_digit)
      then have "list_all is_ascii_hexdigit (hex2 x)" using byte_lt [of x] by (simp add: hex2_def less_mult_imp_div_less)
      then show ?case using Cons(2) by simp
    }
  qed simp_all
  show "short_client_hash_is_deterministic_and_8_chars sha256"
    using hex four by (simp add: short_client_hash_is_deterministic_and_8_chars_def short_client_hash_def)
  show "short_client_hash_distinguishes_different_inputs sha256"
    if "take 4 (sha256 ''10.0.0.1'') \<noteq> take 4 (sha256 ''10.0.0.2'')" "take 4 (sha256 ''::1'') \<noteq> take 4 (sha256 ''127.0.0.1'')"
    using that four by (simp add: short_client_hash_distinguishes_different_inputs_def short_client_hash_def concat_hex2_inj)
  have "concat (map hex2 [CHR 0xBA, CHR 0x78, CHR 0x16, CHR 0xBF]) = ''ba7816bf''" by code_simp
  then show "short_client_hash_matches_expected_sha256_prefix sha256"
    if "take 4 (sha256 ''abc'') = [CHR 0xBA, CHR 0x78, CHR 0x16, CHR 0xBF]"
    using that by (simp add: short_client_hash_matches_expected_sha256_prefix_def short_client_hash_def)
qed

end
