(* ===== verification/Env_Safety_Tests.thy ===== *)
theory Env_Safety_Tests
  imports Security_Tests Env_Safety
begin

text \<open>
  The unit tests of \<open>src/env_safety.rs\<close>, one definition per test function, and the proof
  that each holds of the model.
\<close>

section \<open>Environment\<close>

definition dev_words_classify_as_dev :: bool where
  "dev_words_classify_as_dev \<longleftrightarrow>
     list_all (\<lambda>w. from_env_str w = Dev) [''dev'', ''development'', ''local'', ''DEV'', '' Dev  '']"

definition prod_words_classify_as_production :: bool where
  "prod_words_classify_as_production \<longleftrightarrow>
     list_all (\<lambda>w. from_env_str w = Production) [''prod'', ''production'', ''live'', ''PROD'']"

definition unknown_env_defaults_to_production_for_safety :: bool where
  "unknown_env_defaults_to_production_for_safety \<longleftrightarrow>
     from_env_str ''banana'' = Production \<and> from_env_str ''prroduction'' = Production"

lemma environment_tests:
  "dev_words_classify_as_dev" "prod_words_classify_as_production" "unknown_env_defaults_to_production_for_safety"
  by code_simp+

section \<open>Credentials\<close>

definition mk :: "string \<Rightarrow> string \<Rightarrow> string \<Rightarrow> nat \<Rightarrow> CredCheck" where
  "mk context field value n = \<lparr>cred_context = context, cred_field = field, cred_value = value, min_len = n\<rparr>"

definition empty_credential_is_weak :: bool where
  "empty_credential_is_weak \<longleftrightarrow> is_weak (mk ''x'' ''t'' [] 16) = Some Empty \<and> is_weak (mk ''x'' ''t'' ''   '' 16) = Some Empty"

definition short_credential_is_weak :: bool where
  "short_credential_is_weak \<longleftrightarrow> is_weak (mk ''x'' ''t'' ''short'' 16) = Some TooShort"

definition changeit_pattern_matches_case_insensitive :: bool where
  "changeit_pattern_matches_case_insensitive \<longleftrightarrow>
     map_option show_weak_reason (is_weak (mk ''keystore'' ''password'' ''ChangeIt-padding-to-be-long'' 12)) =
       Some ''weak-pattern:changeit''"

definition test_admin_token_pattern_matches :: bool where
  "test_admin_token_pattern_matches \<longleftrightarrow>
     is_weak (mk ''admin'' ''token'' ''test-admin-token-32bytes-abcdef01234'' 32) \<noteq> None"

definition strong_credential_passes :: bool where
  "strong_credential_passes \<longleftrightarrow> is_weak (mk ''admin'' ''token'' ''9f8b2a1c1cbb52fda40d7a5c9e6e3210'' 32) = None"

definition enforce_creds_refuses_in_production :: bool where
  "enforce_creds_refuses_in_production \<longleftrightarrow>
     (case enforce_creds Production [mk ''db'' ''password'' ''01234abcdef'' 12] of
        Some (Err err) \<Rightarrow> str_contains ''REFUSING TO START'' err \<and> str_contains ''01****ef'' err \<and> str_contains ''APP_ENV=dev'' err
      | _ \<Rightarrow> False)"

definition enforce_creds_accepts_in_dev :: bool where
  "enforce_creds_accepts_in_dev \<longleftrightarrow> enforce_creds Dev [mk ''db'' ''password'' ''01234'' 12] = Some (Ok ())"

definition enforce_creds_passes_with_no_failures :: bool where
  "enforce_creds_passes_with_no_failures \<longleftrightarrow>
     enforce_creds Production [] = Some (Ok ()) \<and>
     enforce_creds Production [mk ''x'' ''t'' ''9f8b2a1c1cbb52fda40d7a5c9e6e3210'' 32] = Some (Ok ())"

lemma weak_tests:
  "empty_credential_is_weak" "short_credential_is_weak" "changeit_pattern_matches_case_insensitive"
  "test_admin_token_pattern_matches"
  by code_simp+

lemma strong_value: "is_weak (mk c f ''9f8b2a1c1cbb52fda40d7a5c9e6e3210'' 32) = None"
  by (simp add: mk_def is_weak_def trim_def trim_chars_def utf8_width_def Let_def ascii_case_eval WEAK_PATTERNS_def)

lemma enforce_creds_tests:
  "strong_credential_passes" "enforce_creds_refuses_in_production" "enforce_creds_accepts_in_dev"
  "enforce_creds_passes_with_no_failures"
proof -
  show "enforce_creds_refuses_in_production" "enforce_creds_accepts_in_dev" by code_simp+
  show "strong_credential_passes" "enforce_creds_passes_with_no_failures"
    by (simp_all add: strong_credential_passes_def enforce_creds_passes_with_no_failures_def strong_value enforce_creds_def)
qed

section \<open>Posture\<close>

definition enforce_posture_refuses_in_production :: bool where
  "enforce_posture_refuses_in_production \<longleftrightarrow>
     (case enforce_posture Production
        [\<lparr>posture_name = ''security.block_private_networks'', is_safe = False, description = ''SSRF lane open'',
          fix_hint = ''flip to true''\<rparr>] of
        Err err \<Rightarrow> str_contains ''REFUSING TO START'' err \<and> str_contains ''SSRF'' err \<and> str_contains ''flip to true'' err
      | Ok _ \<Rightarrow> False)"

definition enforce_posture_accepts_in_dev :: bool where
  "enforce_posture_accepts_in_dev \<longleftrightarrow>
     enforce_posture Dev [\<lparr>posture_name = ''x'', is_safe = False, description = ''y'', fix_hint = ''z''\<rparr>] = Ok ()"

definition enforce_posture_passes_when_all_safe :: bool where
  "enforce_posture_passes_when_all_safe \<longleftrightarrow>
     enforce_posture Production [\<lparr>posture_name = ''x'', is_safe = True, description = ''y'', fix_hint = ''z''\<rparr>] = Ok ()"

lemma posture_tests:
  "enforce_posture_refuses_in_production" "enforce_posture_accepts_in_dev" "enforce_posture_passes_when_all_safe"
  by code_simp+

section \<open>Dev fixtures\<close>

definition dev_fixture_pattern_matches_documented_families :: bool where
  "dev_fixture_pattern_matches_documented_families \<longleftrightarrow>
     list_all (\<lambda>(p, expected). dev_fixture_pattern p = Some expected)
       [(''/app/DSL/dev-login/session.yaml'', ''dev-login''), (''/app/DSL/mock-platform/health.yaml'', ''mock-''),
        (''/app/DSL/http/staging-mock/probe.yaml'', ''-mock''), (''/app/DSL/http/test/probe.yaml'', ''/test/''),
        (''/app/DSL/example-http/fetch.yaml'', ''example-''), (''/app/DSL/http/prod-example/fetch.yaml'', ''-example''),
        (''/app/DSL/dev/probe.yaml'', ''/dev/''), (''/app/DSL/mocks/probe.yaml'', ''/mocks/'')]"

definition dev_fixture_pattern_is_case_insensitive :: bool where
  "dev_fixture_pattern_is_case_insensitive \<longleftrightarrow>
     dev_fixture_pattern ''/app/DSL/MOCK-Foo/x.yaml'' = Some ''mock-'' \<and>
     dev_fixture_pattern ''/app/DSL/Dev-Login/x.yaml'' = Some ''dev-login''"

definition dev_fixture_pattern_normalises_windows_separators :: bool where
  "dev_fixture_pattern_normalises_windows_separators \<longleftrightarrow>
     dev_fixture_pattern (str_join [CHR 0x5C] [''C:'', ''app'', ''DSL'', ''dev'', ''probe.yaml'']) = Some ''/dev/''"

definition dev_fixture_pattern_leaves_prod_paths_alone :: bool where
  "dev_fixture_pattern_leaves_prod_paths_alone \<longleftrightarrow>
     list_all (\<lambda>p. dev_fixture_pattern p = None)
       [''/app/DSL/samples/http/health-check.yaml'', ''/app/DSL/samples/http/post-webhook.yaml'',
        ''/app/DSL/samples/http/manual-trigger.yaml'', ''/app/DSL/samples/http/time-bounded.yaml'',
        ''/app/DSL/samples/shell/hello-world.yaml'', ''/app/DSL/samples/shell/backup.yaml'',
        ''/app/DSL/samples/schedules/examples.yaml'', ''/app/DSL/prod/webhook.yaml'']"

definition dev_fixture_action_from_env_matrix :: bool where
  "dev_fixture_action_from_env_matrix \<longleftrightarrow>
     action_from_env Production False = Refuse \<and> action_from_env Production True = Warn \<and>
     action_from_env Staging False = Refuse \<and> action_from_env Dev False = Warn \<and> action_from_env Dev True = Warn"

lemmas fixture_eval = dev_fixture_pattern_def str_replace_def DEV_ONLY_DSL_PATTERNS_def ascii_case_eval Let_def

lemma upper_chars: "char_of (100 :: nat) = CHR ''d''" "char_of (115 :: nat) = CHR ''s''" "char_of (108 :: nat) = CHR ''l''"
  "char_of (109 :: nat) = CHR ''m''" "char_of (111 :: nat) = CHR ''o''" "char_of (99 :: nat) = CHR ''c''"
  "char_of (107 :: nat) = CHR ''k''" "char_of (102 :: nat) = CHR ''f''"
  by code_simp+

lemma fixture_tests:
  "dev_fixture_pattern_matches_documented_families" "dev_fixture_pattern_is_case_insensitive"
  "dev_fixture_pattern_normalises_windows_separators" "dev_fixture_pattern_leaves_prod_paths_alone"
  "dev_fixture_action_from_env_matrix"
  by (simp_all add: dev_fixture_pattern_matches_documented_families_def dev_fixture_pattern_is_case_insensitive_def
      dev_fixture_pattern_normalises_windows_separators_def dev_fixture_pattern_leaves_prod_paths_alone_def
      dev_fixture_action_from_env_matrix_def fixture_eval upper_chars action_from_env_def requires_prod_creds_def)

end
