(* ===== verification/Doctor_Tests.thy ===== *)
theory Doctor_Tests
  imports Boot Env_Safety_Tests
begin

text \<open>
  The unit tests of \<open>src/doctor.rs\<close>. The tests run in the process environment, which is
  arbitrary here but for the variable of the admin token, which must not be set; the DSL
  directory is an empty one, unless the test names a missing path.
\<close>

definition cfg_with_dsl :: "path \<Rightarrow> AppConfig" where
  "cfg_with_dsl tmp = default_config\<lparr>dsl_path := tmp\<rparr>"

definition some_finding :: "DoctorReport \<Rightarrow> (Finding \<Rightarrow> bool) \<Rightarrow> bool" where
  "some_finding r P \<longleftrightarrow> list_ex P (findings r)"

text \<open>A test fails when the audit panics.\<close>

definition audit :: "(string \<Rightarrow> string) \<Rightarrow> AppConfig \<Rightarrow> env \<Rightarrow> fs_node option \<Rightarrow> Environment \<Rightarrow> (DoctorReport \<Rightarrow> bool) \<Rightarrow> bool" where
  "audit dbg c env tree e check = (case run dbg c env tree e of None \<Rightarrow> False | Some r \<Rightarrow> check r)"

definition dev_env_default_bind_without_token_reports_refuse_to_start_fatal ::
  "(string \<Rightarrow> string) \<Rightarrow> env \<Rightarrow> path \<Rightarrow> bool" where
  "dev_env_default_bind_without_token_reports_refuse_to_start_fatal dbg env tmp \<longleftrightarrow>
     audit dbg (cfg_with_dsl tmp) env (Some (FDir [])) Dev (\<lambda>r.
       some_finding r (\<lambda>f. severity f = SevFatal \<and> finding_name f = ''refuse_to_start'') \<and> exit_code r = 1)"

definition dev_env_with_trust_network_true_clears_refuse_to_start_fatal ::
  "(string \<Rightarrow> string) \<Rightarrow> env \<Rightarrow> path \<Rightarrow> bool" where
  "dev_env_with_trust_network_true_clears_refuse_to_start_fatal dbg env tmp \<longleftrightarrow>
     (let cfg = cfg_with_dsl tmp; cfg = cfg\<lparr>admin := (admin cfg)\<lparr>trust_network := True\<rparr>\<rparr>
      in audit dbg cfg env (Some (FDir [])) Dev (\<lambda>r.
           \<not> some_finding r (\<lambda>f. finding_name f = ''refuse_to_start'') \<and> fatal_count r = 0 \<and>
           some_finding r (\<lambda>f. severity f = SevWeak \<and> finding_name f = ''admin.trust_network'')))"

definition missing_dsl_directory_reports_break :: "(string \<Rightarrow> string) \<Rightarrow> env \<Rightarrow> bool" where
  "missing_dsl_directory_reports_break dbg env \<longleftrightarrow>
     audit dbg (default_config\<lparr>dsl_path := [''/'', ''nonexistent'', ''cronmanager-doctor-test'']\<rparr>) env None Dev (\<lambda>r.
       some_finding r (\<lambda>f. severity f = SevBreak \<and> finding_name f = ''dsl_path''))"

definition prod_env_without_admin_token_reports_fatal ::
  "(string \<Rightarrow> string) \<Rightarrow> env \<Rightarrow> path \<Rightarrow> string \<Rightarrow> bool" where
  "prod_env_without_admin_token_reports_fatal dbg env tmp unique \<longleftrightarrow>
     audit dbg (default_config\<lparr>dsl_path := tmp, admin := \<lparr>bearer_token_env = unique, trust_network = False\<rparr>\<rparr>)
       (env(unique := None)) (Some (FDir [])) Production (\<lambda>r. 1 \<le> fatal_count r \<and> exit_code r = 1)"

definition per_group_token_env_missing_is_weak ::
  "(string \<Rightarrow> string) \<Rightarrow> env \<Rightarrow> path \<Rightarrow> string \<Rightarrow> bool" where
  "per_group_token_env_missing_is_weak dbg env tmp unique \<longleftrightarrow>
     (let cfg = cfg_with_dsl tmp;
          cfg = cfg\<lparr>security := (security cfg)
            \<lparr>per_group_token_envs := btree_insert ''payroll'' unique (per_group_token_envs (security cfg))\<rparr>\<rparr>
      in audit dbg cfg (env(unique := None)) (Some (FDir [])) Dev (\<lambda>r.
           some_finding r (\<lambda>f. severity f = SevWeak \<and> finding_name f = ''security.per_group_token_envs'' \<and>
             str_contains ''payroll'' (message f))))"

definition allowed_private_hosts_keep_production_posture_clean ::
  "(string \<Rightarrow> string) \<Rightarrow> env \<Rightarrow> path \<Rightarrow> bool" where
  "allowed_private_hosts_keep_production_posture_clean dbg env tmp \<longleftrightarrow>
     (let cfg = cfg_with_dsl tmp;
          cfg = cfg\<lparr>security := (security cfg)\<lparr>allowed_private_hosts := [''ruuter-internal'']\<rparr>\<rparr>
      in block_private_networks (security cfg) \<and>
         audit dbg cfg env (Some (FDir [])) Production (\<lambda>r.
           \<not> some_finding r (\<lambda>f. finding_name f = ''env_safety.posture'' \<or>
             finding_name f = ''security.block_private_networks'') \<and>
           some_finding r (\<lambda>f. severity f = SevInfo \<and> finding_name f = ''security.allowed_private_hosts'' \<and>
             str_contains ''ruuter-internal'' (message f))) \<and>
         list_all is_safe (posture_checks_for cfg))"

definition allowed_private_hosts_ip_literal_is_weak ::
  "(string \<Rightarrow> string) \<Rightarrow> env \<Rightarrow> path \<Rightarrow> bool" where
  "allowed_private_hosts_ip_literal_is_weak dbg env tmp \<longleftrightarrow>
     (let cfg = cfg_with_dsl tmp;
          cfg = cfg\<lparr>security := (security cfg)\<lparr>allowed_private_hosts := [''10.0.0.1'']\<rparr>\<rparr>
      in audit dbg cfg env (Some (FDir [])) Dev (\<lambda>r.
           some_finding r (\<lambda>f. severity f = SevWeak \<and> finding_name f = ''security.allowed_private_hosts'' \<and>
             str_contains ''10.0.0.1'' (message f))))"

definition render_starts_with_environment_line_and_ends_with_summary ::
  "(string \<Rightarrow> string) \<Rightarrow> env \<Rightarrow> path \<Rightarrow> bool" where
  "render_starts_with_environment_line_and_ends_with_summary dbg env tmp \<longleftrightarrow>
     audit dbg (cfg_with_dsl tmp) env (Some (FDir [])) Dev (\<lambda>r.
       prefix (''cronmanager doctor '' @ em_dash @ '' dev environment'') (render r) \<and>
       suffix ''info'' (trim_end (render r)) \<and> str_contains ''summary:'' (render r))"

definition severity_ordering_puts_fatal_highest :: bool where
  "severity_ordering_puts_fatal_highest \<longleftrightarrow> SevFatal > SevBreak \<and> SevBreak > SevWeak \<and> SevWeak > SevInfo"

section \<open>The tests hold\<close>

lemma severity_tests: "severity_ordering_puts_fatal_highest"
  by (simp add: severity_ordering_puts_fatal_highest_def less_Severity_def)

text \<open>Without a token and without a database the credential gate prints nothing it could split.\<close>

definition quiet :: "AppConfig \<Rightarrow> env \<Rightarrow> bool" where
  "quiet c env \<longleftrightarrow> database c = None \<and> env (bearer_token_env (admin c)) = None"

lemma quiet_token: "quiet c env \<Longrightarrow> resolve_admin_token c env = None"
  by (simp add: quiet_def resolve_admin_token_def non_empty_var_def)

lemma quiet_creds:
  assumes "quiet c env"
  obtains creds where "enforce_creds e (cred_checks_for c env) = Some creds" and "creds = Ok () \<longleftrightarrow> e = Dev"
proof -
  have checks: "cred_checks_for c env =
      [\<lparr>cred_context = ''admin'', cred_field = ''token'', cred_value = [], min_len = 32\<rparr>]"
    using assms by (simp add: cred_checks_for_def quiet_token) (simp add: quiet_def)
  have *: "\<forall>x\<in>set (cred_checks_for c env). is_weak x \<noteq> None \<longrightarrow> redact (trim (cred_value x)) \<noteq> None"
    "\<exists>x\<in>set (cred_checks_for c env). is_weak x \<noteq> None"
    by (simp_all add: checks is_weak_def redact_def trim_def trim_chars_def)
  obtain r where r: "enforce_creds e (cred_checks_for c env) = Some r"
    using cg.gate_total [OF *(1), of e] by auto
  show ?thesis using that [OF r] cg.gate_passes_iff [OF *(1), of e] *(2) by (auto simp: r)
qed

lemma quiet_audit:
  assumes "quiet c env"
  obtains fs where "fatal_block c env e = Some fs"
    and "run dbg c env tree e =
      Some \<lparr>report_env = e, findings = info_block c env @ break_block c env tree @ weak_block dbg c env @ fs\<rparr>"
proof -
  obtain creds where "enforce_creds e (cred_checks_for c env) = Some creds" by (rule quiet_creds [OF assms, of e])
  then show ?thesis using that by (simp add: run_def fatal_block_def)
qed

lemma audit_holds:
  assumes "quiet c env"
    and "\<And>fs r. fatal_block c env e = Some fs \<Longrightarrow> run dbg c env tree e = Some r \<Longrightarrow> report_env r = e \<Longrightarrow>
      findings r = info_block c env @ break_block c env tree @ weak_block dbg c env @ fs \<Longrightarrow> check r"
  shows "audit dbg c env tree e check"
  by (rule quiet_audit [OF assms(1), of e dbg tree]) (simp add: audit_def assms(2))

lemma quiet_fatal_dev:
  assumes "quiet c env" and "fatal_block c env Dev = Some fs"
  shows "fs = []"
proof -
  obtain creds where "enforce_creds Dev (cred_checks_for c env) = Some creds" "creds = Ok ()"
    by (rule quiet_creds [OF assms(1), of Dev]) simp
  then show ?thesis
    using assms(2) pg.gate_dev [of "posture_checks_for c"] by (simp add: fatal_block_def requires_prod_creds_def)
qed

text \<open>The defaults with an empty DSL directory, no token set.\<close>

lemma quiet_defaults:
  "quiet (cfg_with_dsl tmp) env \<longleftrightarrow> env default_admin_token_env = None"
  "quiet (c\<lparr>security := sec\<rparr>) env \<longleftrightarrow> quiet c env"
  "quiet (c\<lparr>dsl_path := p\<rparr>) env \<longleftrightarrow> quiet c env"
  "quiet (c\<lparr>admin := (admin c)\<lparr>trust_network := b\<rparr>\<rparr>) env \<longleftrightarrow> quiet c env"
  by (simp_all add: quiet_def cfg_with_dsl_def default_config_def default_admin_def)

lemma finding_fields [simp]:
  "finding_name (finding_info n m) = n" "finding_name (finding_weak n m) = n"
  "finding_name (finding_brk n m) = n" "finding_name (finding_fatal n m) = n"
  "message (finding_info n m) = m" "message (finding_weak n m) = m"
  "message (finding_brk n m) = m" "message (finding_fatal n m) = m"
  by (simp_all add: finding_info_def finding_weak_def finding_brk_def finding_fatal_def)

lemmas defaults = cfg_with_dsl_def default_config_def default_admin_def default_limits_def default_security_def
  default_request_timeout_secs_def default_shell_timeout_secs_def

lemma list_ex_tokens:
  "list_ex P (tokens_block sec env) \<longleftrightarrow>
     (\<exists>(g, v)\<in>set (per_group_token_envs sec). non_empty_var env v = None \<and>
        P (finding_weak ''security.per_group_token_envs'' (''group '' @ g @ '': env var '' @ v
            @ '' is unset or empty '' @ em_dash @ '' falls back to master-only'')))"
  by (auto simp: tokens_block_def list_ex_iff emit_if_def split: if_splits)

lemma dev_env_default_bind_without_token_ok:
  assumes "env default_admin_token_env = None"
  shows "dev_env_default_bind_without_token_reports_refuse_to_start_fatal dbg env tmp"
  unfolding dev_env_default_bind_without_token_reports_refuse_to_start_fatal_def
proof (rule audit_holds)
  show q: "quiet (cfg_with_dsl tmp) env" by (simp add: quiet_defaults assms)
  fix fs and r :: DoctorReport
  assume "findings r = info_block (cfg_with_dsl tmp) env @ break_block (cfg_with_dsl tmp) env (Some (FDir [])) @
    weak_block dbg (cfg_with_dsl tmp) env @ fs"
  moreover have "list_ex (\<lambda>f. severity f = SevFatal \<and> finding_name f = ''refuse_to_start'')
      (break_block (cfg_with_dsl tmp) env (Some (FDir [])))"
    using wildcard_not_loopback quiet_token [OF q]
    by (simp add: break_block_def refuse_to_start_without_token_def wildcard_bind_def defaults)
  ultimately show "some_finding r (\<lambda>f. severity f = SevFatal \<and> finding_name f = ''refuse_to_start'') \<and> exit_code r = 1"
    by (auto simp: some_finding_def exit_code_Fatal fatal_def list_ex_iff)
qed

lemma dev_env_with_trust_network_true_ok:
  assumes "env default_admin_token_env = None"
  shows "dev_env_with_trust_network_true_clears_refuse_to_start_fatal dbg env tmp"
  unfolding dev_env_with_trust_network_true_clears_refuse_to_start_fatal_def Let_def
proof (rule audit_holds)
  let ?c = "(cfg_with_dsl tmp)\<lparr>admin := (admin (cfg_with_dsl tmp))\<lparr>trust_network := True\<rparr>\<rparr>"
  show q: "quiet ?c env" by (simp add: quiet_defaults assms)
  fix fs and r :: DoctorReport
  assume fatal: "fatal_block ?c env Dev = Some fs" and run: "run dbg ?c env (Some (FDir [])) Dev = Some r"
    and "findings r = info_block ?c env @ break_block ?c env (Some (FDir [])) @ weak_block dbg ?c env @ fs"
  then have r: "findings r = info_block ?c env @ break_block ?c env (Some (FDir [])) @ weak_block dbg ?c env"
    using quiet_fatal_dev [OF q] by simp
  have "\<not> list_ex P (break_block ?c env (Some (FDir [])))" for P
    using quiet_token [OF q] by (simp add: break_block_def refuse_to_start_without_token_def defaults)
  moreover have "\<not> list_ex (\<lambda>f. finding_name f = ''refuse_to_start'') (info_block ?c env)"
    by (simp add: info_block_def)
  moreover have "\<not> list_ex (\<lambda>f. finding_name f = ''refuse_to_start'') (weak_block dbg ?c env)"
    by (simp add: weak_block_def Let_def hosts_block_def list_ex_tokens defaults)
  moreover have "list_ex (\<lambda>f. severity f = SevWeak \<and> finding_name f = ''admin.trust_network'') (weak_block dbg ?c env)"
    by (simp add: weak_block_def Let_def)
  ultimately show "\<not> some_finding r (\<lambda>f. finding_name f = ''refuse_to_start'') \<and> fatal_count r = 0 \<and>
      some_finding r (\<lambda>f. severity f = SevWeak \<and> finding_name f = ''admin.trust_network'')"
    using fatal_in_info [of ?c env] fatal_in_weak [of dbg ?c env]
    by (auto simp: some_finding_def r fatal_count_def severity_count_def list_ex_iff fatal_def filter_empty_conv)
qed

lemma missing_dsl_directory_ok:
  assumes "env default_admin_token_env = None"
  shows "missing_dsl_directory_reports_break dbg env"
  unfolding missing_dsl_directory_reports_break_def
proof (rule audit_holds)
  let ?c = "default_config\<lparr>dsl_path := [''/'', ''nonexistent'', ''cronmanager-doctor-test'']\<rparr>"
  show "quiet ?c env" using assms by (simp add: quiet_def default_config_def default_admin_def)
  fix fs and r :: DoctorReport
  assume "findings r = info_block ?c env @ break_block ?c env None @ weak_block dbg ?c env @ fs"
  moreover have "list_ex (\<lambda>f. severity f = SevBreak \<and> finding_name f = ''dsl_path'') (break_block ?c env None)"
    by (simp add: break_block_def)
  ultimately show "some_finding r (\<lambda>f. severity f = SevBreak \<and> finding_name f = ''dsl_path'')"
    by (simp add: some_finding_def)
qed

lemma prod_env_without_admin_token_ok: "prod_env_without_admin_token_reports_fatal dbg env tmp unique"
  unfolding prod_env_without_admin_token_reports_fatal_def
proof (rule audit_holds)
  let ?c = "default_config\<lparr>dsl_path := tmp, admin := \<lparr>bearer_token_env = unique, trust_network = False\<rparr>\<rparr>"
  let ?env = "env(unique := None)"
  show q: "quiet ?c ?env" by (simp add: quiet_def default_config_def)
  fix fs and r :: DoctorReport
  assume run: "run dbg ?c ?env (Some (FDir [])) Production = Some r"
  obtain creds where "enforce_creds Production (cred_checks_for ?c ?env) = Some creds" "creds \<noteq> Ok ()"
    by (rule quiet_creds [OF q, of Production]) simp
  then have "exit_code r = 1" using run_fatal [OF run] by simp
  then show "1 \<le> fatal_count r \<and> exit_code r = 1" by (simp add: exit_code_def split: if_splits)
qed

lemma per_group_token_env_missing_ok:
  assumes "env default_admin_token_env = None"
  shows "per_group_token_env_missing_is_weak dbg env tmp unique"
  unfolding per_group_token_env_missing_is_weak_def Let_def
proof (rule audit_holds)
  let ?c = "(cfg_with_dsl tmp)\<lparr>security := (security (cfg_with_dsl tmp))
    \<lparr>per_group_token_envs := btree_insert ''payroll'' unique (per_group_token_envs (security (cfg_with_dsl tmp)))\<rparr>\<rparr>"
  let ?env = "env(unique := None)"
  show "quiet ?c ?env" by (simp add: quiet_defaults assms)
  fix fs and r :: DoctorReport
  assume "findings r = info_block ?c ?env @ break_block ?c ?env (Some (FDir [])) @ weak_block dbg ?c ?env @ fs"
  moreover have "list_ex (\<lambda>f. severity f = SevWeak \<and> finding_name f = ''security.per_group_token_envs'' \<and>
      str_contains ''payroll'' (message f)) (tokens_block (security ?c) ?env)"
    by (simp add: list_ex_tokens defaults non_empty_var_def)
  ultimately show "some_finding r (\<lambda>f. severity f = SevWeak \<and> finding_name f = ''security.per_group_token_envs'' \<and>
      str_contains ''payroll'' (message f))"
    by (simp add: some_finding_def weak_block_def Let_def)
qed

lemma host_vectors: "normalize_allowed_host ''ruuter-internal'' = Some ''ruuter-internal''"
  "normalize_allowed_host ''10.0.0.1'' = None"
  by (simp_all add: host_eval parse_ip_eval)

lemma allowed_private_hosts_keep_production_posture_ok:
  assumes "env default_admin_token_env = None"
  shows "allowed_private_hosts_keep_production_posture_clean dbg env tmp"
proof -
  let ?c = "(cfg_with_dsl tmp)\<lparr>security := (security (cfg_with_dsl tmp))\<lparr>allowed_private_hosts := [''ruuter-internal'']\<rparr>\<rparr>"
  have q: "quiet ?c env" by (simp add: quiet_defaults assms)
  have safe: "list_all is_safe (posture_checks_for ?c)" by (simp add: posture_checks_for_def defaults)
  have "audit dbg ?c env (Some (FDir [])) Production (\<lambda>r.
      \<not> some_finding r (\<lambda>f. finding_name f = ''env_safety.posture'' \<or>
        finding_name f = ''security.block_private_networks'') \<and>
      some_finding r (\<lambda>f. severity f = SevInfo \<and> finding_name f = ''security.allowed_private_hosts'' \<and>
        str_contains ''ruuter-internal'' (message f)))" (is "audit _ _ _ _ _ ?check")
  proof (rule audit_holds [OF q])
    fix fs and r :: DoctorReport
    assume fatal: "fatal_block ?c env Production = Some fs"
      and r: "findings r = info_block ?c env @ break_block ?c env (Some (FDir [])) @ weak_block dbg ?c env @ fs"
    let ?bad = "\<lambda>f. finding_name f = ''env_safety.posture'' \<or> finding_name f = ''security.block_private_networks''"
    obtain creds where creds: "enforce_creds Production (cred_checks_for ?c env) = Some creds"
      by (rule quiet_creds [OF q, of Production])
    have "enforce_posture Production (posture_checks_for ?c) = Ok ()"
      using safe pg.gate_clean [of "posture_checks_for ?c" Production] by (simp add: list_all_iff)
    then have "\<not> list_ex ?bad fs"
      using fatal creds by (cases creds) (auto simp: fatal_block_def defaults)
    moreover have "\<not> list_ex ?bad (info_block ?c env)" by (simp add: info_block_def)
    moreover have "\<not> list_ex ?bad (break_block ?c env (Some (FDir [])))"
      by (simp add: break_block_def defaults split: sum.split)
    moreover have "\<not> list_ex ?bad (weak_block dbg ?c env)"
      by (simp add: weak_block_def Let_def hosts_block_def list_ex_tokens split_allowed_private_hosts_def
          host_vectors defaults)
    moreover have "list_ex (\<lambda>f. severity f = SevInfo \<and> finding_name f = ''security.allowed_private_hosts'' \<and>
        str_contains ''ruuter-internal'' (message f)) (hosts_block dbg (security ?c))"
      by (simp add: hosts_block_def split_allowed_private_hosts_def host_vectors)
    ultimately show "?check r" by (simp add: some_finding_def r weak_block_def Let_def)
  qed
  then show ?thesis
    using safe by (simp add: allowed_private_hosts_keep_production_posture_clean_def Let_def) (simp add: defaults)
qed

text \<open>The \<open>Debug\<close> rendering of an entry has to show it, as that of a string does.\<close>

lemma allowed_private_hosts_ip_literal_ok:
  assumes "env default_admin_token_env = None" and "sublist ''10.0.0.1'' (dbg ''10.0.0.1'')"
  shows "allowed_private_hosts_ip_literal_is_weak dbg env tmp"
  unfolding allowed_private_hosts_ip_literal_is_weak_def Let_def
proof (rule audit_holds)
  let ?c = "(cfg_with_dsl tmp)\<lparr>security := (security (cfg_with_dsl tmp))\<lparr>allowed_private_hosts := [''10.0.0.1'']\<rparr>\<rparr>"
  have message: "str_contains ''10.0.0.1'' (''entry '' @ dbg ''10.0.0.1'' @ '' is not a plain hostname and is ignored'')"
    unfolding str_contains_iff by (rule sublist_inside) (simp only: str_contains_iff assms(2))
  show "quiet ?c env" by (simp add: quiet_defaults assms)
  fix fs and r :: DoctorReport
  assume "findings r = info_block ?c env @ break_block ?c env (Some (FDir [])) @ weak_block dbg ?c env @ fs"
  moreover have "list_ex (\<lambda>f. severity f = SevWeak \<and> finding_name f = ''security.allowed_private_hosts'' \<and>
      str_contains ''10.0.0.1'' (message f)) (hosts_block dbg (security ?c))"
    using message by (simp add: hosts_block_def split_allowed_private_hosts_def host_vectors)
  ultimately show "some_finding r (\<lambda>f. severity f = SevWeak \<and> finding_name f = ''security.allowed_private_hosts'' \<and>
      str_contains ''10.0.0.1'' (message f))"
    by (simp add: some_finding_def weak_block_def Let_def)
qed

text \<open>The report is valid UTF-8 when its findings are, and its summary line is the last one.\<close>

declare str_ok_ascii_Cons [simp]

lemma findings_ok:
  assumes "str_ok (path_display tmp)" and "env default_admin_token_env = None"
  shows "list_all (\<lambda>f. str_ok (finding_line f)) (info_block (cfg_with_dsl tmp) env @
    break_block (cfg_with_dsl tmp) env (Some (FDir [])) @ weak_block dbg (cfg_with_dsl tmp) env)"
proof -
  let ?c = "cfg_with_dsl tmp"
  have token: "resolve_admin_token ?c env = None" by (rule quiet_token) (simp add: quiet_defaults assms(2))
  have "list_all (\<lambda>f. str_ok (finding_line f)) (info_block ?c env)"
    using assms(1) by (simp add: info_block_def token finding_line_def newline_def defaults str_ok_append)
  moreover have "list_all (\<lambda>f. str_ok (finding_line f)) (break_block ?c env (Some (FDir [])))"
    by (simp add: break_block_def token finding_line_def newline_def wildcard_bind_def defaults str_ok_append split: sum.split)
  moreover have "list_all (\<lambda>f. str_ok (finding_line f)) (weak_block dbg ?c env)"
    by (simp add: weak_block_def token Let_def finding_line_def newline_def hosts_block_def tokens_block_def
        default_admin_token_env_def defaults str_ok_append)
  ultimately show ?thesis by simp
qed

lemma lower_dev: "to_ascii_lowercase (show_environment Dev) = ''dev''"
  by code_simp

lemma trim_end_line: "str_ok s \<Longrightarrow> trim_end (s @ ''info'' @ newline) = s @ ''info''"
  by (simp add: trim_end_def chars_append utf8_width_def newline_def)

lemma render_starts_with_environment_line_ok:
  assumes "str_ok (path_display tmp)" and "env default_admin_token_env = None"
  shows "render_starts_with_environment_line_and_ends_with_summary dbg env tmp"
  unfolding render_starts_with_environment_line_and_ends_with_summary_def
proof (rule audit_holds)
  let ?c = "cfg_with_dsl tmp"
  show q: "quiet ?c env" by (simp add: quiet_defaults assms)
  fix fs and r :: DoctorReport
  assume fatal: "fatal_block ?c env Dev = Some fs" and dev: "report_env r = Dev"
    and fs: "findings r = info_block ?c env @ break_block ?c env (Some (FDir [])) @ weak_block dbg ?c env @ fs"
  have lines: "list_all (\<lambda>f. str_ok (finding_line f)) (findings r)"
    using findings_ok [of tmp env dbg] assms fs quiet_fatal_dev [OF q fatal] by simp
  define counts where "counts = show_nat (fatal_count r) @ '' fatal, '' @ show_nat (severity_count SevBreak r)
      @ '' break, '' @ show_nat (severity_count SevWeak r) @ '' weak, '' @ show_nat (severity_count SevInfo r) @ '' ''"
  define top where "top = ''cronmanager doctor '' @ em_dash @ '' dev environment''"
  define body where "body = newline @ concat (map finding_line (findings r))"
  have render: "render r = top @ body @ ''summary: '' @ counts @ ''info'' @ newline"
    using lower_dev by (simp add: render_def dev top_def body_def counts_def)
  have "str_ok (concat (map finding_line (findings r)))"
    using lines by (intro str_ok_concat_strs) (auto simp: list_all_iff)
  then have "str_ok (top @ body @ ''summary: '' @ counts)"
    by (simp add: top_def body_def counts_def newline_def str_ok_append)
  from trim_end_line [OF this] have "suffix ''info'' (trim_end (render r))" by (simp add: render suffix_def)
  moreover have "prefix top (render r)" by (simp add: render)
  moreover have "str_contains ''summary:'' (render r)"
    using sublist_inside [of "''summary:''" "''summary: ''" "top @ body"] by (simp add: render str_contains_iff)
  ultimately show "prefix (''cronmanager doctor '' @ em_dash @ '' dev environment'') (render r) \<and>
      suffix ''info'' (trim_end (render r)) \<and> str_contains ''summary:'' (render r)"
    unfolding top_def by blast
qed

end
