(* ===== verification/Loader_Tests.thy ===== *)
theory Loader_Tests
  imports Loader
begin

text \<open>
  The unit tests of \<open>src/dsl/loader.rs\<close>, one definition per test function. The YAML text of
  a test is given as the job it parses to, and what the URL, cron and header
  parsers answer to the test's inputs is a hypothesis of the lemma that shows that the
  test passes.
\<close>

section \<open>Set-up\<close>

definition tmp_dir :: path where "tmp_dir = [''/'', ''tmp'', ''t'']"

definition with_jobs :: "(string \<times> RawJob) list \<Rightarrow> dsl_lib \<Rightarrow> dsl_lib" where
  "with_jobs js lib = lib\<lparr>yaml_jobs := \<lambda>_. Ok js\<rparr>"

definition raw_job :: "string \<Rightarrow> RawJob" where
  "raw_job t = \<lparr>raw_trigger = TStr ''off'', ty = t, start_date = None, end_date = None, retry_count = None,
     retry_delay_ms = None, raw_ignore_failures = None, raw_method = None, raw_url = None, raw_headers = None,
     header_envs = None, raw_command = None, raw_allowed_envs = None\<rparr>"

definition raw_http :: "string \<Rightarrow> string \<Rightarrow> RawJob" where
  "raw_http m u = (raw_job ''http'')\<lparr>raw_method := Some m, raw_url := Some u\<rparr>"

definition raw_exec :: "RawCommand \<Rightarrow> RawJob" where
  "raw_exec c = (raw_job ''exec'')\<lparr>raw_command := Some c\<rparr>"

text \<open>\<open>load_file\<close> and \<open>load_all\<close> on a tree with the one file \<open>d/b.yaml\<close> that holds the job \<open>n\<close>.\<close>

definition load_one ::
  "dsl_lib \<Rightarrow> env \<Rightarrow> LoadPolicy \<Rightarrow> string \<Rightarrow> string \<Rightarrow> string \<Rightarrow> RawJob \<Rightarrow> CronManagerError + LoadedJob list" where
  "load_one lib env policy d b n raw =
     load_file_with_policy (with_jobs [(n, raw)] lib) env tmp_dir (tmp_dir @ [d, b @ ''.yaml'']) (FFile (Ok 200) (Ok [])) policy"

definition load_tree ::
  "dsl_lib \<Rightarrow> env \<Rightarrow> LoadPolicy \<Rightarrow> string \<Rightarrow> string \<Rightarrow> string \<Rightarrow> RawJob \<Rightarrow> CronManagerError + LoadedJob list" where
  "load_tree lib env policy d b n raw =
     load_all_with_policy (with_jobs [(n, raw)] lib) env tmp_dir (Some (FDir [Ok (d, FDir [Ok (b @ ''.yaml'', FFile (Ok 200) (Ok []))])])) policy"

text \<open>The policy most tests spell out.\<close>

definition strict_policy :: LoadPolicy where
  "strict_policy = \<lparr>pol_max_file_bytes = 1024 * 1024, pol_max_retry_count = 10, pol_min_cron_interval_secs = 10,
     pol_block_private_networks = True, pol_dev_fixture_action = Ignore\<rparr>"

text \<open>What the tests assert of a result: one job and something of its specification, or an error and something of its text.\<close>

definition only_spec :: "CronManagerError + LoadedJob list \<Rightarrow> (JobSpec \<Rightarrow> bool) \<Rightarrow> bool" where
  "only_spec r P = (case r of Ok [l] \<Rightarrow> P (spec l) | _ \<Rightarrow> False)"

definition load_fails :: "CronManagerError + LoadedJob list \<Rightarrow> (string \<Rightarrow> bool) \<Rightarrow> bool" where
  "load_fails r P = (case r of Err e \<Rightarrow> P (to_string e) | Ok _ \<Rightarrow> False)"

subsection \<open>Evaluation\<close>

lemma with_jobs_fields [simp]:
  "cron_from_str (with_jobs js lib) = cron_from_str lib" "url_parse (with_jobs js lib) = url_parse lib"
  "header_name (with_jobs js lib) = header_name lib" "header_value_ok (with_jobs js lib) = header_value_ok lib"
  "yaml_jobs (with_jobs js lib) body = Ok js"
  by (simp_all add: with_jobs_def)

lemma env_headers_with_jobs [simp]: "env_headers (with_jobs js lib) env source k out es = env_headers lib env source k out es"
proof (induction es arbitrary: out)
  case (Cons e es)
  obtain n v where e: "e = (n, v)" by (cases e)
  show ?case unfolding e env_headers.simps check_name_def with_jobs_fields Cons.IH ..
qed simp

lemma into_spec_with_jobs [simp]: "into_spec (with_jobs js lib) env raw k source policy = into_spec lib env raw k source policy"
  unfolding into_spec_def http_kind_def validate_http_url_def build_http_headers_def literal_header_def check_name_def
    with_jobs_fields env_headers_with_jobs ..

definition one_spec :: "dsl_lib \<Rightarrow> env \<Rightarrow> LoadPolicy \<Rightarrow> string \<Rightarrow> string \<Rightarrow> string \<Rightarrow> RawJob \<Rightarrow> CronManagerError + JobSpec" where
  "one_spec lib env policy d b n raw =
     into_spec lib env raw (job_key (group_from_path tmp_dir (tmp_dir @ [d, b @ ''.yaml''])) n) (tmp_dir @ [d, b @ ''.yaml'']) policy"

lemma load_one_spec:
  assumes "200 \<le> pol_max_file_bytes policy"
  shows "load_one lib env policy d b n raw =
    and_then (one_spec lib env policy d b n raw) (\<lambda>s. Ok [\<lparr>spec = s, source_path = tmp_dir @ [d, b @ ''.yaml'']\<rparr>])"
  using assms by (simp add: load_one_def load_file_with_policy_def one_spec_def and_then_def guard_err_def map_err_def split: sum.split)

lemma load_tree_one:
  assumes "is_yaml (tmp_dir @ [d, b @ ''.yaml''])" and "pol_dev_fixture_action policy = Ignore"
  shows "load_tree lib env policy d b n raw =
    (case load_one lib env policy d b n raw of Ok ls \<Rightarrow> Ok ls | Err _ \<Rightarrow> Ok [])"
  using assms
  by (cases "dev_fixture_pattern (path_display (tmp_dir @ [d, b @ ''.yaml'']))"; cases "load_one lib env policy d b n raw")
    (simp_all add: load_tree_def load_one_def load_all_with_policy_def sorted_entries_def path_join_def visit_file_def
      Let_def)

lemma yaml_name: "b \<noteq> [] \<Longrightarrow> is_yaml (p @ [d, b @ ''.yaml''])"
  using rsplit_file_dotted [of b "''yaml''"]
  by (cases b) (auto simp: is_yaml_def extension_def file_name_def)

lemma only_spec_tree:
  assumes "b \<noteq> []" and "pol_dev_fixture_action policy = Ignore" and "200 \<le> pol_max_file_bytes policy"
  shows "only_spec (load_tree lib env policy d b n raw) P \<longleftrightarrow>
    (case one_spec lib env policy d b n raw of Ok s \<Rightarrow> P s | Err _ \<Rightarrow> False)"
  using assms load_tree_one [OF yaml_name [OF assms(1)] assms(2)]
  by (simp add: only_spec_def load_one_spec and_then_def split: sum.split)

lemma fails_one:
  assumes "200 \<le> pol_max_file_bytes policy"
  shows "load_fails (load_one lib env policy d b n raw) P \<longleftrightarrow>
    (case one_spec lib env policy d b n raw of Ok _ \<Rightarrow> False | Err e \<Rightarrow> P (to_string e))"
  using assms by (simp add: load_fails_def load_one_spec and_then_def split: sum.split)

section \<open>Groups and windows\<close>

definition group_derivation_matches_jvm_convention :: bool where
  "group_derivation_matches_jvm_convention \<longleftrightarrow>
     group_from_path [''/'', ''dsl''] [''/'', ''dsl'', ''samples'', ''http'', ''health-check.yaml''] = ''samples-http-health-check''"

definition group_derivation_flat_file :: bool where
  "group_derivation_flat_file \<longleftrightarrow> group_from_path [''/'', ''dsl''] [''/'', ''dsl'', ''simple.yml''] = ''simple''"

definition time_window_allows :: bool where
  "time_window_allows \<longleftrightarrow>
     (let win = \<lparr>start_ms = Some 100, end_ms = Some 200\<rparr>
      in \<not> allows win 99 \<and> allows win 100 \<and> allows win 150 \<and> allows win 200 \<and> \<not> allows win 201)"

definition time_window_open_ended :: bool where
  "time_window_open_ended \<longleftrightarrow>
     (let start_only = \<lparr>start_ms = Some 100, end_ms = None\<rparr>; end_only = \<lparr>start_ms = None, end_ms = Some 100\<rparr>;
          unbounded = \<lparr>start_ms = None, end_ms = None\<rparr>; lo = - (2 ^ 63); hi = 2 ^ 63 - 1
      in \<not> allows start_only 50 \<and> allows start_only 100 \<and> allows start_only hi \<and>
         allows end_only lo \<and> allows end_only 100 \<and> \<not> allows end_only 101 \<and> allows unbounded lo \<and> allows unbounded hi)"

lemma group_and_window_tests:
  "group_derivation_matches_jvm_convention" "group_derivation_flat_file" "time_window_allows" "time_window_open_ended"
proof -
  show "group_derivation_matches_jvm_convention" "group_derivation_flat_file" by code_simp+
  show "time_window_allows" "time_window_open_ended"
    by (simp_all add: time_window_allows_def time_window_open_ended_def allows_def Let_def)
qed

section \<open>Commands\<close>

definition exec_command_string_form_tokenises_on_whitespace :: "dsl_lib \<Rightarrow> env \<Rightarrow> bool" where
  "exec_command_string_form_tokenises_on_whitespace lib env \<longleftrightarrow>
     only_spec (load_tree lib env permissive ''shell'' ''j'' ''j'' (raw_exec (CString ''/bin/echo hello world'')))
       (\<lambda>s. \<exists>a. kind s = Exec [''/bin/echo'', ''hello'', ''world''] a)"

definition exec_command_list_form_preserves_argv :: "dsl_lib \<Rightarrow> env \<Rightarrow> bool" where
  "exec_command_list_form_preserves_argv lib env \<longleftrightarrow>
     only_spec (load_tree lib env permissive ''shell'' ''j'' ''j'' (raw_exec (CList [''/bin/sh'', ''-c'', ''sleep 30; echo done''])))
       (\<lambda>s. \<exists>a. kind s = Exec [''/bin/sh'', ''-c'', ''sleep 30; echo done''] a)"

definition exec_command_empty_string_rejected :: "dsl_lib \<Rightarrow> env \<Rightarrow> bool" where
  "exec_command_empty_string_rejected lib env \<longleftrightarrow>
     load_fails (load_one lib env permissive ''shell'' ''j'' ''j'' (raw_exec (CString ''   ''))) (str_contains ''empty'')"

definition exec_command_empty_list_rejected :: "dsl_lib \<Rightarrow> env \<Rightarrow> bool" where
  "exec_command_empty_list_rejected lib env \<longleftrightarrow>
     load_fails (load_one lib env permissive ''shell'' ''j'' ''j'' (raw_exec (CList []))) (str_contains ''empty'')"

lemma permissive_fields:
  "200 \<le> pol_max_file_bytes permissive" "pol_dev_fixture_action permissive = Ignore" "pol_max_retry_count permissive = - 1"
  "pol_block_private_networks permissive = False" "pol_max_file_bytes permissive = 8388608" "\<not> (- 1 :: u32) < x"
  by (simp_all add: permissive_def word_order.extremum_strict)

lemma off_is_manual: "normalise_trigger (TStr ''off'') source = Ok Manual"
proof -
  have "to_ascii_lowercase ''off'' = ''off''" by code_simp
  then show ?thesis by (simp add: normalise_trigger_def)
qed

lemma exec_spec_eval:
  "one_spec lib env permissive d b n (raw_exec c) =
     and_then (into_argv c (job_key (group_from_path tmp_dir (tmp_dir @ [d, b @ ''.yaml''])) n) (tmp_dir @ [d, b @ ''.yaml'']))
       (\<lambda>argv. Ok \<lparr>key = job_key (group_from_path tmp_dir (tmp_dir @ [d, b @ ''.yaml''])) n, trigger = Manual,
          window = \<lparr>start_ms = None, end_ms = None\<rparr>, retry = \<lparr>count = 0, delay = 1000, ignore_failures = False\<rparr>,
          kind = Exec argv []\<rparr>)"
  by (simp add: one_spec_def into_spec_def raw_exec_def raw_job_def off_is_manual permissive_fields exec_kind_def Let_def
      and_then_def guard_err_def split: sum.split)

lemma command_tests:
  "exec_command_string_form_tokenises_on_whitespace lib env" "exec_command_list_form_preserves_argv lib env"
  "exec_command_empty_string_rejected lib env" "exec_command_empty_list_rejected lib env"
proof -
  have w: "split_whitespace ''/bin/echo hello world'' = [''/bin/echo'', ''hello'', ''world'']" "split_whitespace ''   '' = []"
    by code_simp+
  show "exec_command_string_form_tokenises_on_whitespace lib env" "exec_command_list_form_preserves_argv lib env"
    "exec_command_empty_string_rejected lib env" "exec_command_empty_list_rejected lib env"
    by (simp_all add: exec_command_string_form_tokenises_on_whitespace_def exec_command_list_form_preserves_argv_def
        exec_command_empty_string_rejected_def exec_command_empty_list_rejected_def only_spec_tree fails_one permissive_fields
        exec_spec_eval into_argv_def w bad_job_def tmp_dir_def job_key_def quoted_def)
qed

section \<open>Triggers and fields\<close>

definition manual_trigger_string_off :: "dsl_lib \<Rightarrow> env \<Rightarrow> bool" where
  "manual_trigger_string_off lib env \<longleftrightarrow>
     only_spec (load_tree lib env permissive ''http'' ''m'' ''m'' (raw_http ''GET'' ''https://x'')) (\<lambda>s. trigger s = Manual)"

definition manual_trigger_bool_false :: "dsl_lib \<Rightarrow> env \<Rightarrow> bool" where
  "manual_trigger_bool_false lib env \<longleftrightarrow>
     only_spec (load_tree lib env permissive ''http'' ''m'' ''m'' ((raw_http ''GET'' ''https://x'')\<lparr>raw_trigger := TBool False\<rparr>))
       (\<lambda>s. trigger s = Manual)"

definition manual_trigger_string_false_and_no :: "dsl_lib \<Rightarrow> env \<Rightarrow> bool" where
  "manual_trigger_string_false_and_no lib env \<longleftrightarrow>
     list_all (\<lambda>lit. only_spec (load_tree lib env permissive ''http'' ''m'' ''m''
         ((raw_http ''GET'' ''https://x'')\<lparr>raw_trigger := TStr lit\<rparr>)) (\<lambda>s. trigger s = Manual))
       [''false'', ''no'', ''disabled'']"

definition bad_cron_expression_fails_per_file_load :: "dsl_lib \<Rightarrow> env \<Rightarrow> bool" where
  "bad_cron_expression_fails_per_file_load lib env \<longleftrightarrow>
     (\<exists>x r. load_one lib env permissive ''http'' ''bad'' ''b''
        ((raw_http ''GET'' ''https://x'')\<lparr>raw_trigger := TStr ''not a cron''\<rparr>) = Err (InvalidCron x r))"

definition unknown_http_method_fails_per_file_load :: "dsl_lib \<Rightarrow> env \<Rightarrow> bool" where
  "unknown_http_method_fails_per_file_load lib env \<longleftrightarrow>
     (\<exists>p r. load_one lib env permissive ''http'' ''bad'' ''b'' (raw_http ''FLOOP'' ''https://x'') = Err (InvalidJobDefinition p r))"

definition unknown_job_type_fails_per_file_load :: "dsl_lib \<Rightarrow> env \<Rightarrow> bool" where
  "unknown_job_type_fails_per_file_load lib env \<longleftrightarrow>
     (\<exists>p r. load_file (with_jobs [(''b'', (raw_http ''GET'' ''https://x'')\<lparr>ty := ''telnet''\<rparr>)] lib) env tmp_dir (tmp_dir @ [''x.yaml''])
        (FFile (Ok 200) (Ok [])) = Err (InvalidJobDefinition p r))"

definition loads_http_job_with_all_fields :: "dsl_lib \<Rightarrow> env \<Rightarrow> bool" where
  "loads_http_job_with_all_fields lib env \<longleftrightarrow>
     only_spec (load_tree lib env permissive ''http'' ''health'' ''hc''
         ((raw_http ''GET'' ''https://example.com'')\<lparr>raw_trigger := TStr ''0 */5 * * * ?'', retry_count := Some 2,
            retry_delay_ms := Some 500, raw_ignore_failures := Some True, start_date := Some 1000, end_date := Some 2000\<rparr>))
       (\<lambda>s. name (key s) = ''hc'' \<and> group (key s) = ''http-health'' \<and> trigger s = Cron ''0 */5 * * * ?'' \<and>
         (\<exists>hs. kind s = Http ''GET'' ''https://example.com'' hs) \<and> count (retry s) = 2 \<and> delay (retry s) = 500 \<and>
         ignore_failures (retry s) \<and> start_ms (window s) = Some 1000 \<and> end_ms (window s) = Some 2000)"

definition retry_count_cap_refuses_oversize_retry :: "dsl_lib \<Rightarrow> env \<Rightarrow> bool" where
  "retry_count_cap_refuses_oversize_retry lib env \<longleftrightarrow>
     load_fails (load_one lib env strict_policy ''http'' ''rc'' ''hc'' ((raw_http ''GET'' ''https://x/'')\<lparr>retry_count := Some 100\<rparr>))
       (\<lambda>msg. str_contains ''retryCount'' msg \<and> str_contains ''max_retry_count'' msg)"

definition missing_dsl_path_is_warning_not_error :: "dsl_lib \<Rightarrow> env \<Rightarrow> bool" where
  "missing_dsl_path_is_warning_not_error lib env \<longleftrightarrow>
     load_all lib env [''/'', ''does'', ''not'', ''exist'', ''anywhere''] None = Ok []"

text \<open>The junk of the oversized file is never read: its text is arbitrary.\<close>

definition file_size_cap_refuses_oversize_dsl :: "dsl_lib \<Rightarrow> env \<Rightarrow> nat \<Rightarrow> string \<Rightarrow> bool" where
  "file_size_cap_refuses_oversize_dsl lib env header body \<longleftrightarrow>
     (case load_file_with_policy lib env tmp_dir (tmp_dir @ [''http'', ''big.yaml'']) (FFile (Ok (1024 * 1024 + header)) (Ok body)) strict_policy of
        Err (InvalidJobDefinition p r) \<Rightarrow> sublist ''max_dsl_file_bytes'' r \<and> sublist ''YAML anchor bomb'' r
      | _ \<Rightarrow> False)"

definition https_url :: "string \<Rightarrow> Url" where
  "https_url h = \<lparr>scheme = ''https'', url_host = Some (Domain h), host_str = Some h, url_port = None\<rparr>"

lemmas load_eval = one_spec_def into_spec_def http_kind_def validate_http_url_def build_http_headers_def raw_http_def raw_job_def
  job_key_def off_is_manual permissive_fields KNOWN_METHODS_def https_url_def

lemma methods_upper: "to_ascii_uppercase ''GET'' = ''GET''" "to_ascii_uppercase ''POST'' = ''POST''"
  "to_ascii_uppercase ''FLOOP'' = ''FLOOP''"
  by code_simp+

lemma triggers_lower:
  "to_ascii_lowercase ''off'' = ''off''" "to_ascii_lowercase ''false'' = ''false''" "to_ascii_lowercase ''no'' = ''no''" "to_ascii_lowercase ''disabled'' = ''disabled''"
  "to_ascii_lowercase ''not a cron'' = ''not a cron''" "to_ascii_lowercase ''0 */5 * * * ?'' = ''0 */5 * * * ?''"
  by code_simp+

lemma trigger_tests:
  assumes "url_parse lib ''https://x'' = Ok (https_url ''x'')"
  shows "manual_trigger_string_off lib env" "manual_trigger_bool_false lib env" "manual_trigger_string_false_and_no lib env"
    "unknown_http_method_fails_per_file_load lib env" "unknown_job_type_fails_per_file_load lib env"
  using assms
  by (simp_all add: manual_trigger_string_off_def manual_trigger_bool_false_def manual_trigger_string_false_and_no_def
      unknown_http_method_fails_per_file_load_def unknown_job_type_fails_per_file_load_def load_file_def load_file_with_policy_def
      only_spec_tree load_one_spec load_eval methods_upper triggers_lower normalise_trigger_def bad_job_def)

lemma bad_cron_test:
  assumes "cron_from_str lib ''not a cron'' = Err r"
  shows "bad_cron_expression_fails_per_file_load lib env"
  using assms
  by (simp add: bad_cron_expression_fails_per_file_load_def load_one_spec load_eval normalise_trigger_def triggers_lower)

lemma all_fields_test:
  assumes "url_parse lib ''https://example.com'' = Ok (https_url ''example.com'')" and "cron_from_str lib ''0 */5 * * * ?'' = Ok c"
  shows "loads_http_job_with_all_fields lib env"
proof -
  have "group_from_path tmp_dir (tmp_dir @ [''http'', ''health.yaml'']) = ''http-health''" by code_simp
  with assms show ?thesis
    by (simp add: loads_http_job_with_all_fields_def only_spec_tree load_eval normalise_trigger_def triggers_lower methods_upper)
qed

lemma cap_tests:
  "retry_count_cap_refuses_oversize_retry lib env" "missing_dsl_path_is_warning_not_error lib env"
proof -
  have d: "show_nat 100 = ''100''" "show_nat 10 = ''10''" by code_simp+
  show "retry_count_cap_refuses_oversize_retry lib env"
    by (simp add: retry_count_cap_refuses_oversize_retry_def fails_one load_eval strict_policy_def d bad_job_def tmp_dir_def quoted_def)
  show "missing_dsl_path_is_warning_not_error lib env"
    by (simp add: missing_dsl_path_is_warning_not_error_def load_all_def load_all_with_policy_def)
qed

lemma size_cap_test:
  assumes "0 < h"
  shows "file_size_cap_refuses_oversize_dsl lib env h body"
proof -
  define r where "r = ''DSL file size '' @ show_nat (1024 * 1024 + h) @ '' bytes exceeds security.max_dsl_file_bytes cap ''
    @ show_nat (1024 * 1024) @ '' '' @ em_dash @ '' a YAML anchor bomb can amplify well past this in the parser; refuse to load''"
  have "load_file_with_policy lib env tmp_dir (tmp_dir @ [''http'', ''big.yaml'']) (FFile (Ok (1024 * 1024 + h)) (Ok body)) strict_policy =
      Err (InvalidJobDefinition (path_display (tmp_dir @ [''http'', ''big.yaml''])) r)"
    using assms by (simp add: load_file_with_policy_def strict_policy_def guard_err_def r_def del: path_display.simps)
  moreover have "sublist ''max_dsl_file_bytes'' r" unfolding r_def
    using sublist_inside [of "''max_dsl_file_bytes''" "'' bytes exceeds security.max_dsl_file_bytes cap ''"
        "''DSL file size '' @ show_nat (1024 * 1024 + h)"] by (simp only: append.assoc) simp
  moreover have "sublist ''YAML anchor bomb'' r" unfolding r_def
    using sublist_inside [of "''YAML anchor bomb''" "'' a YAML anchor bomb can amplify well past this in the parser; refuse to load''"
        "''DSL file size '' @ show_nat (1024 * 1024 + h) @ '' bytes exceeds security.max_dsl_file_bytes cap ''
          @ show_nat (1024 * 1024) @ '' '' @ em_dash" "[]"] by (simp only: append.assoc append_Nil2) simp
  ultimately show ?thesis by (simp add: file_size_cap_refuses_oversize_dsl_def del: sublist_code)
qed

section \<open>Request forgery\<close>

text \<open>Each test names the URL it writes and its host, which is what the URL parser has to yield.\<close>

definition ip_url :: "string \<Rightarrow> Host \<Rightarrow> Url \<Rightarrow> bool" where
  "ip_url sch h u \<longleftrightarrow> scheme u = sch \<and> url_host u = Some h"

definition ssrf_load_refuses_literal_private_ip :: "dsl_lib \<Rightarrow> env \<Rightarrow> bool" where
  "ssrf_load_refuses_literal_private_ip lib env \<longleftrightarrow>
     load_fails (load_one lib env strict_policy ''attack'' ''meta'' ''meta'' (raw_http ''GET'' ''http://169.254.169.254/latest/meta-data/''))
       (\<lambda>msg. str_contains ''169.254.169.254'' msg \<and> str_contains ''non-routable'' msg)"

definition ssrf_load_refuses_ipv6_loopback :: "dsl_lib \<Rightarrow> env \<Rightarrow> bool" where
  "ssrf_load_refuses_ipv6_loopback lib env \<longleftrightarrow>
     load_fails (load_one lib env strict_policy ''attack'' ''loop'' ''loop'' (raw_http ''GET'' ''http://[::1]/'')) (str_contains ''non-routable'')"

definition ssrf_load_refuses_ipv4_mapped_ipv6_private :: "dsl_lib \<Rightarrow> env \<Rightarrow> bool" where
  "ssrf_load_refuses_ipv4_mapped_ipv6_private lib env \<longleftrightarrow>
     load_fails (load_one lib env strict_policy ''attack'' ''mapped'' ''m'' (raw_http ''GET'' ''http://[::ffff:169.254.169.254]/''))
       (str_contains ''non-routable'')"

definition ssrf_load_rejects_non_http_scheme :: "dsl_lib \<Rightarrow> env \<Rightarrow> bool" where
  "ssrf_load_rejects_non_http_scheme lib env \<longleftrightarrow>
     load_fails (load_one lib env strict_policy ''attack'' ''file'' ''f'' (raw_http ''GET'' ''file:///etc/passwd'')) (str_contains ''scheme'')"

definition ssrf_load_allows_public_hostname :: "dsl_lib \<Rightarrow> env \<Rightarrow> bool" where
  "ssrf_load_allows_public_hostname lib env \<longleftrightarrow>
     only_spec (load_tree lib env strict_policy ''ok'' ''ex'' ''e'' (raw_http ''GET'' ''https://example.com/'')) (\<lambda>_. True)"

definition ssrf_bypass_disabled_when_block_private_networks_false :: "dsl_lib \<Rightarrow> env \<Rightarrow> bool" where
  "ssrf_bypass_disabled_when_block_private_networks_false lib env \<longleftrightarrow>
     only_spec (load_tree lib env (strict_policy\<lparr>pol_block_private_networks := False\<rparr>) ''attack'' ''meta'' ''meta''
       (raw_http ''GET'' ''http://169.254.169.254/'')) (\<lambda>_. True)"

definition ssrf_load_rejects_userinfo_trick :: "dsl_lib \<Rightarrow> env \<Rightarrow> bool" where
  "ssrf_load_rejects_userinfo_trick lib env \<longleftrightarrow>
     load_fails (load_one lib env strict_policy ''attack'' ''ui'' ''ui'' (raw_http ''GET'' ''http://legit.com@169.254.169.254/''))
       (str_contains ''169.254.169.254'')"

definition load_all_bounded_delegates_to_sync_loader :: "dsl_lib \<Rightarrow> env \<Rightarrow> bool" where
  "load_all_bounded_delegates_to_sync_loader lib env \<longleftrightarrow>
     only_spec (load_all_bounded (with_jobs [(''hc'', raw_http ''GET'' ''https://example.com/'')] lib) env tmp_dir
         (Some (FDir [Ok (''http'', FDir [Ok (''x.yaml'', FFile (Ok 200) (Ok []))])])) (1024 * 1024) 15 10 10 True Ignore Joined)
       (\<lambda>_. True)"

lemmas strict_eval = strict_policy_def load_eval methods_upper host_ip_def private_ip_error_def bad_job_def tmp_dir_def quoted_def ip_url_def

lemma octets_shown: "show_nat 169 = ''169''" "show_nat 254 = ''254''"
  by code_simp+

lemma ssrf_v4_tests:
  assumes "url_parse lib ''http://169.254.169.254/latest/meta-data/'' = Ok u" "ip_url ''http'' (HostIpv4 (Ipv4Addr 169 254 169 254)) u"
    and "url_parse lib ''http://legit.com@169.254.169.254/'' = Ok v" "ip_url ''http'' (HostIpv4 (Ipv4Addr 169 254 169 254)) v"
    and "url_parse lib ''http://169.254.169.254/'' = Ok w" "ip_url ''http'' (HostIpv4 (Ipv4Addr 169 254 169 254)) w"
  shows "ssrf_load_refuses_literal_private_ip lib env" "ssrf_load_rejects_userinfo_trick lib env"
    "ssrf_bypass_disabled_when_block_private_networks_false lib env"
  using assms
  by (simp_all add: ssrf_load_refuses_literal_private_ip_def ssrf_load_rejects_userinfo_trick_def only_spec_tree fails_one
      ssrf_bypass_disabled_when_block_private_networks_false_def strict_eval octets_shown)

lemma ssrf_v6_tests:
  assumes "url_parse lib ''http://[::1]/'' = Ok u" "ip_url ''http'' (HostIpv6 (Ipv6Addr 0 0 0 0 0 0 0 1)) u"
    and "url_parse lib ''http://[::ffff:169.254.169.254]/'' = Ok v"
      "ip_url ''http'' (HostIpv6 (Ipv6Addr 0 0 0 0 0 0xFFFF 0xA9FE 0xA9FE)) v"
  shows "ssrf_load_refuses_ipv6_loopback lib env" "ssrf_load_refuses_ipv4_mapped_ipv6_private lib env"
proof -
  have "is_private_or_local (V6 (Ipv6Addr 0 0 0 0 0 0 0 1))" "is_private_or_local (V6 (Ipv6Addr 0 0 0 0 0 0xFFFF 0xA9FE 0xA9FE))"
    by (simp_all add: v6_is_loopback_def seg_hi_def seg_lo_def)
  with assms show "ssrf_load_refuses_ipv6_loopback lib env" "ssrf_load_refuses_ipv4_mapped_ipv6_private lib env"
    by (simp_all add: ssrf_load_refuses_ipv6_loopback_def ssrf_load_refuses_ipv4_mapped_ipv6_private_def fails_one strict_eval
        del: is_private_or_local.simps)
      (rule str_contains_right, simp)+
qed

lemma ssrf_host_tests:
  assumes "url_parse lib ''https://example.com/'' = Ok (https_url ''example.com'')"
    and "url_parse lib ''file:///etc/passwd'' = Ok u" and "scheme u = ''file''"
  shows "ssrf_load_rejects_non_http_scheme lib env" "ssrf_load_allows_public_hostname lib env"
    "load_all_bounded_delegates_to_sync_loader lib env"
proof -
  show "ssrf_load_rejects_non_http_scheme lib env" "ssrf_load_allows_public_hostname lib env"
    using assms
    by (simp_all add: ssrf_load_rejects_non_http_scheme_def ssrf_load_allows_public_hostname_def fails_one only_spec_tree
        strict_eval em_dash_def)
  have "load_all_bounded l env tmp_dir (Some (FDir [Ok (''http'', FDir [Ok (''x'' @ ''.yaml'', FFile (Ok 200) (Ok []))])]))
      (1024 * 1024) 15 10 10 True Ignore Joined = load_tree lib env strict_policy ''http'' ''x'' ''hc'' (raw_http ''GET'' ''https://example.com/'')"
    if "l = with_jobs [(''hc'', raw_http ''GET'' ''https://example.com/'')] lib" for l
    by (simp add: load_all_bounded_def load_tree_def strict_policy_def that)
  from this [OF refl] show "load_all_bounded_delegates_to_sync_loader lib env"
    using assms by (simp add: load_all_bounded_delegates_to_sync_loader_def only_spec_tree strict_eval)
qed

section \<open>Headers\<close>

definition load_http :: "dsl_lib \<Rightarrow> env \<Rightarrow> (string \<times> string) list \<Rightarrow> (string \<times> string) list \<Rightarrow> CronManagerError + LoadedJob list" where
  "load_http lib env hs es =
     load_one lib env permissive ''h'' ''j'' ''j''
       ((raw_http ''POST'' ''https://example.com/'')\<lparr>raw_headers := Some hs, header_envs := Some es\<rparr>)"

definition http_headers_literal_and_env_load :: "dsl_lib \<Rightarrow> env \<Rightarrow> bool" where
  "http_headers_literal_and_env_load lib env \<longleftrightarrow>
     only_spec (load_http lib (env(''CM_TEST_HDR_LOAD_OK'' \<mapsto> ''tok'')) [(''X-Static'', ''one'')]
         [(''X-Internal-Service-Token'', ''CM_TEST_HDR_LOAD_OK'')])
       (\<lambda>s. \<exists>m u. kind s = Http m u [\<lparr>hdr_name = ''x-static'', hdr_source = Literal ''one''\<rparr>,
          \<lparr>hdr_name = ''x-internal-service-token'', hdr_source = Env ''CM_TEST_HDR_LOAD_OK''\<rparr>])"

definition http_header_env_unset_rejected_at_load :: "dsl_lib \<Rightarrow> env \<Rightarrow> bool" where
  "http_header_env_unset_rejected_at_load lib env \<longleftrightarrow>
     load_fails (load_http lib (env(''CM_TEST_HDR_DEFINITELY_UNSET'' := None)) [] [(''X-Token'', ''CM_TEST_HDR_DEFINITELY_UNSET'')])
       (str_contains ''not set'')"

definition http_header_forbidden_and_duplicate_rejected :: "dsl_lib \<Rightarrow> env \<Rightarrow> bool" where
  "http_header_forbidden_and_duplicate_rejected lib env \<longleftrightarrow>
     (let env = env(''CM_TEST_HDR_DUP'' \<mapsto> ''v'') in
      load_fails (load_http lib env [(''Host'', ''evil.example'')] []) (str_contains ''may not set'') \<and>
      load_fails (load_http lib env [(''X-A'', ''one'')] [(''x-a'', ''CM_TEST_HDR_DUP'')]) (str_contains ''both'') \<and>
      load_fails (load_http lib env [(''bad name'', ''one'')] []) (str_contains ''invalid header name''))"

definition http_header_literal_value_with_control_bytes_rejected :: "dsl_lib \<Rightarrow> env \<Rightarrow> bool" where
  "http_header_literal_value_with_control_bytes_rejected lib env \<longleftrightarrow>
     list_all (\<lambda>v. load_fails (load_http lib env [(''X-A'', v)] []) (str_contains ''invalid value for header''))
       [''legit'' @ [CHR 0x0D, CHR 0x0A] @ ''X-Injected: evil'', ''has'' @ [CHR 0x00] @ ''nul'', ''has'' @ [CHR 0x01] @ ''control'']"

definition http_header_env_var_name_malformed_rejected :: "dsl_lib \<Rightarrow> env \<Rightarrow> bool" where
  "http_header_env_var_name_malformed_rejected lib env \<longleftrightarrow>
     list_all (\<lambda>bad. load_fails (load_http lib env [] [(''X-Token'', bad)]) (str_contains ''not a valid env-var name''))
       [[], ''1STARTS_WITH_DIG'', ''HAS-DASH'', ''HAS.DOT'', ''HAS SPACE'']"

definition http_header_env_value_invalid_rejected_at_load :: "dsl_lib \<Rightarrow> env \<Rightarrow> bool" where
  "http_header_env_value_invalid_rejected_at_load lib env \<longleftrightarrow>
     load_fails (load_http lib (env(''CM_TEST_HDR_ENV_VAL_CRLF'' \<mapsto> ''secret-stuff'' @ [CHR 0x0D, CHR 0x0A] @ ''X-Injected: evil'')) []
         [(''X-Token'', ''CM_TEST_HDR_ENV_VAL_CRLF'')])
       (\<lambda>msg. str_contains ''not a valid header value'' msg \<and> str_contains ''CM_TEST_HDR_ENV_VAL_CRLF'' msg \<and>
          \<not> str_contains ''secret-stuff'' msg \<and> \<not> str_contains ''X-Injected'' msg)"

definition http_header_forbidden_case_insensitive_variants :: "dsl_lib \<Rightarrow> env \<Rightarrow> bool" where
  "http_header_forbidden_case_insensitive_variants lib env \<longleftrightarrow>
     list_all (\<lambda>n. load_fails (load_http lib env [(n, ''whatever'')] []) (str_contains ''may not set''))
       [''HOST'', ''HoSt'', ''host'', ''CONNECTION'', ''CoNnEcTiOn'', ''CONTENT-LENGTH'', ''content-length'', ''Content-Length'',
        ''TRANSFER-ENCODING'', ''Transfer-Encoding'', ''transfer-ENCODING'', ''TE'', ''te'', ''Te'', ''TRAILER'', ''trailer'',
        ''UPGRADE'', ''upgrade'', ''Upgrade'']"

definition http_header_name_with_control_or_whitespace_rejected :: "dsl_lib \<Rightarrow> env \<Rightarrow> bool" where
  "http_header_name_with_control_or_whitespace_rejected lib env \<longleftrightarrow>
     list_all (\<lambda>n. load_fails (load_http lib env [(n, ''v'')] []) (str_contains ''invalid header name''))
       [''X-'' @ [CHR 0x0D, CHR 0x0A] @ ''-A'', [CHR 0x0D, CHR 0x0A] @ ''Host'', ''X-'' @ [CHR 0x00] @ ''-A'', ''X-Has Space'',
        ''X-Has'' @ [CHR 0x09] @ ''Tab'', ''X-Has'' @ [CHR 0x01] @ ''Ctrl'']"

definition http_header_name_pseudo_header_rejected :: "dsl_lib \<Rightarrow> env \<Rightarrow> bool" where
  "http_header_name_pseudo_header_rejected lib env \<longleftrightarrow>
     list_all (\<lambda>n. load_fails (load_http lib env [(n, ''v'')] []) (str_contains ''invalid header name''))
       ['':authority'', '':method'', '':path'', '':scheme'', '':status'']"

definition http_header_env_set_but_empty_rejected_at_load :: "dsl_lib \<Rightarrow> env \<Rightarrow> bool" where
  "http_header_env_set_but_empty_rejected_at_load lib env \<longleftrightarrow>
     load_fails (load_http lib (env(''CM_TEST_HDR_EMPTY'' \<mapsto> [])) [] [(''X-Token'', ''CM_TEST_HDR_EMPTY'')])
       (str_contains ''empty or not a valid header value'')"

definition http_header_literal_empty_value_accepted :: "dsl_lib \<Rightarrow> env \<Rightarrow> bool" where
  "http_header_literal_empty_value_accepted lib env \<longleftrightarrow>
     only_spec (load_http lib env [(''X-A'', [])] []) (\<lambda>s. \<exists>m u. kind s = Http m u [\<lparr>hdr_name = ''x-a'', hdr_source = Literal []\<rparr>])"

definition http_header_error_includes_job_name :: "dsl_lib \<Rightarrow> env \<Rightarrow> bool" where
  "http_header_error_includes_job_name lib env \<longleftrightarrow>
     load_fails (load_http lib env [(''Host'', ''evil.example'')] []) (str_contains (''job '' @ [CHR 0x27] @ ''j'' @ [CHR 0x27]))"

text \<open>What the header crate promises: names are lower-cased, invalid ones refused.\<close>

definition header_laws :: "dsl_lib \<Rightarrow> bool" where
  "header_laws lib \<longleftrightarrow>
     (\<forall>n. n \<noteq> [] \<and> list_all (\<lambda>c. is_ascii_alphanumeric c \<or> c = CHR ''-'') n \<longrightarrow> header_name lib n = Some (to_ascii_lowercase n)) \<and>
     (\<forall>n. list_ex (\<lambda>c. byte c < 0x21 \<or> c = CHR '':'') n \<longrightarrow> header_name lib n = None) \<and>
     (\<forall>v. list_all (\<lambda>c. 0x20 \<le> byte c \<and> byte c < 0x7F) v \<longrightarrow> header_value_ok lib v) \<and>
     (\<forall>v. list_ex (\<lambda>c. byte c < 0x20 \<and> c \<noteq> CHR 0x09) v \<longrightarrow> \<not> header_value_ok lib v) \<and>
     url_parse lib ''https://example.com/'' = Ok (https_url ''example.com'')"

definition header_source :: path where "header_source = [''/'', ''tmp'', ''t'', ''h'', ''j.yaml'']"

definition header_key :: JobKey where "header_key = job_key (group_from_path tmp_dir header_source) ''j''"

lemma header_spec:
  assumes "header_laws lib"
  shows "one_spec lib env permissive ''h'' ''j'' ''j''
      ((raw_http ''POST'' ''https://example.com/'')\<lparr>raw_headers := Some hs, header_envs := Some es\<rparr>) =
    and_then (build_http_headers lib env hs es header_source header_key) (\<lambda>h.
      Ok \<lparr>key = header_key, trigger = Manual, window = \<lparr>start_ms = None, end_ms = None\<rparr>,
        retry = \<lparr>count = 0, delay = 1000, ignore_failures = False\<rparr>, kind = Http ''POST'' ''https://example.com/'' h\<rparr>)"
  using assms
  by (simp add: header_laws_def one_spec_def into_spec_def http_kind_def validate_http_url_def raw_http_def raw_job_def
      off_is_manual permissive_fields KNOWN_METHODS_def https_url_def methods_upper header_source_def header_key_def tmp_dir_def
      job_key_def and_then_def split: sum.split)

lemma header_results:
  assumes "header_laws lib"
  shows "load_fails (load_http lib env hs es) P \<longleftrightarrow>
      (case build_http_headers lib env hs es header_source header_key of Ok _ \<Rightarrow> False | Err e \<Rightarrow> P (to_string e))"
    and "only_spec (load_http lib env hs es) (\<lambda>s. \<exists>m u. kind s = Http m u h) \<longleftrightarrow>
      build_http_headers lib env hs es header_source header_key = Ok h"
  by (simp_all add: load_http_def load_fails_def permissive_fields header_spec [OF assms] only_spec_def load_one_spec
      and_then_def split: sum.split)

lemma header_name_laws:
  assumes "header_laws lib"
  shows "n \<noteq> [] \<Longrightarrow> list_all (\<lambda>c. is_ascii_alphanumeric c \<or> c = CHR ''-'') n \<Longrightarrow> header_name lib n = Some (to_ascii_lowercase n)"
    and "list_ex (\<lambda>c. byte c < 0x21 \<or> c = CHR '':'') n \<Longrightarrow> header_name lib n = None"
    and "list_all (\<lambda>c. 0x20 \<le> byte c \<and> byte c < 0x7F) v \<Longrightarrow> header_value_ok lib v"
    and "list_ex (\<lambda>c. byte c < 0x20 \<and> c \<noteq> CHR 0x09) v \<Longrightarrow> \<not> header_value_ok lib v"
  using assms unfolding header_laws_def by blast+

lemmas header_eval = build_http_headers_def literal_header_def check_name_def bad_job_def header_source_def header_key_def job_key_def
  quoted_def is_ascii_alphanumeric_def is_ascii_upper_def is_ascii_lower_def is_ascii_digit_def FORBIDDEN_HEADERS_def

lemma lower_names:
  "to_ascii_lowercase ''X-Static'' = ''x-static''" "to_ascii_lowercase ''X-Internal-Service-Token'' = ''x-internal-service-token''"
  "to_ascii_lowercase ''X-Token'' = ''x-token''" "to_ascii_lowercase ''X-A'' = ''x-a''" "to_ascii_lowercase ''x-a'' = ''x-a''"
  "to_ascii_lowercase ''Host'' = ''host''"
  by code_simp+

lemma header_name_tests:
  assumes "header_laws lib"
  shows "http_header_name_with_control_or_whitespace_rejected lib env" "http_header_name_pseudo_header_rejected lib env"
  unfolding http_header_name_with_control_or_whitespace_rejected_def http_header_name_pseudo_header_rejected_def
    header_results [OF assms]
  by (simp_all add: header_name_laws [OF assms] header_eval)

lemma header_literal_tests:
  assumes "header_laws lib"
  shows "http_header_literal_value_with_control_bytes_rejected lib env" "http_header_literal_empty_value_accepted lib env"
    "http_header_error_includes_job_name lib env"
  unfolding http_header_literal_value_with_control_bytes_rejected_def http_header_literal_empty_value_accepted_def
    http_header_error_includes_job_name_def header_results [OF assms]
  by (simp_all add: header_name_laws [OF assms] header_eval lower_names)

lemma header_env_tests:
  assumes "header_laws lib"
  shows "http_headers_literal_and_env_load lib env" "http_header_env_unset_rejected_at_load lib env"
    "http_header_forbidden_and_duplicate_rejected lib env" "http_header_env_var_name_malformed_rejected lib env"
    "http_header_env_value_invalid_rejected_at_load lib env" "http_header_env_set_but_empty_rejected_at_load lib env"
  unfolding http_headers_literal_and_env_load_def http_header_env_unset_rejected_at_load_def
    http_header_forbidden_and_duplicate_rejected_def http_header_env_var_name_malformed_rejected_def
    http_header_env_value_invalid_rejected_at_load_def http_header_env_set_but_empty_rejected_at_load_def Let_def
    header_results [OF assms]
  by (simp_all add: header_name_laws [OF assms] header_eval lower_names valid_env_name_def)

lemma forbidden_lower:
  "list_all (\<lambda>n. to_ascii_lowercase n \<in> set FORBIDDEN_HEADERS \<and> n \<noteq> [] \<and>
      list_all (\<lambda>c. is_ascii_alphanumeric c \<or> c = CHR ''-'') n)
     [''HOST'', ''HoSt'', ''host'', ''CONNECTION'', ''CoNnEcTiOn'', ''CONTENT-LENGTH'', ''content-length'', ''Content-Length'',
      ''TRANSFER-ENCODING'', ''Transfer-Encoding'', ''transfer-ENCODING'', ''TE'', ''te'', ''Te'', ''TRAILER'', ''trailer'',
      ''UPGRADE'', ''upgrade'', ''Upgrade'']"
  by code_simp

lemma header_forbidden_test:
  assumes "header_laws lib"
  shows "http_header_forbidden_case_insensitive_variants lib env"
proof -
  have "load_fails (load_http lib env [(n, ''whatever'')] []) (str_contains ''may not set'')"
    if "to_ascii_lowercase n \<in> set FORBIDDEN_HEADERS" "n \<noteq> []" "list_all (\<lambda>c. is_ascii_alphanumeric c \<or> c = CHR ''-'') n" for n
    unfolding header_results [OF assms]
    using that by (simp add: build_http_headers_def literal_header_def check_name_def header_name_laws [OF assms] bad_job_def
        header_source_def header_key_def job_key_def quoted_def del: list_all_iff)
  then show ?thesis
    using forbidden_lower unfolding http_header_forbidden_case_insensitive_variants_def list_all_iff by metis
qed

definition http_header_env_crlf_injection_rejected_at_load :: "dsl_lib \<Rightarrow> env \<Rightarrow> bool" where
  "http_header_env_crlf_injection_rejected_at_load lib env \<longleftrightarrow>
     load_fails (load_http lib (env(''CM_TEST_HDR_CRLF_INJECT'' \<mapsto> ''tok'' @ [CHR 0x0D, CHR 0x0A] @ ''X-Forwarded-For: 203.0.113.9''
           @ [CHR 0x0D, CHR 0x0A] @ ''Authorization: Bearer stolen'')) [] [(''X-Token'', ''CM_TEST_HDR_CRLF_INJECT'')])
       (\<lambda>msg. str_contains ''not a valid header value'' msg \<and> \<not> str_contains ''X-Forwarded-For'' msg \<and>
          \<not> str_contains ''203.0.113.9'' msg \<and> \<not> str_contains ''Bearer stolen'' msg \<and>
          str_contains ''CM_TEST_HDR_CRLF_INJECT'' msg)"

lemma header_injection_test:
  assumes "header_laws lib"
  shows "http_header_env_crlf_injection_rejected_at_load lib env"
  unfolding http_header_env_crlf_injection_rejected_at_load_def header_results [OF assms]
  by (simp add: header_name_laws [OF assms] header_eval lower_names valid_env_name_def)

section \<open>Several files\<close>

text \<open>The two tests with several files keep the text of each, and the parser answers to it.\<close>

definition yaml_file :: "string \<Rightarrow> string list \<Rightarrow> io_error + (string \<times> fs_node)" where
  "yaml_file n ls = (let body = concat (map (\<lambda>l. l @ [CHR 0x0A]) ls) in Ok (n @ ''.yaml'', FFile (Ok (length body)) (Ok body)))"

definition job_text :: "string \<Rightarrow> string \<Rightarrow> string \<Rightarrow> string \<Rightarrow> string list" where
  "job_text n t m u = [n @ '':'', ''  trigger: off'', ''  type: '' @ t, ''  method: '' @ m, ''  url: '' @ u]"

definition load_all_skips_bad_file_and_loads_good_ones :: "dsl_lib \<Rightarrow> env \<Rightarrow> bool" where
  "load_all_skips_bad_file_and_loads_good_ones lib env \<longleftrightarrow>
     (case load_all lib env tmp_dir (Some (FDir [Ok (''http'', FDir
         [yaml_file ''good'' (job_text ''good'' ''http'' ''GET'' ''https://example.com/''),
          yaml_file ''bad'' (job_text ''bad'' ''telnet'' ''GET'' ''https://x'')])])) of
        Ok jobs \<Rightarrow> length jobs = 1 \<and> name (key (spec (jobs ! 0))) = ''good''
      | Err _ \<Rightarrow> False)"

definition load_all_returns_empty_when_every_file_fails :: "dsl_lib \<Rightarrow> env \<Rightarrow> bool" where
  "load_all_returns_empty_when_every_file_fails lib env \<longleftrightarrow>
     load_all lib env tmp_dir (Some (FDir
       [yaml_file ''one'' (job_text ''b'' ''telnet'' ''GET'' ''https://x''),
        yaml_file ''two'' (job_text ''b'' ''http'' ''FLOOP'' ''https://x'')])) = Ok []"

text \<open>What the YAML parser makes of such a text.\<close>

definition text_laws :: "dsl_lib \<Rightarrow> bool" where
  "text_laws lib \<longleftrightarrow>
     (\<forall>(n, t, m, u)\<in>{(''good'', ''http'', ''GET'', ''https://example.com/''), (''bad'', ''telnet'', ''GET'', ''https://x''),
         (''b'', ''telnet'', ''GET'', ''https://x''), (''b'', ''http'', ''FLOOP'', ''https://x'')}.
       yaml_jobs lib (concat (map (\<lambda>l. l @ [CHR 0x0A]) (job_text n t m u))) = Ok [(n, (raw_http m u)\<lparr>ty := t\<rparr>)])"

lemma file_jobs:
  assumes "yaml_jobs lib body = Ok [(n, raw)]" and "length body \<le> pol_max_file_bytes policy" and "is_yaml p"
  shows "visit_jobs lib env root policy (Inr (p, FFile (Ok (length body)) (Ok body))) =
    (case into_spec lib env raw (job_key (group_from_path root p) n) p policy of
       Ok s \<Rightarrow> [\<lparr>spec = s, source_path = p\<rparr>] | Err _ \<Rightarrow> [])"
  using assms by (simp add: load_file_with_policy_def and_then_def guard_err_def map_err_def split: sum.split)

lemma permissive_fine: "is_ok v \<Longrightarrow> visit_fine permissive v"
  by (cases "(permissive, v)" rule: visit_fine.cases) (simp_all add: refused_def permissive_def is_ok_def)

lemma text_job:
  assumes "text_laws lib"
    and "(n, t, m, u) \<in> {(''good'', ''http'', ''GET'', ''https://example.com/''), (''bad'', ''telnet'', ''GET'', ''https://x''),
         (''b'', ''telnet'', ''GET'', ''https://x''), (''b'', ''http'', ''FLOOP'', ''https://x'')}"
    and "body = concat (map (\<lambda>l. l @ [CHR 0x0A]) (job_text n t m u))" and "is_yaml p"
  shows "visit_jobs lib env root permissive (Inr (p, FFile (Ok (length body)) (Ok body))) =
    (case into_spec lib env ((raw_http m u)\<lparr>ty := t\<rparr>) (job_key (group_from_path root p) n) p permissive of
       Ok s \<Rightarrow> [\<lparr>spec = s, source_path = p\<rparr>] | Err _ \<Rightarrow> [])"
proof (rule file_jobs)
  show "yaml_jobs lib body = Ok [(n, (raw_http m u)\<lparr>ty := t\<rparr>)]"
    using assms(1-3) unfolding text_laws_def by blast
  show "length body \<le> pol_max_file_bytes permissive"
    using assms(2,3) by (auto simp: job_text_def permissive_fields)
qed (rule assms(4))

lemma load_tree_tests:
  assumes "text_laws lib" and "url_parse lib ''https://example.com/'' = Ok (https_url ''example.com'')"
  shows "load_all_skips_bad_file_and_loads_good_ones lib env" "load_all_returns_empty_when_every_file_fails lib env"
proof -
  let ?body = "\<lambda>n t m u. concat (map (\<lambda>l. l @ [CHR 0x0A]) (job_text n t m u))"
  let ?node = "\<lambda>b. FFile (Ok (length b)) (Ok b)"
  define good bad one two where texts: "good = ?body ''good'' ''http'' ''GET'' ''https://example.com/''"
    "bad = ?body ''bad'' ''telnet'' ''GET'' ''https://x''" "one = ?body ''b'' ''telnet'' ''GET'' ''https://x''"
    "two = ?body ''b'' ''http'' ''FLOOP'' ''https://x''"
  have files: "yaml_file n (job_text a t m u) = Ok (n @ ''.yaml'', ?node (?body a t m u))" for n a t m u
    by (simp add: yaml_file_def Let_def)
  have yaml: "is_yaml [''/'', ''tmp'', ''t'', ''http'', ''good.yaml'']" "is_yaml [''/'', ''tmp'', ''t'', ''http'', ''bad.yaml'']"
    "is_yaml [''/'', ''tmp'', ''t'', ''one.yaml'']" "is_yaml [''/'', ''tmp'', ''t'', ''two.yaml'']"
    by code_simp+
  note job = text_job [OF assms(1)]
  have v1: "visits tmp_dir (FDir [Ok (''http'', FDir [Ok (''good.yaml'', ?node good), Ok (''bad.yaml'', ?node bad)])]) =
      [Ok ([''/'', ''tmp'', ''t'', ''http'', ''bad.yaml''], ?node bad), Ok ([''/'', ''tmp'', ''t'', ''http'', ''good.yaml''], ?node good)]"
    by (simp add: sorted_entries_def tmp_dir_def path_join_def)
  have good_job: "\<exists>s. visit_jobs lib env tmp_dir permissive (Inr ([''/'', ''tmp'', ''t'', ''http'', ''good.yaml''], ?node good)) =
      [\<lparr>spec = s, source_path = [''/'', ''tmp'', ''t'', ''http'', ''good.yaml'']\<rparr>] \<and> name (key s) = ''good''"
    using assms(2) by (subst job [OF _ texts(1) yaml(1)]) (simp_all add: load_eval methods_upper)
  have none: "visit_jobs lib env tmp_dir permissive (Inr ([''/'', ''tmp'', ''t'', ''http'', ''bad.yaml''], ?node bad)) = []"
    "visit_jobs lib env tmp_dir permissive (Inr ([''/'', ''tmp'', ''t'', ''one.yaml''], ?node one)) = []"
    "visit_jobs lib env tmp_dir permissive (Inr ([''/'', ''tmp'', ''t'', ''two.yaml''], ?node two)) = []"
    by (subst job [OF _ texts(2) yaml(2)] job [OF _ texts(3) yaml(3)] job [OF _ texts(4) yaml(4)];
        simp add: load_eval methods_upper bad_job_def)+
  have v2: "visits tmp_dir (FDir [Ok (''one.yaml'', ?node one), Ok (''two.yaml'', ?node two)]) =
      [Ok ([''/'', ''tmp'', ''t'', ''one.yaml''], ?node one), Ok ([''/'', ''tmp'', ''t'', ''two.yaml''], ?node two)]"
    by (simp add: sorted_entries_def tmp_dir_def path_join_def)
  have load: "load_all lib env tmp_dir (Some node) = Ok (concat (map (visit_jobs lib env tmp_dir permissive) (visits tmp_dir node)))"
    if "\<forall>v\<in>set (visits tmp_dir node). is_ok v" for node
    unfolding load_all_def using that permissive_fine by (subst load_all_Ok_iff) blast
  show "load_all_skips_bad_file_and_loads_good_ones lib env"
    using good_job none(1) load [of "FDir [Ok (''http'', FDir [Ok (''good.yaml'', ?node good), Ok (''bad.yaml'', ?node bad)])]"]
    unfolding load_all_skips_bad_file_and_loads_good_ones_def files texts(1,2) [symmetric] append.simps v1
    by (auto simp del: visit_jobs.simps simp: is_ok_def)
  show "load_all_returns_empty_when_every_file_fails lib env"
    using none(2,3) load [of "FDir [Ok (''one.yaml'', ?node one), Ok (''two.yaml'', ?node two)]"]
    unfolding load_all_returns_empty_when_every_file_fails_def files texts(3,4) [symmetric] append.simps v2
    by (simp del: visit_jobs.simps add: is_ok_def)
qed

end
