(* ===== verification/Http_Tests.thy ===== *)
theory Http_Tests
  imports Http_Executor
begin

text \<open>
  The unit tests of \<open>src/executor/http.rs\<close>, one definition per test function. The mock server is
  the event that the request is answered; what it asserts of the request is asserted of the request
  the executor sends.
\<close>

section \<open>Set-up\<close>

definition mock_events :: "env \<Rightarrow> send_end \<Rightarrow> http_events" where
  "mock_events env answer = \<lparr>ev_lookup_host = (\<lambda>_. Ok [V4 (Ipv4Addr 127 0 0 1)]), ev_http_env = env, ev_send_at = 1, ev_send = answer,
     ev_http_cancel_at = None, ev_http_start = 0\<rparr>"

definition test_executor :: "Limits \<Rightarrow> bool \<Rightarrow> string list \<Rightarrow> HttpExecutor" where
  "test_executor lim block hosts = with_allowed_private_hosts (projr (with_ssrf_policy (Ok ()) lim block)) hosts"

lemma test_executor_fields [simp]:
  "http_max_response_bytes (test_executor lim block hosts) = max_response_bytes lim" "http_block_private (test_executor lim block hosts) = block"
  "http_allowed_hosts (test_executor lim block hosts) = hosts"
  by (simp_all add: test_executor_def with_ssrf_policy_def with_allowed_private_hosts_def)

lemma mock_select: "select (ev_http_start (mock_events env a)) [(HSend, Some (ev_send_at (mock_events env a))), (HStop, ev_http_cancel_at (mock_events env a))] = Some HSend"
  by (simp add: mock_events_def select_def)

lemma mock_execute:
  "http_execute lib ex (mock_events env a) m u hs =
     (case prepare lib ex (mock_events env a) m u hs of
        Err e \<Rightarrow> (None, Err e)
      | Ok req \<Rightarrow> (Some req, case a of SendError t e \<Rightarrow> Err (map_send_err ex t e) | Responded st chunks \<Rightarrow> finish_response ex st chunks))"
  by (simp add: http_execute_def mock_select split: sum.split) (simp add: mock_events_def)

section \<open>Responses\<close>

definition successful_get_returns_body_and_status :: "http_lib \<Rightarrow> env \<Rightarrow> string \<Rightarrow> bool" where
  "successful_get_returns_body_and_status lib env u \<longleftrightarrow>
     snd (http_execute lib (test_executor default_limits False []) (mock_events env (Responded 200 [Ok ''hello world''])) ''GET'' u []) =
       Ok \<lparr>attempt_status = 200, attempt_body = ''hello world''\<rparr>"

definition non_2xx_becomes_upstream_error :: "http_lib \<Rightarrow> env \<Rightarrow> string \<Rightarrow> bool" where
  "non_2xx_becomes_upstream_error lib env u \<longleftrightarrow>
     (\<exists>b. snd (http_execute lib (test_executor default_limits False [])
        (mock_events env (Responded 503 [Ok ''service unavailable''])) ''GET'' u []) = Err (UpstreamHttpError 503 b))"

definition body_exceeding_cap_is_rejected :: "http_lib \<Rightarrow> env \<Rightarrow> string \<Rightarrow> bool" where
  "body_exceeding_cap_is_rejected lib env u \<longleftrightarrow>
     snd (http_execute lib (test_executor (default_limits\<lparr>max_response_bytes := 1024\<rparr>) False [])
        (mock_events env (Responded 200 [Ok (replicate 2048 (CHR ''x''))])) ''GET'' u []) = Err (UpstreamBodyTooLarge 1024)"

definition unknown_method_errors_cleanly :: "http_lib \<Rightarrow> env \<Rightarrow> string \<Rightarrow> bool" where
  "unknown_method_errors_cleanly lib env conn_err \<longleftrightarrow>
     (\<exists>m. snd (http_execute lib (test_executor default_limits False []) (mock_events env (SendError False conn_err)) ''FLOOP''
        ''http://127.0.0.1:1'' []) = Err (Internal m))"

definition redirect_is_not_followed :: "http_lib \<Rightarrow> env \<Rightarrow> string \<Rightarrow> bool" where
  "redirect_is_not_followed lib env u \<longleftrightarrow>
     (\<exists>b. snd (http_execute lib (test_executor default_limits False []) (mock_events env (Responded 302 [])) ''GET'' u []) =
        Err (UpstreamHttpError 302 b))"

lemma plain_prepare:
  assumes "method_from_bytes lib m = Some m" and "to_uppercase lib m = m" and "\<not> http_block_private ex"
  shows "prepare lib ex ev m u [] = Ok \<lparr>req_method = m, req_url = u, req_headers = []\<rparr>"
  using assms by (simp add: prepare_def)

lemma upper_methods: "to_uppercase lib ''GET'' = ''GET''" "to_uppercase lib ''POST'' = ''POST''"
proof -
  have "to_ascii_uppercase ''GET'' = ''GET''" "to_ascii_uppercase ''POST'' = ''POST''" by code_simp+
  then show "to_uppercase lib ''GET'' = ''GET''" "to_uppercase lib ''POST'' = ''POST''" by (simp_all add: to_uppercase_def ascii_def)
qed

lemma response_tests:
  assumes "method_from_bytes lib ''GET'' = Some ''GET''"
  shows "successful_get_returns_body_and_status lib env u" "non_2xx_becomes_upstream_error lib env u"
    "body_exceeding_cap_is_rejected lib env u" "redirect_is_not_followed lib env u"
proof -
  have "from_utf8_lossy ''hello world'' = ''hello world''"
    by (rule from_utf8_lossy_id) code_simp
  then show "successful_get_returns_body_and_status lib env u" "non_2xx_becomes_upstream_error lib env u"
    "body_exceeding_cap_is_rejected lib env u" "redirect_is_not_followed lib env u"
    using plain_prepare [OF assms upper_methods(1)]
    by (simp_all add: successful_get_returns_body_and_status_def non_2xx_becomes_upstream_error_def mock_execute
        body_exceeding_cap_is_rejected_def redirect_is_not_followed_def finish_response_def http_read_bounded_def
        default_limits_def default_max_response_bytes_def del: from_utf8_lossy.simps)
qed

lemma unknown_method_test: "unknown_method_errors_cleanly lib env conn_err"
  by (simp add: unknown_method_errors_cleanly_def mock_execute prepare_def map_send_err_def ok_or_def split: option.split)

section \<open>Pre-flight\<close>

definition localhost_url :: "nat option \<Rightarrow> Url" where
  "localhost_url p = \<lparr>scheme = ''http'', url_host = Some (Domain ''localhost''), host_str = Some ''localhost'', url_port = p\<rparr>"

definition ssrf_pre_flight_refuses_private_hostname_dns :: "http_lib \<Rightarrow> env \<Rightarrow> bool" where
  "ssrf_pre_flight_refuses_private_hostname_dns lib env \<longleftrightarrow>
     (case snd (http_execute lib (test_executor default_limits True []) (mock_events env (Responded 200 [])) ''GET''
        ''http://localhost:1/whatever'' []) of
        Err e \<Rightarrow> str_contains ''SSRF pre-flight'' (to_string e) \<and> str_contains ''localhost'' (to_string e)
      | Ok _ \<Rightarrow> False)"

definition ssrf_pre_flight_allows_allowlisted_private_hostname :: "http_lib \<Rightarrow> env \<Rightarrow> string \<Rightarrow> bool" where
  "ssrf_pre_flight_allows_allowlisted_private_hostname lib env u \<longleftrightarrow>
     (case http_execute lib (test_executor default_limits True [''localhost'']) (mock_events env (Responded 200 [])) ''POST'' u [] of
        (Some req, Ok attempt) \<Rightarrow> req_method req = ''POST'' \<and> req_url req = u \<and> attempt_status attempt = 200
      | _ \<Rightarrow> False)"

definition ssrf_pre_flight_refuses_private_hostname_not_on_allowlist :: "http_lib \<Rightarrow> env \<Rightarrow> bool" where
  "ssrf_pre_flight_refuses_private_hostname_not_on_allowlist lib env \<longleftrightarrow>
     (case snd (http_execute lib (test_executor default_limits True [''ruuter-internal'']) (mock_events env (Responded 200 [])) ''GET''
        ''http://localhost:1/whatever'' []) of
        Err e \<Rightarrow> str_contains ''SSRF pre-flight'' (to_string e) \<and> str_contains ''allowed_private_hosts'' (to_string e)
      | Ok _ \<Rightarrow> False)"

definition allowlist_match_is_exact_and_case_insensitive :: bool where
  "allowlist_match_is_exact_and_case_insensitive \<longleftrightarrow>
     (let allowed = [''ruuter-internal''] in
      is_allowlisted ''ruuter-internal'' allowed \<and> is_allowlisted ''Ruuter-Internal.'' allowed \<and>
      \<not> is_allowlisted ''ruuter-internal.evil.example'' allowed \<and> \<not> is_allowlisted ''xruuter-internal'' allowed \<and>
      \<not> is_allowlisted ''ruuter-internal'' [])"

definition truncate_never_splits_codepoint :: bool where
  "truncate_never_splits_codepoint \<longleftrightarrow> prefix ''a'' (http_truncate [CHR ''a'', CHR 0xC3, CHR 0xA4] 2)"

lemma allowlist_tests: "allowlist_match_is_exact_and_case_insensitive" "truncate_never_splits_codepoint"
  by code_simp+

lemma local_host: "parse_ip ''localhost'' = None" "is_allowlisted ''localhost'' [''localhost'']"
  "\<not> is_allowlisted ''localhost'' [''ruuter-internal'']" "\<not> is_allowlisted ''localhost'' []"
proof -
  show "parse_ip ''localhost'' = None" by (simp add: parse_ip_eval)
  show "is_allowlisted ''localhost'' [''localhost'']" "\<not> is_allowlisted ''localhost'' [''ruuter-internal'']"
    "\<not> is_allowlisted ''localhost'' []" by code_simp+
qed

lemma pre_flight_tests:
  assumes "method_from_bytes lib ''GET'' = Some ''GET''" and "method_from_bytes lib ''POST'' = Some ''POST''"
    and "url_parse (dsl lib) ''http://localhost:1/whatever'' = Ok (localhost_url (Some 1))"
    and "url_parse (dsl lib) u = Ok (localhost_url p)"
  shows "ssrf_pre_flight_refuses_private_hostname_dns lib env"
    "ssrf_pre_flight_refuses_private_hostname_not_on_allowlist lib env"
    "ssrf_pre_flight_allows_allowlisted_private_hostname lib env u"
proof -
  have d: "show_nat 127 = ''127''" "show_nat 0 = ''0''" "show_nat (Suc 0) = ''1''" by code_simp+
  have m: "ev_lookup_host (mock_events env a) t = Ok [V4 (Ipv4Addr 127 0 0 1)]" for a t by (simp add: mock_events_def)
  show "ssrf_pre_flight_refuses_private_hostname_dns lib env"
    "ssrf_pre_flight_refuses_private_hostname_not_on_allowlist lib env"
    "ssrf_pre_flight_allows_allowlisted_private_hostname lib env u"
    using assms
    by (simp_all add: ssrf_pre_flight_refuses_private_hostname_dns_def ssrf_pre_flight_allows_allowlisted_private_hostname_def
        ssrf_pre_flight_refuses_private_hostname_not_on_allowlist_def mock_execute prepare_def reject_private_dns_def
        localhost_url_def local_host ssrf_refuses_def m d quoted_def upper_methods finish_response_def http_read_bounded_def
        default_limits_def)
qed

definition allowlisted_host_reaches_private_but_never_metadata :: bool where
  "allowlisted_host_reaches_private_but_never_metadata \<longleftrightarrow>
     list_all (\<lambda>s. case parse_ip s of Some ip \<Rightarrow> \<not> ssrf_refuses ip True \<and> ssrf_refuses ip False | None \<Rightarrow> False)
       [''10.1.2.3'', ''172.18.0.5'', ''192.168.1.1'', ''127.0.0.1'', ''fd12::1'', ''::1''] \<and>
     list_all (\<lambda>s. case parse_ip s of Some ip \<Rightarrow> ssrf_refuses ip True \<and> ssrf_refuses ip False | None \<Rightarrow> False)
       [''169.254.169.254'', ''::ffff:169.254.169.254'', ''fe80::1'', ''fd00:ec2::254'', ''0.0.0.0'', ''224.0.0.1''] \<and>
     (case parse_ip ''93.184.216.34'' of Some ip \<Rightarrow> \<not> ssrf_refuses ip True \<and> \<not> ssrf_refuses ip False | None \<Rightarrow> False)"

lemma metadata_vectors:
  "parse_ip ''fd12::1'' = Some (V6 (Ipv6Addr 0xFD12 0 0 0 0 0 0 1))" "parse_ip ''::1'' = Some (V6 (Ipv6Addr 0 0 0 0 0 0 0 1))"
  "parse_ip ''::ffff:169.254.169.254'' = Some (V6 (Ipv6Addr 0 0 0 0 0 0xFFFF 0xA9FE 0xA9FE))"
  "parse_ip ''fe80::1'' = Some (V6 (Ipv6Addr 0xFE80 0 0 0 0 0 0 1))"
  "parse_ip ''fd00:ec2::254'' = Some (V6 (Ipv6Addr 0xFD00 0xEC2 0 0 0 0 0 0x254))"
  by (simp_all add: parse_ip_eval ipv6_of_list_def seg_of_def is_ascii_upper_def nth_append)

lemma metadata_vectors_v4:
  "parse_ip ''10.1.2.3'' = Some (V4 (Ipv4Addr 10 1 2 3))" "parse_ip ''172.18.0.5'' = Some (V4 (Ipv4Addr 172 18 0 5))"
  "parse_ip ''192.168.1.1'' = Some (V4 (Ipv4Addr 192 168 1 1))" "parse_ip ''127.0.0.1'' = Some (V4 (Ipv4Addr 127 0 0 1))"
  "parse_ip ''169.254.169.254'' = Some (V4 (Ipv4Addr 169 254 169 254))" "parse_ip ''0.0.0.0'' = Some (V4 (Ipv4Addr 0 0 0 0))"
  "parse_ip ''224.0.0.1'' = Some (V4 (Ipv4Addr 224 0 0 1))" "parse_ip ''93.184.216.34'' = Some (V4 (Ipv4Addr 93 184 216 34))"
  by (simp_all add: parse_ip_eval)

lemma metadata_test: "allowlisted_host_reaches_private_but_never_metadata"
  by (simp add: allowlisted_host_reaches_private_but_never_metadata_def metadata_vectors metadata_vectors_v4 ssrf_refuses_def
      v6_is_loopback_def v6_is_unspecified_def seg_hi_def seg_lo_def)

section \<open>Headers at fire time\<close>

definition env_header :: "string \<Rightarrow> HttpHeader" where
  "env_header v = \<lparr>hdr_name = ''x-token'', hdr_source = Env v\<rparr>"

definition fire_header :: "http_lib \<Rightarrow> env \<Rightarrow> string \<Rightarrow> HttpHeader list \<Rightarrow> http_request option \<times> (CronManagerError + HttpAttempt)" where
  "fire_header lib env m hs = http_execute lib (test_executor default_limits False []) (mock_events env (Responded 200 [])) m ''http://127.0.0.1:1/x'' hs"

definition literal_and_env_headers_are_sent :: "http_lib \<Rightarrow> env \<Rightarrow> bool" where
  "literal_and_env_headers_are_sent lib env \<longleftrightarrow>
     (case fire_header lib (env(''CM_TEST_HDR_TOKEN_SENT'' \<mapsto> ''s3cret'')) ''POST''
         [\<lparr>hdr_name = ''x-static'', hdr_source = Literal ''one''\<rparr>,
          \<lparr>hdr_name = ''x-internal-service-token'', hdr_source = Env ''CM_TEST_HDR_TOKEN_SENT''\<rparr>] of
        (Some req, Ok _) \<Rightarrow> map_of (req_headers req) ''x-static'' = Some ''one'' \<and>
          map_of (req_headers req) ''x-internal-service-token'' = Some ''s3cret''
      | _ \<Rightarrow> False)"

definition missing_header_env_at_fire_time_is_internal_error :: "http_lib \<Rightarrow> env \<Rightarrow> bool" where
  "missing_header_env_at_fire_time_is_internal_error lib env \<longleftrightarrow>
     (case snd (fire_header lib (env(''CM_TEST_HDR_TOKEN_UNSET_AT_FIRE'' := None)) ''GET''
         [env_header ''CM_TEST_HDR_TOKEN_UNSET_AT_FIRE'']) of
        Err (Internal m) \<Rightarrow> \<not> str_contains ''s3cret'' m | _ \<Rightarrow> False)"

definition env_rotates_between_fires_new_value_sent :: "http_lib \<Rightarrow> env \<Rightarrow> bool" where
  "env_rotates_between_fires_new_value_sent lib env \<longleftrightarrow>
     list_all (\<lambda>v. case fire_header lib (env(''CM_TEST_HDR_ROTATE'' \<mapsto> v)) ''GET'' [env_header ''CM_TEST_HDR_ROTATE''] of
         (Some req, Ok _) \<Rightarrow> req_headers req = [(''x-token'', v)] | _ \<Rightarrow> False) [''v1'', ''v2'']"

definition env_crlf_injection_at_fire_time_rejected :: "http_lib \<Rightarrow> env \<Rightarrow> bool" where
  "env_crlf_injection_at_fire_time_rejected lib env \<longleftrightarrow>
     (case fire_header lib (env(''CM_TEST_HDR_INJECT_AT_FIRE'' \<mapsto> ''legit'' @ [CHR 0x0D, CHR 0x0A] @ ''X-Injected: evil'')) ''GET''
         [env_header ''CM_TEST_HDR_INJECT_AT_FIRE''] of
        (None, Err (Internal m)) \<Rightarrow> str_contains ''invalid value'' m \<and> \<not> str_contains ''X-Injected'' m \<and>
          \<not> str_contains ''evil'' m \<and> \<not> str_contains ''legit'' m
      | _ \<Rightarrow> False)"

definition env_unset_at_fire_time_does_not_hit_the_wire :: "http_lib \<Rightarrow> env \<Rightarrow> bool" where
  "env_unset_at_fire_time_does_not_hit_the_wire lib env \<longleftrightarrow>
     (case fire_header lib (env(''CM_TEST_HDR_UNSET_WIRE'' := None)) ''GET'' [env_header ''CM_TEST_HDR_UNSET_WIRE''] of
        (None, Err (Internal m)) \<Rightarrow> str_contains ''not set'' m \<and> str_contains ''CM_TEST_HDR_UNSET_WIRE'' m | _ \<Rightarrow> False)"

definition env_control_byte_at_fire_time_rejected :: "http_lib \<Rightarrow> env \<Rightarrow> bool" where
  "env_control_byte_at_fire_time_rejected lib env \<longleftrightarrow>
     (case snd (fire_header lib (env(''CM_TEST_HDR_CTRL_AT_FIRE'' \<mapsto> ''has'' @ [CHR 0x7F] @ ''del'')) ''GET''
         [env_header ''CM_TEST_HDR_CTRL_AT_FIRE'']) of
        Err (Internal m) \<Rightarrow> str_contains ''invalid value'' m \<and> \<not> str_contains (''has'' @ [CHR 0x7F]) m \<and> \<not> str_contains ''del'' m
      | _ \<Rightarrow> False)"

text \<open>The value checks of the header crate the tests rely on.\<close>

definition value_laws :: "dsl_lib \<Rightarrow> bool" where
  "value_laws lib \<longleftrightarrow>
     (\<forall>v. list_all (\<lambda>c. 0x20 \<le> byte c \<and> byte c < 0x7F) v \<longrightarrow> header_value_ok lib v) \<and>
     (\<forall>v. list_ex (\<lambda>c. (byte c < 0x20 \<and> c \<noteq> CHR 0x09) \<or> byte c = 0x7F) v \<longrightarrow> \<not> header_value_ok lib v)"

lemma value_law:
  assumes "value_laws lib"
  shows "list_all (\<lambda>c. 0x20 \<le> byte c \<and> byte c < 0x7F) v \<Longrightarrow> header_value_ok lib v"
    and "list_ex (\<lambda>c. (byte c < 0x20 \<and> c \<noteq> CHR 0x09) \<or> byte c = 0x7F) v \<Longrightarrow> \<not> header_value_ok lib v"
  using assms unfolding value_laws_def by blast+

lemma fire_header_tests:
  assumes "value_laws (dsl lib)" and "method_from_bytes lib ''GET'' = Some ''GET''" and "method_from_bytes lib ''POST'' = Some ''POST''"
  shows "literal_and_env_headers_are_sent lib env" "missing_header_env_at_fire_time_is_internal_error lib env"
    "env_rotates_between_fires_new_value_sent lib env" "env_crlf_injection_at_fire_time_rejected lib env"
    "env_unset_at_fire_time_does_not_hit_the_wire lib env" "env_control_byte_at_fire_time_rejected lib env"
proof -
  have env: "ev_http_env (mock_events e a) = e" for e a by (simp add: mock_events_def)
  show "literal_and_env_headers_are_sent lib env" "missing_header_env_at_fire_time_is_internal_error lib env"
    "env_rotates_between_fires_new_value_sent lib env" "env_crlf_injection_at_fire_time_rejected lib env"
    "env_unset_at_fire_time_does_not_hit_the_wire lib env" "env_control_byte_at_fire_time_rejected lib env"
    using assms(2,3)
    by (simp_all add: literal_and_env_headers_are_sent_def missing_header_env_at_fire_time_is_internal_error_def
        env_rotates_between_fires_new_value_sent_def env_crlf_injection_at_fire_time_rejected_def
        env_unset_at_fire_time_does_not_hit_the_wire_def env_control_byte_at_fire_time_rejected_def fire_header_def mock_execute
        prepare_def upper_methods header_value_def env_header_def env value_law [OF assms(1)] quoted_def finish_response_def
        http_read_bounded_def default_limits_def)
qed

text \<open>The \<open>Debug\<close> rendering of a string is a parameter; readable text without a quote or a backslash is put in quotes.\<close>

definition readable :: "string \<Rightarrow> bool" where
  "readable s \<longleftrightarrow> list_all (\<lambda>c. 0x20 \<le> byte c \<and> byte c < 0x7F \<and> c \<noteq> CHR 0x22 \<and> c \<noteq> CHR 0x5C) s"

definition env_value_never_in_internal_error_debug :: "(string \<Rightarrow> string) \<Rightarrow> http_lib \<Rightarrow> env \<Rightarrow> bool" where
  "env_value_never_in_internal_error_debug dbg lib env \<longleftrightarrow>
     (case snd (fire_header lib (env(''CM_TEST_HDR_DEBUG_LEAK'' \<mapsto> ''s3cret-stuff-xyz'' @ [CHR 0x0D, CHR 0x0A] @ ''X-Smuggled: 1'')) ''GET''
         [env_header ''CM_TEST_HDR_DEBUG_LEAK'']) of
        Err (Internal m) \<Rightarrow> list_all (\<lambda>leak. \<not> str_contains leak (''Internal('' @ dbg m @ '')'') \<and>
            \<not> str_contains leak (to_string (Internal m)))
          [''s3cret'', ''s3cret-stuff-xyz'', ''stuff-xyz'', ''X-Smuggled'', ''X-Smuggled: 1'']
      | _ \<Rightarrow> False)"

lemma debug_leak_test:
  assumes "value_laws (dsl lib)" and "method_from_bytes lib ''GET'' = Some ''GET''"
    and "\<And>s. readable s \<Longrightarrow> dbg s = [CHR 0x22] @ s @ [CHR 0x22]"
  shows "env_value_never_in_internal_error_debug dbg lib env"
proof -
  let ?m = "''header '' @ [CHR 0x27] @ ''x-token'' @ [CHR 0x27] @ '' has an invalid value''"
  have env: "ev_http_env (mock_events e a) = e" for e a by (simp add: mock_events_def)
  have "snd (fire_header lib (env(''CM_TEST_HDR_DEBUG_LEAK'' \<mapsto> ''s3cret-stuff-xyz'' @ [CHR 0x0D, CHR 0x0A] @ ''X-Smuggled: 1'')) ''GET''
      [env_header ''CM_TEST_HDR_DEBUG_LEAK'']) = Err (Internal ?m)"
    using assms(2) by (simp add: fire_header_def mock_execute prepare_def upper_methods header_value_def
      env_header_def value_law [OF assms(1)] quoted_def env)
  moreover have "dbg ?m = [CHR 0x22] @ ?m @ [CHR 0x22]" by (rule assms(3)) (simp add: readable_def)
  ultimately show ?thesis by (simp add: env_value_never_in_internal_error_debug_def)
qed

end
