(* ===== verification/Locks.thy ===== *)
theory Locks
  imports Router
begin

text \<open>
  The mutexes of the process: the registry, the running map and the per-job runtime states of
  \<open>src/scheduler.rs\<close>, and the table of the reload throttle in \<open>src/router.rs\<close>. The other theories take a
  critical section as one step; here each method is the sequence of locks it acquires and
  releases, and a pool of threads runs such methods in any interleaving. Two facts of Rust
  decide the sequences: a guard bound to a variable is released at the end of its block, and a
  guard that is a temporary at the end of its statement or condition.
\<close>

section \<open>Lock programs\<close>

datatype 'l action = Acquire 'l | Release 'l

datatype mutex = JobsLock | RunningLock | StateLock nat | GateLock

definition under :: "'l \<Rightarrow> 'l action list \<Rightarrow> 'l action list" where
  "under l body = Acquire l # body @ [Release l]"

definition read_states :: "nat list \<Rightarrow> mutex action list" where
  "read_states refs = concat (map (\<lambda>r. under (StateLock r) []) refs)"

text \<open>
  A method that looks at the data to decide what to lock next takes the states its
  sections see; between two sections the state may change, so these are independent arguments.
\<close>

definition register_locks :: "mutex action list" where
  "register_locks = under JobsLock [] @ under JobsLock []"

definition begin_running_locks :: "mutex action list" where
  "begin_running_locks = under RunningLock []"

definition take_cancel_locks :: "mutex action list" where
  "take_cancel_locks = under RunningLock []"

definition trigger_now_locks :: "JobKey \<Rightarrow> Scheduler \<Rightarrow> Scheduler \<Rightarrow> mutex action list" where
  "trigger_now_locks k s1 s2 =
     under JobsLock [] @
     (if map_of (jobs s1) k = None then []
      else begin_running_locks @ (if map_of (running s2) k \<noteq> None then [] else take_cancel_locks))"

definition end_run_locks :: "nat \<Rightarrow> mutex action list" where
  "end_run_locks ref = under (StateLock ref) [] @ under RunningLock []"

definition stop_locks :: "JobKey \<Rightarrow> Scheduler \<Rightarrow> mutex action list" where
  "stop_locks k s = under JobsLock [] @ (if map_of (jobs s) k = None then [] else under RunningLock [])"

definition describe_locks :: "string option \<Rightarrow> Scheduler \<Rightarrow> mutex action list" where
  "describe_locks flt s =
     under JobsLock (read_states (map (reg_state \<circ> snd) (filter (\<lambda>(k, _). in_group flt k) (jobs s))))"

definition describe_running_locks :: "string option \<Rightarrow> Scheduler \<Rightarrow> Scheduler \<Rightarrow> mutex action list" where
  "describe_running_locks flt s1 s2 =
     (let snapshot = map fst (filter (\<lambda>(k, _). in_group flt k) (running s1))
      in under RunningLock [] @
         under JobsLock (read_states (concat (map (\<lambda>k.
           case map_of (jobs s2) k of Some j \<Rightarrow> [reg_state j] | None \<Rightarrow> []) snapshot))))"

definition job_count_locks :: "mutex action list" where
  "job_count_locks = under JobsLock []"

definition reload_from_locks :: "LoadedJob list \<Rightarrow> mutex action list" where
  "reload_from_locks loaded =
     under RunningLock [] @ under JobsLock [] @ concat (map (\<lambda>_. register_locks) loaded)"

definition admit_locks :: "nat \<Rightarrow> mutex action list" where
  "admit_locks min_interval = (if min_interval = 0 then [] else under GateLock [])"

text \<open>How a scheduling loop goes round once after its sleep.\<close>

datatype round = OutsideWindow | StillRunning | Fired

fun round_locks :: "nat \<Rightarrow> round \<Rightarrow> mutex action list list" where
  "round_locks ref OutsideWindow = [under (StateLock ref) []]"
| "round_locks ref StillRunning = [begin_running_locks]"
| "round_locks ref Fired = [begin_running_locks @ take_cancel_locks, end_run_locks ref]"

text \<open>
  Everything a task or a request runs without an await in between. The dispatch of a fired job and
  the load of a reload are awaited between two calls, with no lock held.
\<close>

inductive call :: "mutex action list \<Rightarrow> bool" where
  registering: "call register_locks"
| triggering: "call (trigger_now_locks k s1 s2)"
| executing: "call (trigger_now_locks k s1 s2 @ describe_running_locks flt s3 s4)"
| stopping: "call (stop_locks k s1)"
| stopping_job: "call (stop_locks k s1 @ describe_running_locks flt s2 s3)"
| describing: "call (describe_locks flt s)"
| describing_running: "call (describe_running_locks flt s1 s2)"
| counting: "call job_count_locks"
| reloading: "call (reload_from_locks loaded)"
| admitting: "call (admit_locks m)"
| ending: "call (end_run_locks ref)"
| looping: "p \<in> set (round_locks ref r) \<Longrightarrow> call p"

section \<open>Pools of threads\<close>

text \<open>A thread: the locks it holds, the last one first, and what is left of its call.\<close>

type_synonym 'l thread = "'l list \<times> 'l action list"

definition held_locks :: "'l thread list \<Rightarrow> 'l list" where
  "held_locks ps = concat (map fst ps)"

definition exclusive :: "'l thread list \<Rightarrow> bool" where
  "exclusive ps \<longleftrightarrow> (\<forall>i<length ps. \<forall>j<length ps. i \<noteq> j \<longrightarrow> list_all (\<lambda>l. l \<notin> set (fst (ps ! j))) (fst (ps ! i)))"

inductive advance :: "'l thread list \<Rightarrow> 'l thread list \<Rightarrow> bool" where
  acquired: "i < length ps \<Longrightarrow> ps ! i = (h, Acquire l # as) \<Longrightarrow> l \<notin> set (held_locks ps) \<Longrightarrow>
    advance ps (ps[i := (l # h, as)])"
| released: "i < length ps \<Longrightarrow> ps ! i = (h, Release l # as) \<Longrightarrow> l \<in> set h \<Longrightarrow>
    advance ps (ps[i := (remove1 l h, as)])"

inductive_cases advanceE: "advance ps ps'"

text \<open>Threads appear, begin calls when idle, and advance.\<close>

inductive pool :: "('l action list \<Rightarrow> bool) \<Rightarrow> 'l thread list \<Rightarrow> bool" for calls where
  empty: "pool calls []"
| spawned: "pool calls ps \<Longrightarrow> pool calls (ps @ [([], [])])"
| called: "pool calls ps \<Longrightarrow> i < length ps \<Longrightarrow> ps ! i = ([], []) \<Longrightarrow> calls p \<Longrightarrow> pool calls (ps[i := ([], p)])"
| advanced: "pool calls ps \<Longrightarrow> advance ps ps' \<Longrightarrow> pool calls ps'"

definition left :: "'l thread list \<Rightarrow> nat" where
  "left ps = sum_list (map (\<lambda>t. length (snd t)) ps)"

text \<open>
  A program that acquires a lock only inside locks it may be nested in, releases what it holds and
  ends with nothing held.
\<close>

fun disciplined :: "('l \<Rightarrow> 'l \<Rightarrow> bool) \<Rightarrow> 'l list \<Rightarrow> 'l action list \<Rightarrow> bool" where
  "disciplined nest h [] \<longleftrightarrow> h = []"
| "disciplined nest h (Acquire l # as) \<longleftrightarrow> list_all (\<lambda>a. nest a l) h \<and> disciplined nest (l # h) as"
| "disciplined nest h (Release l # as) \<longleftrightarrow> l \<in> set h \<and> disciplined nest (remove1 l h) as"

lemma exclusiveI:
  "(\<And>i j l. i < length ps \<Longrightarrow> j < length ps \<Longrightarrow> l \<in> set (fst (ps ! i)) \<Longrightarrow> l \<in> set (fst (ps ! j)) \<Longrightarrow> i = j) \<Longrightarrow> exclusive ps"
  unfolding exclusive_def list_all_iff by blast

lemma exclusiveD:
  "exclusive ps \<Longrightarrow> i < length ps \<Longrightarrow> j < length ps \<Longrightarrow> l \<in> set (fst (ps ! i)) \<Longrightarrow> l \<in> set (fst (ps ! j)) \<Longrightarrow> i = j"
  unfolding exclusive_def list_all_iff by blast

lemma held_locksI: "i < length ps \<Longrightarrow> l \<in> set (fst (ps ! i)) \<Longrightarrow> l \<in> set (held_locks ps)"
  unfolding held_locks_def by (auto intro: nth_mem)

lemma held_locksE:
  assumes "l \<in> set (held_locks ps)"
  obtains i where "i < length ps" "l \<in> set (fst (ps ! i))"
proof -
  obtain t where "t \<in> set ps" "l \<in> set (fst t)" using assms by (auto simp: held_locks_def)
  then show thesis using that by (metis in_set_conv_nth)
qed

lemma exclusive_update:
  assumes "exclusive ps" and "i < length ps" and "\<And>l. l \<in> set h \<Longrightarrow> l \<in> set (fst (ps ! i)) \<or> l \<notin> set (held_locks ps)"
  shows "exclusive (ps[i := (h, as)])"
proof (rule exclusiveI)
  have new: "j = i" if "l \<in> set h" "j < length ps" "l \<in> set (fst (ps ! j))" for j l
    using assms(3) [OF that(1)] exclusiveD [OF assms(1,2) that(2)] held_locksI [OF that(2)] that(3) by blast
  fix a b l
  assume "a < length (ps[i := (h, as)])" "b < length (ps[i := (h, as)])"
    "l \<in> set (fst (ps[i := (h, as)] ! a))" "l \<in> set (fst (ps[i := (h, as)] ! b))"
  then have *: "a < length ps" "b < length ps" "a = i \<and> l \<in> set h \<or> a \<noteq> i \<and> l \<in> set (fst (ps ! a))"
    "b = i \<and> l \<in> set h \<or> b \<noteq> i \<and> l \<in> set (fst (ps ! b))"
    using assms(2) by (simp_all add: nth_list_update split: if_splits)
  show "a = b" using *(3,4)
  proof (elim disjE conjE)
    show "a = b" if "l \<in> set (fst (ps ! a))" "l \<in> set (fst (ps ! b))" by (rule exclusiveD [OF assms(1) *(1,2) that])
  qed (use new *(1,2) in blast)+
qed

lemma left_update:
  assumes "i < length ps" and "snd (ps ! i) = a # as"
  shows "left (ps[i := (h, as)]) < left ps"
proof -
  have "length (snd (ps ! i)) \<le> left ps"
    using elem_le_sum_list [of i "map (\<lambda>t. length (snd t)) ps"] assms(1) by (simp add: left_def)
  then show ?thesis using assms by (simp add: left_def map_update sum_list_update)
qed

lemma advance_left: "advance ps ps' \<Longrightarrow> left ps' < left ps"
  by (auto elim!: advanceE intro: left_update)

lemma finite_imp_greatest_rank:
  fixes f :: "'a \<Rightarrow> nat"
  assumes "finite W" and "W \<noteq> {}"
  shows "\<exists>w\<in>W. \<forall>v\<in>W. f v \<le> f w"
proof -
  have "Max (f ` W) \<in> f ` W" using assms by simp
  then obtain w where "w \<in> W" "Max (f ` W) = f w" by blast
  then show ?thesis using assms(1) Max_ge [of "f ` W"] by (metis finite_imageI imageI)
qed

subsection \<open>The contract of the callers\<close>

text \<open>
  What the pool relies on: every call follows one nesting relation, and the relation has no
  cycles, which a rank of the locks shows.
\<close>

locale lock_order =
  fixes nest :: "'l \<Rightarrow> 'l \<Rightarrow> bool"
    and rank :: "'l \<Rightarrow> nat"
    and calls :: "'l action list \<Rightarrow> bool"
  assumes nest_rank: "nest a b \<Longrightarrow> rank a < rank b"
    and calls_disciplined: "calls p \<Longrightarrow> disciplined nest [] p"
begin

definition fine :: "'l thread \<Rightarrow> bool" where
  "fine t \<longleftrightarrow> disciplined nest (fst t) (snd t) \<and> sorted_wrt (\<lambda>b a. nest a b) (fst t)"

lemma fine_acquire: "fine (h, Acquire l # as) \<Longrightarrow> fine (l # h, as)"
  by (auto simp: fine_def list_all_iff)

lemma sorted_remove1: "sorted_wrt P xs \<Longrightarrow> sorted_wrt P (remove1 x xs)"
  by (induction xs) (auto dest: notin_set_remove1 set_remove1_subset [THEN subsetD])

lemma fine_release: "fine (h, Release l # as) \<Longrightarrow> fine (remove1 l h, as)"
  by (auto simp: fine_def sorted_remove1)

definition invar :: "'l thread list \<Rightarrow> bool" where
  "invar ps \<longleftrightarrow> (\<forall>t\<in>set ps. fine t) \<and> exclusive ps"

lemma invar_advance:
  assumes "advance ps ps'" and "invar ps"
  shows "invar ps'"
  using assms(1)
proof cases
  case (acquired i h l as)
  have "fine (l # h, as)" using assms(2) acquired(2,3) by (metis fine_acquire invar_def nth_mem)
  moreover have "exclusive (ps[i := (l # h, as)])"
    using assms(2) acquired(2-4) by (intro exclusive_update) (auto simp: invar_def)
  ultimately show ?thesis
    using assms(2) by (auto simp: acquired(1) invar_def dest!: set_update_subset_insert [THEN subsetD])
next
  case (released i h l as)
  have "fine (remove1 l h, as)" using assms(2) released(2,3) by (metis fine_release invar_def nth_mem)
  moreover have "exclusive (ps[i := (remove1 l h, as)])"
    using assms(2) released(2,3) by (intro exclusive_update) (auto simp: invar_def dest!: set_remove1_subset [THEN subsetD])
  ultimately show ?thesis
    using assms(2) by (auto simp: released(1) invar_def dest!: set_update_subset_insert [THEN subsetD])
qed

lemma invar_pool: "pool calls ps \<Longrightarrow> invar ps"
proof (induction rule: pool.induct)
  case empty
  show ?case by (simp add: invar_def exclusive_def)
next
  case (spawned ps)
  have "exclusive (ps @ [([], [])])"
    using spawned.IH exclusiveD [of ps] by (intro exclusiveI) (auto simp: invar_def nth_append split: if_splits)
  then show ?case using spawned.IH by (auto simp: invar_def fine_def)
next
  case (called ps i p)
  have "fine ([], p)" using called.hyps(4) calls_disciplined by (simp add: fine_def)
  moreover have "exclusive (ps[i := ([], p)])"
    using called.IH called.hyps(2) by (intro exclusive_update) (simp_all add: invar_def)
  ultimately show ?case
    using called.IH by (auto simp: invar_def dest!: set_update_subset_insert [THEN subsetD])
next
  case (advanced ps ps')
  then show ?case by (blast intro: invar_advance)
qed

text \<open>Of the threads that wait for a lock, the one that waits for the highest can have it.\<close>

lemma invar_progress:
  assumes "invar ps" and "t \<in> set ps" and "snd t \<noteq> []"
  shows "\<exists>ps'. advance ps ps'"
proof (rule ccontr)
  assume stuck: "\<nexists>ps'. advance ps ps'"
  define W where "W = {(i, l). i < length ps \<and> (\<exists>h as. ps ! i = (h, Acquire l # as))}"
  have waits: "\<exists>l. (i, l) \<in> W" if i: "i < length ps" and busy: "snd (ps ! i) \<noteq> []" for i
  proof -
    obtain h a as where t: "ps ! i = (h, a # as)" using busy by (metis list.exhaust prod.collapse)
    have "fine (h, a # as)" using assms(1) i t by (metis invar_def nth_mem)
    then have "a \<noteq> Release l" for l
      using advance.released [OF i, of h l as] stuck t by (auto simp: fine_def)
    then obtain l where "a = Acquire l" by (cases a) auto
    then show ?thesis using i t by (auto simp: W_def)
  qed
  have "finite W"
  proof (rule finite_subset)
    show "W \<subseteq> (\<lambda>i. (i, case snd (ps ! i) of Acquire l # _ \<Rightarrow> l)) ` {..<length ps}" by (force simp: W_def)
  qed simp
  moreover have "W \<noteq> {}" using assms(2,3) waits by (metis empty_iff in_set_conv_nth)
  ultimately obtain w where w: "w \<in> W" "\<forall>v\<in>W. rank (snd v) \<le> rank (snd w)"
    using finite_imp_greatest_rank [of W "\<lambda>v. rank (snd v)"] by blast
  obtain i l where il: "(i, l) \<in> W" "\<And>j m. (j, m) \<in> W \<Longrightarrow> rank m \<le> rank l"
    using w by (metis prod.collapse snd_conv)
  then obtain h as where i: "i < length ps" "ps ! i = (h, Acquire l # as)" by (auto simp: W_def)
  have "l \<in> set (held_locks ps)" using advance.acquired [OF i] stuck by metis
  then obtain j where j: "j < length ps" "l \<in> set (fst (ps ! j))" by (rule held_locksE)
  have fine: "fine (ps ! j)" using assms(1) j(1) by (simp add: invar_def)
  then have "snd (ps ! j) \<noteq> []" using j(2) by (cases "ps ! j") (auto simp: fine_def)
  then obtain m where m: "(j, m) \<in> W" using waits j(1) by blast
  then have "nest l m" using fine j(2) by (auto simp: W_def fine_def list_all_iff)
  then show False using nest_rank il(2) [OF m] by fastforce
qed

text \<open>Every run from a reachable pool is finite, and one that cannot go on has finished every call.\<close>

lemma advances_left: "advance\<^sup>*\<^sup>* ps ps' \<Longrightarrow> left ps' \<le> left ps"
  by (induction rule: rtranclp_induct) (auto dest: advance_left)

lemma advances_bounded: "(advance ^^ n) ps ps' \<Longrightarrow> n + left ps' \<le> left ps"
  by (induction n arbitrary: ps') (auto dest!: advance_left, fastforce)

lemma pool_advances: "advance\<^sup>*\<^sup>* ps ps' \<Longrightarrow> pool calls ps \<Longrightarrow> pool calls ps'"
  by (induction rule: rtranclp_induct) (auto intro: pool.advanced)

lemma stuck_is_done:
  assumes "pool calls ps" and "\<nexists>ps'. advance ps ps'"
  shows "\<forall>t\<in>set ps. t = ([], [])"
proof
  fix t
  assume t: "t \<in> set ps"
  have inv: "invar ps" by (rule invar_pool [OF assms(1)])
  then have "snd t = []" using invar_progress [OF inv t] assms(2) by blast
  moreover have "disciplined nest (fst t) (snd t)" using inv t by (simp add: invar_def fine_def)
  ultimately show "t = ([], [])" by (cases t) simp
qed

lemma runs_complete:
  assumes "pool calls ps"
  shows "\<exists>ps'. advance\<^sup>*\<^sup>* ps ps' \<and> (\<forall>t\<in>set ps'. t = ([], []))"
  using assms
proof (induction "left ps" arbitrary: ps rule: less_induct)
  case less
  show ?case
  proof (cases "\<exists>ps'. advance ps ps'")
    case True
    then obtain ps' where step: "advance ps ps'" by blast
    show ?thesis
      using less.hyps [OF advance_left [OF step] pool.advanced [OF less.prems step]] step
      by (meson converse_rtranclp_into_rtranclp)
  qed (use stuck_is_done [OF less.prems] in blast)
qed

lemma nested_only:
  assumes "pool calls ps" and "t \<in> set ps" and "a \<in> set (fst t)" "b \<in> set (fst t)" "a \<noteq> b"
  shows "nest a b \<or> nest b a"
proof -
  have "sorted_wrt (\<lambda>b a. nest a b) (fst t)" using invar_pool [OF assms(1)] assms(2) by (simp add: invar_def fine_def)
  then show ?thesis using assms(3-5) by (metis in_set_conv_nth linorder_neqE_nat sorted_wrt_nth_less)
qed

end

section \<open>The methods follow the order\<close>

text \<open>The one nesting in the sources: the state of a job inside the registry.\<close>

fun may_nest :: "mutex \<Rightarrow> mutex \<Rightarrow> bool" where
  "may_nest JobsLock (StateLock _) = True"
| "may_nest _ _ = False"

fun mutex_rank :: "mutex \<Rightarrow> nat" where
  "mutex_rank (StateLock _) = 1"
| "mutex_rank _ = 0"

lemma disciplined_append: "disciplined nest h p \<Longrightarrow> disciplined nest [] q \<Longrightarrow> disciplined nest h (p @ q)"
  by (induction nest h p rule: disciplined.induct) auto

lemma disciplined_under [simp]: "disciplined nest [] (under l []) " "disciplined nest [] (under l body) \<longleftrightarrow> disciplined nest [l] (body @ [Release l])"
  by (simp_all add: under_def)

lemma disciplined_concat: "list_all (disciplined nest []) ps \<Longrightarrow> disciplined nest [] (concat ps)"
  by (induction ps) (auto intro: disciplined_append)

lemma disciplined_read_states: "disciplined may_nest [JobsLock] (read_states refs @ [Release JobsLock])"
  by (induction refs) (simp_all add: read_states_def under_def)

lemma describe_running_disciplined: "disciplined may_nest [] (describe_running_locks flt s1 s2)"
  by (auto simp: describe_running_locks_def Let_def disciplined_read_states intro!: disciplined_append)

lemma trigger_now_disciplined: "disciplined may_nest [] (trigger_now_locks k s1 s2)"
  by (auto simp: trigger_now_locks_def begin_running_locks_def take_cancel_locks_def intro!: disciplined_append)

lemma stop_disciplined: "disciplined may_nest [] (stop_locks k s)"
  by (auto simp: stop_locks_def intro!: disciplined_append)

lemma round_disciplined: "p \<in> set (round_locks ref r) \<Longrightarrow> disciplined may_nest [] p"
  by (cases r) (auto simp: begin_running_locks_def take_cancel_locks_def end_run_locks_def intro!: disciplined_append)

lemma call_disciplined: "call p \<Longrightarrow> disciplined may_nest [] p"
proof (induction rule: call.induct)
  case (reloading loaded)
  show ?case
    by (auto simp: reload_from_locks_def register_locks_def list_all_iff intro!: disciplined_append disciplined_concat)
qed (auto simp: register_locks_def describe_locks_def job_count_locks_def admit_locks_def end_run_locks_def
    disciplined_read_states
    intro: trigger_now_disciplined stop_disciplined describe_running_disciplined round_disciplined intro!: disciplined_append)

interpretation locks: lock_order may_nest mutex_rank call
proof
  show "mutex_rank a < mutex_rank b" if "may_nest a b" for a b using that by (cases "(a, b)" rule: may_nest.cases) simp_all
qed (rule call_disciplined)

text \<open>Threads that go through several calls in a row are disciplined as well.\<close>

interpretation loops: lock_order may_nest mutex_rank "disciplined may_nest []"
  by unfold_locales (rule locks.nest_rank)

lemma pool_of_programs: "list_all calls progs \<Longrightarrow> pool calls (map (\<lambda>p. ([], p)) progs)"
proof (induction progs rule: rev_induct)
  case (snoc p progs)
  then have "pool calls (map (\<lambda>p. ([], p)) progs @ [([], [])])" by (simp add: pool.spawned)
  from pool.called [OF this, of "length progs" p] snoc.prems show ?case by (simp add: list_update_append nth_append)
qed (simp add: pool.empty)

section \<open>Properties\<close>

text \<open>
  C23. However many threads run the methods of the scheduler and of the reload throttle, and however
  they interleave: a mutex is held by one thread at a time, no thread holds the registry and the
  running map together, some thread can go on as long as a call is unfinished, and whichever
  threads go on, after a bounded number of steps every call has finished with nothing held.
\<close>

theorem calls_never_deadlock:
  assumes "pool call ps"
  shows "exclusive ps \<and>
    (\<forall>t\<in>set ps. \<not> (JobsLock \<in> set (fst t) \<and> RunningLock \<in> set (fst t))) \<and>
    ((\<exists>t\<in>set ps. snd t \<noteq> []) \<longrightarrow> (\<exists>ps'. advance ps ps')) \<and>
    (\<forall>n ps'. (advance ^^ n) ps ps' \<longrightarrow> n \<le> left ps) \<and>
    (\<forall>ps'. advance\<^sup>*\<^sup>* ps ps' \<and> (\<nexists>ps''. advance ps' ps'') \<longrightarrow> (\<forall>t\<in>set ps'. t = ([], [])))"
proof (intro conjI ballI allI impI)
  have inv: "locks.invar ps" by (rule locks.invar_pool [OF assms])
  then show "exclusive ps" by (simp add: locks.invar_def)
  show "\<not> (JobsLock \<in> set (fst t) \<and> RunningLock \<in> set (fst t))" if "t \<in> set ps" for t
    using locks.nested_only [OF assms that, of JobsLock RunningLock] by auto
  show "\<exists>ps'. advance ps ps'" if "\<exists>t\<in>set ps. snd t \<noteq> []" using that locks.invar_progress [OF inv] by blast
  show "n \<le> left ps" if "(advance ^^ n) ps ps'" for n ps' using locks.advances_bounded [OF that] by simp
  show "t = ([], [])" if "advance\<^sup>*\<^sup>* ps ps' \<and> (\<nexists>ps''. advance ps' ps'')" "t \<in> set ps'" for ps' t
    using locks.stuck_is_done locks.pool_advances assms that by blast
qed

text \<open>A snapshot of the running map inside its lock, a reload that waits for it, and an \<open>/execute\<close>.\<close>

theorem calls_never_deadlock_witness:
  "let ps = [([RunningLock], Release RunningLock # under JobsLock []), ([], reload_from_locks []),
             ([], trigger_now_locks (job_key ''g'' ''n'') scheduler_new scheduler_new)]
   in exclusive ps \<and> (\<exists>ps'. advance ps ps') \<and> (\<forall>n ps'. (advance ^^ n) ps ps' \<longrightarrow> n \<le> 9)"
proof -
  let ?ps = "[([], describe_running_locks None scheduler_new scheduler_new), ([], reload_from_locks []),
    ([], trigger_now_locks (job_key ''g'' ''n'') scheduler_new scheduler_new)]"
  let ?qs = "[([RunningLock], Release RunningLock # under JobsLock []), ([], reload_from_locks []),
    ([], trigger_now_locks (job_key ''g'' ''n'') scheduler_new scheduler_new)]"
  have start: "pool call ?ps"
    using pool_of_programs [of call "map snd ?ps"] by (simp add: call.describing_running call.reloading call.triggering)
  have "advance ?ps (?ps[0 := ([RunningLock], Release RunningLock # under JobsLock [])])"
    by (rule advance.acquired) (simp_all add: describe_running_locks_def scheduler_new_def read_states_def under_def held_locks_def)
  then have "pool call ?qs" using pool.advanced [OF start] by simp
  from calls_never_deadlock [OF this] have "exclusive ?qs" "\<exists>ps'. advance ?qs ps'"
    "\<forall>n ps'. (advance ^^ n) ?qs ps' \<longrightarrow> n \<le> left ?qs"
    by simp_all
  moreover have "left ?qs = 9"
    by (simp add: left_def reload_from_locks_def trigger_now_locks_def under_def scheduler_new_def)
  ultimately show ?thesis by simp
qed

end
