(* ===== verification/Run_Tests.thy ===== *)
theory Run_Tests
  imports Locks
begin

text \<open>
  The unit tests of \<open>src/executor/shell.rs\<close>, \<open>src/executor/mod.rs\<close>, \<open>src/history/mod.rs\<close>, \<open>src/scheduler.rs\<close>,
  \<open>src/traceparent.rs\<close> and \<open>src/access_log.rs\<close>, one definition per test function. What a test script
  does is the event of the run: its exit and its output.
\<close>

section \<open>Shell\<close>

definition cfg_with_root :: "path \<Rightarrow> AppConfig" where
  "cfg_with_root root = default_config\<lparr>app_root_path := root, shell_environment := [(''HELLO_WORLD'', ''hi'')],
     limits := default_limits\<lparr>shell_timeout_secs := 5, max_response_bytes := 65536\<rparr>\<rparr>"

text \<open>A script that exits after \<open>t\<close> milliseconds with a status and the given output.\<close>

definition script_events :: "nat \<Rightarrow> bool \<times> int option \<Rightarrow> string \<Rightarrow> string \<Rightarrow> shell_events" where
  "script_events t st out err = \<lparr>ev_spawn = (\<lambda>_. Ok (True, True)), ev_exit_at = Some t, ev_exit = Ok st, ev_shell_cancel_at = None,
     ev_shell_start = 0, ev_out_reads = [Ok out, Ok []], ev_err_reads = [Ok err, Ok []], ev_out_join = Ok (), ev_err_join = Ok ()\<rparr>"

definition successful_script_returns_stdout :: "path \<Rightarrow> string \<Rightarrow> bool" where
  "successful_script_returns_stdout root sh \<longleftrightarrow>
     (case snd (shell_execute (shell_executor_new (cfg_with_root root)) (script_events 10 (True, Some 0) (''done'' @ [CHR 0x0A]) []) [sh] [] []) of
        Some (Ok out) \<Rightarrow> exit_code out = 0 \<and> str_contains ''done'' (stdout out) | _ \<Rightarrow> False)"

definition nonzero_exit_becomes_shell_failed :: "path \<Rightarrow> string \<Rightarrow> bool" where
  "nonzero_exit_becomes_shell_failed root sh \<longleftrightarrow>
     (\<exists>m. snd (shell_execute (shell_executor_new (cfg_with_root root)) (script_events 10 (False, Some 7) [] (''bad'' @ [CHR 0x0A])) [sh] [] []) =
        Some (Err (ShellFailed m)))"

definition timeout_kills_runaway_process :: "path \<Rightarrow> string \<Rightarrow> bool" where
  "timeout_kills_runaway_process root sh \<longleftrightarrow>
     snd (shell_execute (shell_executor_new ((cfg_with_root root)\<lparr>limits := (limits (cfg_with_root root))\<lparr>shell_timeout_secs := 1\<rparr>\<rparr>))
        (script_events 30000 (True, Some 0) [] []) [sh] [] []) = Some (Err (ShellTimeout 1))"

definition empty_argv_returns_bad_request :: "path \<Rightarrow> shell_events \<Rightarrow> bool" where
  "empty_argv_returns_bad_request root ev \<longleftrightarrow>
     (\<exists>m. snd (shell_execute (shell_executor_new (cfg_with_root root)) ev [] [] []) = Some (Err (BadRequest m)))"

definition argv_list_form_runs_sh_dash_c :: "path \<Rightarrow> bool" where
  "argv_list_form_runs_sh_dash_c root \<longleftrightarrow>
     (case shell_execute (shell_executor_new (cfg_with_root root)) (script_events 10 (True, Some 0) ''from-sh-dash-c'' [])
         [''/bin/sh'', ''-c'', ''printf '' @ [CHR 0x27] @ ''from-sh-dash-c'' @ [CHR 0x27]] [] [] of
        (Some cmd, Some (Ok out)) \<Rightarrow> cmd_program cmd = ''/bin/sh'' \<and> exit_code out = 0 \<and> stdout out = ''from-sh-dash-c''
      | _ \<Rightarrow> False)"

text \<open>The three environment tests echo variables of the child; here its environment is read directly.\<close>

definition env_allowlist_gates_variable_exposure :: "path \<Rightarrow> string \<Rightarrow> shell_events \<Rightarrow> bool" where
  "env_allowlist_gates_variable_exposure root sh ev \<longleftrightarrow>
     (case fst (shell_execute (shell_executor_new ((cfg_with_root root)\<lparr>shell_environment := btree_insert ''SECRET_KEY'' ''shh''
          (shell_environment (cfg_with_root root))\<rparr>)) ev [sh] [''HELLO_WORLD''] []) of
        Some cmd \<Rightarrow> map_of (cmd_env cmd) ''HELLO_WORLD'' = Some ''hi'' \<and> map_of (cmd_env cmd) ''SECRET_KEY'' = None
      | None \<Rightarrow> False)"

definition env_overrides_only_apply_when_allowlisted :: "path \<Rightarrow> string \<Rightarrow> shell_events \<Rightarrow> bool" where
  "env_overrides_only_apply_when_allowlisted root sh ev \<longleftrightarrow>
     (case fst (shell_execute (shell_executor_new (cfg_with_root root)) ev [sh] [''FOO''] [(''FOO'', ''yes''), (''BAR'', ''no'')]) of
        Some cmd \<Rightarrow> map_of (cmd_env cmd) ''FOO'' = Some ''yes'' \<and> map_of (cmd_env cmd) ''BAR'' = None | None \<Rightarrow> False)"

definition override_wins_over_baseline_env :: "path \<Rightarrow> string \<Rightarrow> shell_events \<Rightarrow> bool" where
  "override_wins_over_baseline_env root sh ev \<longleftrightarrow>
     (case fst (shell_execute (shell_executor_new (cfg_with_root root)) ev [sh] [''HELLO_WORLD''] [(''HELLO_WORLD'', ''override'')]) of
        Some cmd \<Rightarrow> map_of (cmd_env cmd) ''HELLO_WORLD'' = Some ''override'' | None \<Rightarrow> False)"

lemma spawned: "spawn_loop (\<lambda>_. Ok c) 0 = Ok c"
  by (subst spawn_loop.simps) simp

lemmas shell_eval = shell_execute_def shell_command_def shell_executor_new_def cfg_with_root_def script_events_def spawned await_child_def
  select_def collect_output_def join_pipe_def shell_read_bounded_def shell_result_def numeral_3_eq_3

lemma shell_run_tests:
  "successful_script_returns_stdout root sh" "nonzero_exit_becomes_shell_failed root sh"
  "timeout_kills_runaway_process root sh" "empty_argv_returns_bad_request root ev" "argv_list_form_runs_sh_dash_c root"
proof -
  have u: "from_utf8_lossy (''done'' @ [CHR 0x0A]) = ''done'' @ [CHR 0x0A]" "from_utf8_lossy ''from-sh-dash-c'' = ''from-sh-dash-c''"
    by (rule from_utf8_lossy_id, code_simp)+
  show "successful_script_returns_stdout root sh" "nonzero_exit_becomes_shell_failed root sh"
    "timeout_kills_runaway_process root sh" "empty_argv_returns_bad_request root ev" "argv_list_form_runs_sh_dash_c root"
    using u by (simp_all add: successful_script_returns_stdout_def nonzero_exit_becomes_shell_failed_def
        timeout_kills_runaway_process_def empty_argv_returns_bad_request_def argv_list_form_runs_sh_dash_c_def shell_eval
        del: from_utf8_lossy.simps)
qed

lemma shell_env_tests:
  "env_allowlist_gates_variable_exposure root sh ev" "env_overrides_only_apply_when_allowlisted root sh ev"
  "override_wins_over_baseline_env root sh ev"
  by (simp_all add: env_allowlist_gates_variable_exposure_def env_overrides_only_apply_when_allowlisted_def
      override_wins_over_baseline_env_def shell_execute_def shell_command_def shell_executor_new_def cfg_with_root_def
      child_env_lookup)

section \<open>Dispatch\<close>

definition http_job :: JobSpec where
  "http_job = \<lparr>key = job_key ''g'' ''http'', trigger = Manual, window = \<lparr>start_ms = None, end_ms = None\<rparr>,
     retry = default_retry_policy, kind = Http ''GET'' ''http://example.invalid/'' []\<rparr>"

definition shell_job :: JobSpec where
  "shell_job = \<lparr>key = job_key ''g'' ''sh'', trigger = Manual, window = \<lparr>start_ms = None, end_ms = None\<rparr>,
     retry = default_retry_policy, kind = Exec [''/definitely/nonexistent/binary''] []\<rparr>"

definition offline_bundle :: "ExecutorBundle \<Rightarrow> ExecutorBundle" where
  "offline_bundle b = b\<lparr>offline_mode := True\<rparr>"

definition offline_mode_short_circuits_http_dispatch ::
  "http_lib \<Rightarrow> ExecutorBundle \<Rightarrow> (nat \<Rightarrow> attempt_events) \<Rightarrow> bool" where
  "offline_mode_short_circuits_http_dispatch lib b world \<longleftrightarrow>
     (case dispatch lib (offline_bundle b) http_job [] world of
        ([row], Some out) \<Rightarrow> out_status out = Offline \<and> attempts out = 1 \<and> entry_status row = Offline \<and>
          error_message row = Some ''CRONMANAGER_OFFLINE=true'' \<and> http_method row = Some ''GET''
      | _ \<Rightarrow> False)"

definition offline_mode_short_circuits_shell_dispatch ::
  "http_lib \<Rightarrow> ExecutorBundle \<Rightarrow> (nat \<Rightarrow> attempt_events) \<Rightarrow> bool" where
  "offline_mode_short_circuits_shell_dispatch lib b world \<longleftrightarrow>
     (case dispatch lib (offline_bundle b) shell_job [] world of
        ([row], Some out) \<Rightarrow> out_status out = Offline \<and> entry_status row = Offline \<and> http_method row = None \<and> http_url row = None
      | _ \<Rightarrow> False)"

definition offline_mode_does_not_resolve_header_envs ::
  "http_lib \<Rightarrow> ExecutorBundle \<Rightarrow> (nat \<Rightarrow> attempt_events) \<Rightarrow> bool" where
  "offline_mode_does_not_resolve_header_envs lib b world \<longleftrightarrow>
     (case dispatch lib (offline_bundle b) (http_job\<lparr>key := job_key ''g'' ''http-with-env'', kind := Http ''GET'' ''http://example.invalid/''
          [\<lparr>hdr_name = ''x-token'', hdr_source = Env ''CM_TEST_OFFLINE_HDR_UNSET''\<rparr>]\<rparr>) [] world of
        ([row], Some out) \<Rightarrow> out_status out = Offline \<and> entry_status row = Offline | _ \<Rightarrow> False)"

definition offline_from_env_accepts_truthy_variants :: "env \<Rightarrow> bool" where
  "offline_from_env_accepts_truthy_variants env \<longleftrightarrow>
     list_all (\<lambda>v. offline_from_env (env(''CRONMANAGER_OFFLINE'' \<mapsto> v))) [''true'', ''TRUE'', ''1'', ''yes'', ''on'', ''On''] \<and>
     list_all (\<lambda>v. \<not> offline_from_env (env(''CRONMANAGER_OFFLINE'' \<mapsto> v))) [''false'', ''0'', ''no'', ''off'', [], ''banana'']"

lemma offline_tests:
  "offline_mode_short_circuits_http_dispatch lib b world" "offline_mode_short_circuits_shell_dispatch lib b world"
  "offline_mode_does_not_resolve_header_envs lib b world" "offline_from_env_accepts_truthy_variants env"
proof -
  show "offline_mode_short_circuits_http_dispatch lib b world" "offline_mode_short_circuits_shell_dispatch lib b world"
    "offline_mode_does_not_resolve_header_envs lib b world"
    by (simp_all add: offline_mode_short_circuits_http_dispatch_def offline_mode_short_circuits_shell_dispatch_def
        offline_mode_does_not_resolve_header_envs_def offline_bundle_def dispatch_def offline_stub_def offline_entry_def http_job_def
        shell_job_def)
  have "list_all (\<lambda>v. to_ascii_lowercase (trim v) \<in> {''true'', ''1'', ''yes'', ''on''}) [''true'', ''TRUE'', ''1'', ''yes'', ''on'', ''On'']"
    "list_all (\<lambda>v. to_ascii_lowercase (trim v) \<notin> {''true'', ''1'', ''yes'', ''on''}) [''false'', ''0'', ''no'', ''off'', [], ''banana'']"
    by code_simp+
  then show "offline_from_env_accepts_truthy_variants env"
    by (simp add: offline_from_env_accepts_truthy_variants_def offline_from_env_def)
qed

definition status_labels_match_jvm_enum :: bool where
  "status_labels_match_jvm_enum \<longleftrightarrow>
     as_str Success = ''SUCCESS'' \<and> as_str Failed = ''FAILED'' \<and> as_str Retrying = ''RETRYING'' \<and> as_str Skipped = ''SKIPPED'' \<and>
     as_str Timeout = ''TIMEOUT'' \<and> as_str Offline = ''OFFLINE''"

lemma status_test: "status_labels_match_jvm_enum"
  by (simp add: status_labels_match_jvm_enum_def)

section \<open>Scheduler\<close>

definition manual_http_job :: JobSpec where
  "manual_http_job = \<lparr>key = job_key ''g'' ''n'', trigger = Manual, window = \<lparr>start_ms = None, end_ms = None\<rparr>,
     retry = default_retry_policy, kind = Http ''GET'' ''http://127.0.0.1:1/nowhere'' []\<rparr>"

definition slow_shell_job :: JobSpec where
  "slow_shell_job = \<lparr>key = job_key ''g'' ''slow'', trigger = Manual, window = \<lparr>start_ms = None, end_ms = None\<rparr>,
     retry = default_retry_policy, kind = Exec [''/bin/sleep'', ''3''] []\<rparr>"

definition describe_lists_registered_jobs :: "dsl_lib \<Rightarrow> bool" where
  "describe_lists_registered_jobs lib \<longleftrightarrow>
     (case map_of (describe lib None (register manual_http_job scheduler_new)) ''g'' of
        Some (d # _) \<Rightarrow> desc_name d = ''n'' \<and> desc_schedule d = [] | _ \<Rightarrow> False)"

definition trigger_now_unknown_returns_not_found :: bool where
  "trigger_now_unknown_returns_not_found \<longleftrightarrow>
     (\<exists>g n. trigger_now (job_key ''g'' ''n'') [] scheduler_new = Some (Err (JobNotFound g n)))"

definition stop_of_unknown_returns_not_found :: bool where
  "stop_of_unknown_returns_not_found \<longleftrightarrow> (\<exists>g n. stop (job_key ''g'' ''n'') scheduler_new = Err (JobNotFound g n))"

definition stop_of_not_running_returns_false :: bool where
  "stop_of_not_running_returns_false \<longleftrightarrow>
     (\<exists>s. stop (job_key ''g'' ''n'') (register manual_http_job scheduler_new) = Ok (False, s))"

text \<open>The sleep of the test lets the first dispatch start; it changes nothing here, since the run is entered at once.\<close>

definition double_trigger_returns_already_running :: bool where
  "double_trigger_returns_already_running \<longleftrightarrow>
     (case trigger_now (job_key ''g'' ''slow'') [] (register slow_shell_job scheduler_new) of
        Some (Ok s) \<Rightarrow> (\<exists>g n. trigger_now (job_key ''g'' ''slow'') [] s = Some (Err (JobAlreadyRunning g n)))
      | _ \<Rightarrow> False)"

lemmas sched_eval = register_def unregister_def spawn_and_insert_def scheduler_new_def manual_http_job_def slow_shell_job_def
  job_key_def Let_def

lemma scheduler_tests:
  "describe_lists_registered_jobs lib" "trigger_now_unknown_returns_not_found" "stop_of_unknown_returns_not_found"
  "stop_of_not_running_returns_false" "double_trigger_returns_already_running"
  by (simp_all add: describe_lists_registered_jobs_def trigger_now_unknown_returns_not_found_def
      stop_of_unknown_returns_not_found_def stop_of_not_running_returns_false_def double_trigger_returns_already_running_def
      describe_lookup group_jobs_def job_descriptor_def trigger_now_def begin_running_def stop_def trigger_schedule_def
      sched_eval)

text \<open>
  The deadlock test at the granularity of the mutexes: the three tasks make their calls as often as
  they get to, each on the states it meets, and a run of the three that cannot go on has ended.
\<close>

definition describe_running_and_reload_do_not_deadlock :: "(Scheduler \<times> Scheduler) list \<Rightarrow> nat \<Rightarrow> Scheduler list \<Rightarrow> bool" where
  "describe_running_and_reload_do_not_deadlock reads writes stops \<longleftrightarrow>
     (let start =
        [([], concat (map (\<lambda>(s1, s2). describe_running_locks None s1 s2) reads)),
         ([], concat (replicate writes (reload_from_locks [\<lparr>spec = manual_http_job, source_path = []\<rparr>]))),
         ([], concat (map (stop_locks (job_key ''g'' ''n'')) stops))]
      in (\<exists>bound. \<forall>n ps. (advance ^^ n) start ps \<longrightarrow> n \<le> bound) \<and>
         (\<forall>ps. advance\<^sup>*\<^sup>* start ps \<longrightarrow> (\<nexists>ps'. advance ps ps') \<longrightarrow> (\<forall>t\<in>set ps. t = ([], []))))"

lemma deadlock_test: "describe_running_and_reload_do_not_deadlock reads writes stops"
proof -
  let ?progs = "[concat (map (\<lambda>(s1, s2). describe_running_locks None s1 s2) reads),
    concat (replicate writes (reload_from_locks [\<lparr>spec = manual_http_job, source_path = []\<rparr>])),
    concat (map (stop_locks (job_key ''g'' ''n'')) stops)]"
  have "list_all (disciplined may_nest []) ?progs"
    using call_disciplined [OF call.reloading]
    by (auto simp: list_all_iff intro!: disciplined_concat describe_running_disciplined stop_disciplined)
  then have start: "pool (disciplined may_nest []) (map (\<lambda>p. ([], p)) ?progs)" by (rule pool_of_programs)
  then show ?thesis
    unfolding describe_running_and_reload_do_not_deadlock_def Let_def
    using loops.advances_bounded [of _ "map (\<lambda>p. ([], p)) ?progs"] loops.pool_advances [OF _ start] loops.stuck_is_done
    by simp (meson add_leD1)
qed

section \<open>Trace ids\<close>

definition request_with :: "string option \<Rightarrow> Request" where
  "request_with v = \<lparr>request_method = ''GET'', uri_path = ''/'', uri_query = [],
     headers = (case v of Some h \<Rightarrow> [(''traceparent'', h)] | None \<Rightarrow> []), matched_path = None\<rparr>"

definition known_id :: string where "known_id = ''0af7651916cd43dd8448eb211c80319c''"

definition inherits_trace_id_from_valid_traceparent :: "header_lib \<Rightarrow> string \<Rightarrow> bool" where
  "inherits_trace_id_from_valid_traceparent hl uuid \<longleftrightarrow>
     extract_or_generate_trace_id hl uuid (request_with (Some (''00-'' @ known_id @ ''-b7ad6b7169203331-01''))) = known_id"

definition generates_fresh_id_when_traceparent_absent :: "header_lib \<Rightarrow> string \<Rightarrow> bool" where
  "generates_fresh_id_when_traceparent_absent hl uuid \<longleftrightarrow>
     (let tp = extract_or_generate_trace_id hl uuid (request_with None) in length tp = 32 \<and> list_all is_ascii_hexdigit tp)"

definition rejects_all_zeros_trace_id_and_generates_fresh :: "header_lib \<Rightarrow> string \<Rightarrow> bool" where
  "rejects_all_zeros_trace_id_and_generates_fresh hl uuid \<longleftrightarrow>
     (let tp = extract_or_generate_trace_id hl uuid (request_with (Some (''00-'' @ replicate 32 (CHR ''0'') @ ''-b7ad6b7169203331-01'')))
      in tp \<noteq> replicate 32 (CHR ''0'') \<and> length tp = 32)"

definition rejects_malformed_traceparent_and_generates_fresh :: "header_lib \<Rightarrow> string \<Rightarrow> bool" where
  "rejects_malformed_traceparent_and_generates_fresh hl uuid \<longleftrightarrow>
     list_all (\<lambda>v. let tp = extract_or_generate_trace_id hl uuid (request_with (Some v)) in length tp = 32 \<and> tp \<noteq> known_id)
       [''not-a-traceparent'', ''01-'' @ known_id @ ''-b7ad6b7169203331-01'', ''00-shortid-b7ad6b7169203331-01'',
        ''00-'' @ known_id @ ''-b7ad6b7169203331'']"

definition span_id_is_16_hex_chars :: "string \<Rightarrow> bool" where
  "span_id_is_16_hex_chars uuid \<longleftrightarrow> length (generate_span_id uuid) = 16 \<and> list_all is_ascii_hexdigit (generate_span_id uuid)"

definition access_log_inherits_trace_id :: "header_lib \<Rightarrow> string \<Rightarrow> bool" where
  "access_log_inherits_trace_id hl uuid \<longleftrightarrow>
     extract_trace_id hl uuid (request_with (Some (''00-'' @ known_id @ ''-b7ad6b7169203331-01''))) = known_id"

definition access_log_generates_fresh_id :: "header_lib \<Rightarrow> string \<Rightarrow> bool" where
  "access_log_generates_fresh_id hl uuid \<longleftrightarrow>
     (let tp = extract_trace_id hl uuid (request_with None) in length tp = 16 \<and> list_all is_ascii_hexdigit tp)"

text \<open>
  The header values of the tests are readable texts, and a fresh UUID has 32 hexadecimal
  digits; the two tests that compare a fresh identifier rely on its not being the one they name.
\<close>

lemma list_all_take: "list_all P xs \<Longrightarrow> list_all P (take n xs)"
  by (auto simp: list_all_iff dest: in_set_takeD)

lemma known_id_parts:
  "split_on (CHR ''-'') (''00-'' @ known_id @ ''-b7ad6b7169203331-01'') = [''00'', known_id, ''b7ad6b7169203331'', ''01'']"
  "split_on (CHR ''-'') (''01-'' @ known_id @ ''-b7ad6b7169203331-01'') = [''01'', known_id, ''b7ad6b7169203331'', ''01'']"
  "split_on (CHR ''-'') (''00-'' @ known_id @ ''-b7ad6b7169203331'') = [''00'', known_id, ''b7ad6b7169203331'']"
  "length known_id = 32" "list_all is_ascii_hexdigit known_id" "known_id \<noteq> zero_trace_id"
  by code_simp+

lemma other_parts:
  "split_on (CHR ''-'') (''00-'' @ replicate 32 (CHR ''0'') @ ''-b7ad6b7169203331-01'') = [''00'', zero_trace_id, ''b7ad6b7169203331'', ''01'']"
  "split_on (CHR ''-'') ''not-a-traceparent'' = [''not'', ''a'', ''traceparent'']"
  "split_on (CHR ''-'') ''00-shortid-b7ad6b7169203331-01'' = [''00'', ''shortid'', ''b7ad6b7169203331'', ''01'']"
  by code_simp+

lemma value_texts:
  assumes "\<And>v. list_all (\<lambda>c. 0x20 \<le> byte c \<and> byte c < 0x7F) v \<Longrightarrow> value_to_str hl v = Some v"
  shows "value_to_str hl (''00-'' @ known_id @ ''-b7ad6b7169203331-01'') = Some (''00-'' @ known_id @ ''-b7ad6b7169203331-01'')"
    "value_to_str hl (''01-'' @ known_id @ ''-b7ad6b7169203331-01'') = Some (''01-'' @ known_id @ ''-b7ad6b7169203331-01'')"
    "value_to_str hl (''00-'' @ known_id @ ''-b7ad6b7169203331'') = Some (''00-'' @ known_id @ ''-b7ad6b7169203331'')"
    "value_to_str hl (''00-'' @ replicate 32 (CHR ''0'') @ ''-b7ad6b7169203331-01'') =
       Some (''00-'' @ replicate 32 (CHR ''0'') @ ''-b7ad6b7169203331-01'')"
    "value_to_str hl ''not-a-traceparent'' = Some ''not-a-traceparent''"
    "value_to_str hl ''00-shortid-b7ad6b7169203331-01'' = Some ''00-shortid-b7ad6b7169203331-01''"
  by (rule assms, simp add: known_id_def numeral_eq_Suc)+

lemma trace_tests:
  assumes "\<And>v. list_all (\<lambda>c. 0x20 \<le> byte c \<and> byte c < 0x7F) v \<Longrightarrow> value_to_str hl v = Some v"
    and "length uuid = 32" and "list_all is_ascii_hexdigit uuid" and "uuid \<noteq> known_id" and "uuid \<noteq> replicate 32 (CHR ''0'')"
  shows "inherits_trace_id_from_valid_traceparent hl uuid" "generates_fresh_id_when_traceparent_absent hl uuid"
    "rejects_all_zeros_trace_id_and_generates_fresh hl uuid" "rejects_malformed_traceparent_and_generates_fresh hl uuid"
    "span_id_is_16_hex_chars uuid" "access_log_inherits_trace_id hl uuid" "access_log_generates_fresh_id hl uuid"
  using assms(2-) value_texts [OF assms(1)] known_id_parts other_parts
  by (simp_all add: inherits_trace_id_from_valid_traceparent_def generates_fresh_id_when_traceparent_absent_def
      rejects_all_zeros_trace_id_and_generates_fresh_def rejects_malformed_traceparent_and_generates_fresh_def
      span_id_is_16_hex_chars_def access_log_inherits_trace_id_def access_log_generates_fresh_id_def request_with_def
      extract_or_generate_trace_id_def inbound_trace_id_def extract_trace_id_def get_header_def generate_span_id_def list_all_take)

end
