(* ===== verification/Service_Tests.thy ===== *)
theory Service_Tests
  imports Run_Tests Gate_Tests
begin

text \<open>
  The integration tests of \<open>tests/security_hardening.rs\<close>, which start the application and send requests
  to it; those of \<open>tests/router_integration.rs\<close> are in \<open>Router_Service_Tests\<close>. A test starts from the same application state and
  asserts of the responses of \<open>serve\<close> what the Rust test asserts. The answers of the web framework
  to the paths, queries and headers of the tests are premises (\<open>framework\<close>).
\<close>

section \<open>Set-up\<close>

definition TOKEN :: string where "TOKEN = ''s3cret-token-for-tests''"

definition GROUP_TOKEN :: string where "GROUP_TOKEN = ''group-scoped-token-abcdef1234567890''"

definition default_cfg :: "path \<Rightarrow> AppConfig" where
  "default_cfg tmp = default_config\<lparr>app_root_path := tmp\<rparr>"

definition spawn_app :: "path \<Rightarrow> AppState" where
  "spawn_app tmp = app_state_new (default_cfg tmp) scheduler_new"

definition spawn_gated_app :: "AppConfig \<Rightarrow> AppState" where
  "spawn_gated_app c = with_admin_token TOKEN (app_state_new c scheduler_new)"

definition spawn_gated_with_per_group_tokens :: "AppConfig \<Rightarrow> (string \<times> string) list \<Rightarrow> AppState" where
  "spawn_gated_with_per_group_tokens c per_group =
     with_per_group_tokens per_group (with_admin_token TOKEN (app_state_new c scheduler_new))"

definition with_security :: "(SecurityConfig \<Rightarrow> SecurityConfig) \<Rightarrow> AppConfig \<Rightarrow> AppConfig" where
  "with_security f c = c\<lparr>security := f (security c)\<rparr>"

definition request :: "string \<Rightarrow> string \<Rightarrow> (string \<times> string) list \<Rightarrow> Request" where
  "request m p hs = \<lparr>request_method = m, uri_path = p, uri_query = [], headers = hs, matched_path = None\<rparr>"

definition pair_text :: "string \<times> string \<Rightarrow> string" where
  "pair_text kv = fst kv @ ''='' @ snd kv"

definition with_query :: "(string \<times> string) list \<Rightarrow> Request \<Rightarrow> Request" where
  "with_query pairs req = req\<lparr>uri_query := str_join ''&'' (map pair_text pairs)\<rparr>"

definition bearer_auth :: "string \<Rightarrow> (string \<times> string) list" where
  "bearer_auth t = [(''authorization'', ''Bearer '' @ t)]"

definition lower_bearer :: "(string \<times> string) list" where
  "lower_bearer = [(''authorization'', ''bearer '' @ TOKEN)]"

definition body_field :: "string \<Rightarrow> Response \<Rightarrow> json option" where
  "body_field n r = (case resp_body r of Json (JObj fs) \<Rightarrow> map_of fs n | _ \<Rightarrow> None)"

text \<open>A test fails when serving panics.\<close>

definition answers :: "web_lib \<Rightarrow> web_events \<Rightarrow> AppState \<Rightarrow> Request \<Rightarrow> (Response \<Rightarrow> bool) \<Rightarrow> bool" where
  "answers lib ev st req P = (case serve lib ev st req of Some (_, r) \<Rightarrow> P r | None \<Rightarrow> False)"

definition status_is :: "nat \<Rightarrow> Response \<Rightarrow> bool" where
  "status_is n r \<longleftrightarrow> resp_status r = n"

section \<open>What the framework answers\<close>

definition test_paths :: "(string \<times> string \<times> string list) list" where
  "test_paths =
     [(''/'', ''/'', []), (''/health'', ''/health'', []), (''/healthz'', ''/healthz'', []),
      (''/actuator/health'', ''/actuator/health'', []), (''/actuator/info'', ''/actuator/info'', []),
      (''/jobs'', ''/jobs'', []), (''/jobs/'', ''/jobs/'', []), (''/running'', ''/running'', []), (''/running/'', ''/running/'', []),
      (''/jobs/samples'', ''/jobs/:group'', [''samples'']), (''/jobs/test'', ''/jobs/:group'', [''test'']),
      (''/reload/samples'', ''/reload/:group'', [''samples'']), (''/reload/payroll'', ''/reload/:group'', [''payroll'']),
      (''/reload/group-a'', ''/reload/:group'', [''group-a'']), (''/reload/group-b'', ''/reload/:group'', [''group-b''])] @
     concat (map (\<lambda>(g, j). [(''/execute/'' @ g @ ''/'' @ j, ''/execute/:group/:job'', [g, j]),
                              (''/stop/'' @ g @ ''/'' @ j, ''/stop/:group/:job'', [g, j])])
       [(''nosuch'', ''nope''), (''payroll'', ''nightly''), (''logistics'', ''nightly''), (''payroll'', ''nope''),
        (''logistics'', ''nope''), (''any-other'', ''nope''), (''test'', ''idle''), (''test'', ''slow''), (''test'', ''slow2''), (''g'', ''j'')])"

definition plain_text :: "string \<Rightarrow> bool" where
  "plain_text s \<longleftrightarrow> list_all (\<lambda>c. 0x20 < byte c \<and> byte c < 0x7F \<and> c \<notin> {CHR ''&'', CHR ''='', CHR ''%'', CHR ''+''}) s"

definition framework :: "web_lib \<Rightarrow> bool" where
  "framework lib \<longleftrightarrow>
     (\<forall>c. \<forall>(p, pat, raw)\<in>set test_paths. match_path lib (map r_pattern (routes c)) p = Some (pat, raw)) \<and>
     (\<forall>c. match_path lib (map r_pattern (routes c)) ''/does-not-exist'' = None) \<and>
     (\<forall>raw. list_all plain_text raw \<longrightarrow> decode_params lib raw = Some raw) \<and>
     (\<forall>ps. list_all (\<lambda>(k, v). k \<noteq> [] \<and> plain_text k \<and> plain_text v) ps \<longrightarrow> parse_query lib (str_join ''&'' (map pair_text ps)) = ps) \<and>
     (\<forall>v. list_all (\<lambda>c. 0x20 \<le> byte c \<and> byte c < 0x7F) v \<longrightarrow> value_to_str (w_headers lib) v = Some v) \<and>
     (\<forall>v. list_all (\<lambda>c. 0x20 \<le> byte c \<and> byte c < 0x7F) v \<longrightarrow> value_from_str (w_headers lib) v) \<and>
     (\<forall>n req. get_header ''content-length'' (headers req) = None \<longrightarrow> body_limit_layer lib n req = None) \<and>
     (\<forall>n m req. get_header ''content-length'' (headers req) = Some (show_nat m) \<longrightarrow> n < m \<longrightarrow>
        (\<exists>r. body_limit_layer lib n req = Some r \<and> resp_status r = 413 \<and>
           get_header ''content-type'' (resp_headers r) = Some ''text/plain; charset=utf-8'')) \<and>
     resp_status (not_found_response lib) = 404 \<and>
     (\<forall>m. resp_status (method_not_allowed_response lib m) = 405 \<and>
        get_header ''allow'' (resp_headers (method_not_allowed_response lib m)) = Some (if m = ''GET'' then ''GET,HEAD'' else m))"

section \<open>Serving\<close>

lemma inner_status [simp]: "resp_status (inner_layers lib ev st req r) = resp_status r"
  by (simp add: inner_layers_def access_log_middleware_def traceparent_middleware_def security_headers_middleware_def
      structured_error_body_middleware_def Let_def)

lemma inner_json:
  assumes "framework lib"
  shows "resp_body (inner_layers lib ev st req (json_response n j)) = Json j"
proof -
  have "value_to_str (w_headers lib) ''application/json'' = Some ''application/json''"
    using assms unfolding framework_def by simp
  then have "is_json_response (w_headers lib) (json_response n j)"
    by (simp add: is_json_response_def json_response_def get_header_def)
  then show ?thesis
    by (simp add: inner_layers_def access_log_middleware_def traceparent_middleware_def security_headers_middleware_def
      structured_error_body_middleware_def Let_def) (simp add: json_response_def)
qed

text \<open>The route table: what each pattern is bound to.\<close>

definition route_at :: "AppConfig \<Rightarrow> string \<Rightarrow> route option" where
  "route_at c pat = List.find (\<lambda>r. r_pattern r = pat) (routes c)"

lemma public_at [simp]:
  "route_at c ''/'' = Some \<lparr>r_pattern = ''/'', r_method = ''GET'', r_handler = Index, r_gated = False\<rparr>"
  "route_at c ''/health'' = Some \<lparr>r_pattern = ''/health'', r_method = ''GET'', r_handler = Health, r_gated = False\<rparr>"
  "route_at c ''/healthz'' = Some \<lparr>r_pattern = ''/healthz'', r_method = ''GET'', r_handler = Health, r_gated = False\<rparr>"
  "route_at c ''/actuator/health'' = Some \<lparr>r_pattern = ''/actuator/health'', r_method = ''GET'', r_handler = Health, r_gated = False\<rparr>"
  "route_at c ''/actuator/info'' = Some \<lparr>r_pattern = ''/actuator/info'', r_method = ''GET'', r_handler = Info, r_gated = False\<rparr>"
  by (simp_all add: route_at_def routes_def public_routes_def)

lemma admin_at [simp]:
  "route_at c ''/execute/:group/:job'' = Some \<lparr>r_pattern = ''/execute/:group/:job'', r_method = ''POST'', r_handler = ExecuteJob, r_gated = True\<rparr>"
  "route_at c ''/stop/:group/:job'' = Some \<lparr>r_pattern = ''/stop/:group/:job'', r_method = ''POST'', r_handler = StopJob, r_gated = True\<rparr>"
  "route_at c ''/reload/:group'' = Some \<lparr>r_pattern = ''/reload/:group'', r_method = ''POST'', r_handler = ReloadJobs, r_gated = True\<rparr>"
  by (simp_all add: route_at_def routes_def public_routes_def admin_routes_def jobs_routes_def running_routes_def)

lemma view_at [simp]:
  "route_at c ''/jobs'' = Some \<lparr>r_pattern = ''/jobs'', r_method = ''GET'', r_handler = JobsAll, r_gated = (\<not> expose_jobs_publicly (security c))\<rparr>"
  "route_at c ''/jobs/'' = Some \<lparr>r_pattern = ''/jobs/'', r_method = ''GET'', r_handler = JobsAll, r_gated = (\<not> expose_jobs_publicly (security c))\<rparr>"
  "route_at c ''/jobs/:group'' = Some \<lparr>r_pattern = ''/jobs/:group'', r_method = ''GET'', r_handler = JobsGroup, r_gated = (\<not> expose_jobs_publicly (security c))\<rparr>"
  "route_at c ''/running'' = Some \<lparr>r_pattern = ''/running'', r_method = ''GET'', r_handler = RunningAll, r_gated = (\<not> expose_running_publicly (security c))\<rparr>"
  "route_at c ''/running/'' = Some \<lparr>r_pattern = ''/running/'', r_method = ''GET'', r_handler = RunningAll, r_gated = (\<not> expose_running_publicly (security c))\<rparr>"
  by (simp_all add: route_at_def routes_def public_routes_def admin_routes_def jobs_routes_def running_routes_def)

definition path_of :: "string \<Rightarrow> (string \<times> string list) option" where
  "path_of p = map_of test_paths p"

lemma path_of_values [simp]:
  "path_of ''/'' = Some (''/'', [])" "path_of ''/health'' = Some (''/health'', [])" "path_of ''/healthz'' = Some (''/healthz'', [])"
  "path_of ''/actuator/health'' = Some (''/actuator/health'', [])" "path_of ''/actuator/info'' = Some (''/actuator/info'', [])"
  "path_of ''/jobs'' = Some (''/jobs'', [])" "path_of ''/jobs/'' = Some (''/jobs/'', [])"
  "path_of ''/running'' = Some (''/running'', [])" "path_of ''/running/'' = Some (''/running/'', [])"
  "path_of ''/jobs/samples'' = Some (''/jobs/:group'', [''samples''])" "path_of ''/jobs/test'' = Some (''/jobs/:group'', [''test''])"
  "path_of ''/reload/samples'' = Some (''/reload/:group'', [''samples''])" "path_of ''/reload/payroll'' = Some (''/reload/:group'', [''payroll''])"
  "path_of ''/reload/group-a'' = Some (''/reload/:group'', [''group-a''])" "path_of ''/reload/group-b'' = Some (''/reload/:group'', [''group-b''])"
  "path_of ''/execute/nosuch/nope'' = Some (''/execute/:group/:job'', [''nosuch'', ''nope''])"
  "path_of ''/stop/nosuch/nope'' = Some (''/stop/:group/:job'', [''nosuch'', ''nope''])"
  "path_of ''/execute/payroll/nightly'' = Some (''/execute/:group/:job'', [''payroll'', ''nightly''])"
  "path_of ''/stop/payroll/nightly'' = Some (''/stop/:group/:job'', [''payroll'', ''nightly''])"
  "path_of ''/execute/logistics/nightly'' = Some (''/execute/:group/:job'', [''logistics'', ''nightly''])"
  "path_of ''/execute/payroll/nope'' = Some (''/execute/:group/:job'', [''payroll'', ''nope''])"
  "path_of ''/execute/logistics/nope'' = Some (''/execute/:group/:job'', [''logistics'', ''nope''])"
  "path_of ''/execute/any-other/nope'' = Some (''/execute/:group/:job'', [''any-other'', ''nope''])"
  "path_of ''/stop/test/idle'' = Some (''/stop/:group/:job'', [''test'', ''idle''])"
  "path_of ''/execute/test/slow'' = Some (''/execute/:group/:job'', [''test'', ''slow''])"
  "path_of ''/execute/test/slow2'' = Some (''/execute/:group/:job'', [''test'', ''slow2''])"
  "path_of ''/execute/g/j'' = Some (''/execute/:group/:job'', [''g'', ''j''])"
  by code_simp+

text \<open>A response as the client sees it, for a request that reaches a route.\<close>

definition routed :: "web_lib \<Rightarrow> web_events \<Rightarrow> AppState \<Rightarrow> Request \<Rightarrow> route \<Rightarrow> string list \<Rightarrow> (AppState \<times> Response) option" where
  "routed lib ev st req r raw =
     (case gated lib (r_gated r) st req of
        Err e \<Rightarrow> Some (st, result_response (Err e))
      | Ok _ \<Rightarrow>
          if request_method req = r_method r \<or> request_method req = ''HEAD'' \<and> r_method r = ''GET''
          then run_handler lib ev st (r_handler r) raw req
          else Some (st, method_not_allowed_response lib (r_method r)))"

lemma serve_routed:
  assumes "framework lib" and "allowed_origins (cfg st) = []" and "\<not> ev_deadline ev"
    and "get_header ''content-length'' (headers req) = None" and "path_of (uri_path req) = Some (pat, raw)"
    and "route_at (cfg st) pat = Some r"
  shows "serve lib ev st req = map_option (\<lambda>(st', x). (st', inner_layers lib ev st req x)) (routed lib ev st req r raw)"
proof -
  have "(uri_path req, pat, raw) \<in> set test_paths" using assms(5) by (auto simp: path_of_def dest: map_of_SomeD)
  then have "match_path lib (map r_pattern (routes (cfg st))) (uri_path req) = Some (pat, raw)"
    using assms(1) unfolding framework_def by blast
  moreover have "body_limit_layer lib n req = None" for n using assms(1,4) unfolding framework_def by blast
  ultimately show ?thesis
    using assms(2,3,6)
    by (auto simp: serve_def build_cors_def deadline_layer_def route_request_def resolve_def route_at_def routed_def split: sum.split)
qed

lemma answers_routed:
  assumes "framework lib" and "\<not> ev_deadline ev" and "allowed_origins (cfg st) = []"
    and "get_header ''content-length'' (headers req) = None" and "path_of (uri_path req) \<noteq> None"
    and "route_at (cfg st) (fst (the (path_of (uri_path req)))) \<noteq> None"
  shows "answers lib ev st req P \<longleftrightarrow>
    (case path_of (uri_path req) of None \<Rightarrow> False
     | Some (pat, raw) \<Rightarrow>
         (case routed lib ev st req (the (route_at (cfg st) pat)) raw of
            Some (_, x) \<Rightarrow> P (inner_layers lib ev st req x) | None \<Rightarrow> False))"
proof -
  obtain pat raw where path: "path_of (uri_path req) = Some (pat, raw)" using assms(5) by auto
  then obtain r where r: "route_at (cfg st) pat = Some r" using assms(6) by auto
  show ?thesis
    unfolding answers_def serve_routed [OF assms(1,3,2,4) path r]
    by (cases "routed lib ev st req r raw") (auto simp: path r)
qed

lemma app_fields [simp]:
  "cfg (app_state_new c s) = c" "scheduler (app_state_new c s) = s" "admin_token (app_state_new c s) = None"
  "cfg (spawn_app tmp) = default_cfg tmp" "cfg (spawn_gated_app c) = c" "cfg (spawn_gated_with_per_group_tokens c ts) = c"
  "scheduler (spawn_app tmp) = scheduler_new" "scheduler (spawn_gated_app c) = scheduler_new"
  "scheduler (spawn_gated_with_per_group_tokens c ts) = scheduler_new"
  "admin_token (spawn_app tmp) = None" "admin_token (spawn_gated_app c) = Some TOKEN"
  "admin_token (spawn_gated_with_per_group_tokens c ts) = Some TOKEN"
  "per_group_tokens (spawn_gated_app c) = []" "per_group_tokens (spawn_gated_with_per_group_tokens c ts) = btree_of ts"
  "reload_gate (spawn_gated_app c) = []" "reload_gate (spawn_gated_with_per_group_tokens c ts) = []"
  by (simp_all add: spawn_app_def spawn_gated_app_def spawn_gated_with_per_group_tokens_def app_state_new_def
      with_admin_token_def with_per_group_tokens_def)

lemma request_fields [simp]:
  "request_method (request m p hs) = m" "uri_path (request m p hs) = p" "headers (request m p hs) = hs"
  "uri_query (request m p hs) = []" "request_method (with_query q req) = request_method req"
  "uri_path (with_query q req) = uri_path req" "headers (with_query q req) = headers req"
  by (simp_all add: request_def with_query_def)

lemma cfg_fields [simp]:
  "allowed_origins (default_cfg tmp) = []" "security (default_cfg tmp) = default_security"
  "allowed_origins (with_security f c) = allowed_origins c" "security (with_security f c) = f (security c)"
  "expose_jobs_publicly default_security" "expose_running_publicly default_security"
  "\<not> allow_dangerous_env_overrides default_security" "max_query_params default_security = 64"
  by (simp_all add: default_cfg_def default_config_def with_security_def default_security_def default_max_query_params_def)

lemma bearer_headers [simp]: "get_header ''content-length'' (bearer_auth t) = None" "get_header ''content-length'' [] = None"
  "get_header ''authorization'' (bearer_auth t) = Some (''Bearer '' @ t)" "get_header ''authorization'' [] = None"
  "get_header ''content-length'' lower_bearer = None" "get_header ''authorization'' lower_bearer = Some (''bearer '' @ TOKEN)"
  by (simp_all add: bearer_auth_def lower_bearer_def get_header_def)

lemma bearer_values:
  "bearer_token_bytes (''Bearer '' @ TOKEN) = Some TOKEN" "bearer_token_bytes (''bearer '' @ TOKEN) = Some TOKEN"
  "bearer_token_bytes (''Bearer '' @ GROUP_TOKEN) = Some GROUP_TOKEN"
  "bearer_token_bytes ''Bearer nope-not-this'' = Some ''nope-not-this''"
  "bearer_token_bytes ''Bearer random-attacker-token'' = Some ''random-attacker-token''"
  by code_simp+

lemma bearer_texts:
  assumes "framework lib"
  shows "value_to_str (w_headers lib) (''Bearer '' @ TOKEN) = Some (''Bearer '' @ TOKEN)"
    "value_to_str (w_headers lib) (''bearer '' @ TOKEN) = Some (''bearer '' @ TOKEN)"
    "value_to_str (w_headers lib) (''Bearer '' @ GROUP_TOKEN) = Some (''Bearer '' @ GROUP_TOKEN)"
    "value_to_str (w_headers lib) ''Bearer nope-not-this'' = Some ''Bearer nope-not-this''"
    "value_to_str (w_headers lib) ''Bearer random-attacker-token'' = Some ''Bearer random-attacker-token''"
  using assms unfolding framework_def by (simp_all add: TOKEN_def GROUP_TOKEN_def)

lemma presented_tokens:
  assumes "framework lib"
  shows "presented_token (w_headers lib) (request m p []) = None"
    "presented_token (w_headers lib) (request m p (bearer_auth TOKEN)) = Some TOKEN"
    "presented_token (w_headers lib) (request m p (bearer_auth GROUP_TOKEN)) = Some GROUP_TOKEN"
    "presented_token (w_headers lib) (request m p (bearer_auth ''nope-not-this'')) = Some ''nope-not-this''"
    "presented_token (w_headers lib) (request m p (bearer_auth ''random-attacker-token'')) = Some ''random-attacker-token''"
    "presented_token (w_headers lib) (request m p lower_bearer) = Some TOKEN"
  using bearer_texts [OF assms] bearer_values by (simp_all add: presented_token_def)

lemma presented_query: "presented_token hl (with_query q req) = presented_token hl req"
  by (simp add: presented_token_def)

lemma result_status [simp]: "resp_status (result_response (Ok j)) = 200" "resp_status (result_response (Err e)) = status e"
  by (simp_all add: result_response_def json_response_def into_response_def)

lemma inner_field:
  assumes "framework lib"
  shows "body_field n (inner_layers lib ev st req (result_response (Ok (JObj fs)))) = map_of fs n"
    "body_field n (inner_layers lib ev st req (result_response (Err e))) =
       (case snd (into_response e) of JObj fs \<Rightarrow> map_of fs n | _ \<Rightarrow> None)"
  by (simp_all add: body_field_def result_response_def inner_json [OF assms] split: json.split)

lemma groups_in_paths:
  "extract_group_from_path ''/execute/nosuch/nope'' = Some ''nosuch''" "extract_group_from_path ''/stop/nosuch/nope'' = Some ''nosuch''"
  "extract_group_from_path ''/execute/payroll/nightly'' = Some ''payroll''" "extract_group_from_path ''/stop/payroll/nightly'' = Some ''payroll''"
  "extract_group_from_path ''/execute/logistics/nightly'' = Some ''logistics''" "extract_group_from_path ''/execute/payroll/nope'' = Some ''payroll''"
  "extract_group_from_path ''/execute/logistics/nope'' = Some ''logistics''" "extract_group_from_path ''/execute/any-other/nope'' = Some ''any-other''"
  "extract_group_from_path ''/reload/payroll'' = Some ''payroll''" "extract_group_from_path ''/reload/samples'' = Some ''samples''"
  "extract_group_from_path ''/jobs'' = None" "extract_group_from_path ''/running'' = None"
  by code_simp+

lemmas web_eval = routed_def gated_def admin_gate_def run_handler_def with_path_def execute_job_def stop_job_def bounded_query_def
  dangerous_override_def trigger_now_def stop_def scheduler_new_def status_is_def into_response_def param_def
  view_def groups_in_paths

lemma plain_parse:
  assumes "framework lib"
  shows "list_all plain_text raw \<Longrightarrow> decode_params lib raw = Some raw"
    and "parse_query lib [] = []"
    and "list_all (\<lambda>(k, v). k \<noteq> [] \<and> plain_text k \<and> plain_text v) ps \<Longrightarrow> parse_query lib (uri_query (with_query ps req)) = ps"
proof -
  have parse: "parse_query lib (str_join ''&'' (map pair_text ps)) = ps"
    if "list_all (\<lambda>(k, v). k \<noteq> [] \<and> plain_text k \<and> plain_text v) ps" for ps
    using assms that unfolding framework_def by blast
  from parse [of "[]"] show "parse_query lib [] = []" by simp
  show "parse_query lib (uri_query (with_query ps req)) = ps"
    if "list_all (\<lambda>(k, v). k \<noteq> [] \<and> plain_text k \<and> plain_text v) ps"
    using parse [OF that] by (simp add: with_query_def)
  show "list_all plain_text raw \<Longrightarrow> decode_params lib raw = Some raw" using assms unfolding framework_def by blast
qed

text \<open>A framework that meets the premises: a query is split at its ampersands and each pair at its first equals sign.\<close>

definition split_pairs :: "string \<Rightarrow> (string \<times> string) list" where
  "split_pairs q =
     (if q = [] then [] else map (\<lambda>p. (takeWhile (\<lambda>c. c \<noteq> CHR ''='') p, tl (dropWhile (\<lambda>c. c \<noteq> CHR ''='') p))) (split_on (CHR ''&'') q))"

definition test_web_lib :: "dsl_lib \<Rightarrow> web_lib" where
  "test_web_lib dlib =
     (ex_web_lib [])\<lparr>w_dsl := dlib, match_path := (\<lambda>_ p. map_of test_paths p), decode_params := Some, parse_query := split_pairs,
       body_limit_layer := (\<lambda>n req. case get_header ''content-length'' (headers req) of
           None \<Rightarrow> None
         | Some v \<Rightarrow> if n < foldl (\<lambda>v c. 10 * v + (of_char c - 48)) 0 v
             then Some \<lparr>resp_status = 413, resp_headers = [(''content-type'', ''text/plain; charset=utf-8'')],
               resp_body = Text ''length limit exceeded''\<rparr> else None),
       method_not_allowed_response := (\<lambda>m. \<lparr>resp_status = 405,
         resp_headers = [(''allow'', if m = ''GET'' then ''GET,HEAD'' else m)], resp_body = Text []\<rparr>)\<rparr>"

lemma split_pair:
  assumes "plain_text k" and "plain_text v"
  shows "takeWhile (\<lambda>c. c \<noteq> CHR ''='') (pair_text (k, v)) = k" "tl (dropWhile (\<lambda>c. c \<noteq> CHR ''='') (pair_text (k, v))) = v"
    "CHR ''&'' \<notin> set (pair_text (k, v))"
  using assms by (auto simp: pair_text_def plain_text_def list_all_iff takeWhile_append dropWhile_append)

lemma split_pairs_join:
  assumes "list_all (\<lambda>(k, v). k \<noteq> [] \<and> plain_text k \<and> plain_text v) ps"
  shows "split_pairs (str_join ''&'' (map pair_text ps)) = ps"
proof -
  have "split_on (CHR ''&'') (str_join ''&'' (map pair_text ps)) = map pair_text ps" if "ps \<noteq> []"
    using that assms
  proof (induction ps rule: induct_list012)
    case (3 p p' ps)
    then show ?case using split_pair(3) split_on_Cons [of "CHR ''&''" "pair_text p"] by (auto split: prod.splits)
  qed (auto simp: split_on_whole split_pair)
  moreover have "str_join ''&'' (map pair_text ps) \<noteq> []" if "ps \<noteq> []"
    using that by (cases ps rule: remdups_adj.cases) (auto simp: pair_text_def)
  moreover have "map (\<lambda>p. (takeWhile (\<lambda>c. c \<noteq> CHR ''='') p, tl (dropWhile (\<lambda>c. c \<noteq> CHR ''='') p))) (map pair_text ps) = ps"
    using assms by (induction ps) (auto simp: split_pair)
  ultimately show ?thesis by (cases "ps = []") (simp_all add: split_pairs_def)
qed

lemma test_paths_distinct: "distinct (map fst test_paths)"
  by code_simp

lemma unknown_test_path: "map_of test_paths ''/does-not-exist'' = None"
  by code_simp

lemma test_framework: "framework (test_web_lib dlib)"
  unfolding framework_def
  using test_paths_distinct unknown_test_path split_pairs_join
  by (auto simp: test_web_lib_def ex_web_lib_def read_show_nat get_header_def)

section \<open>Security: the bearer gate\<close>

definition c1_execute_without_bearer_returns_401 :: "web_lib \<Rightarrow> web_events \<Rightarrow> path \<Rightarrow> bool" where
  "c1_execute_without_bearer_returns_401 lib ev tmp \<longleftrightarrow>
     answers lib ev (spawn_gated_app (default_cfg tmp)) (request ''POST'' ''/execute/nosuch/nope'' [])
       (\<lambda>r. status_is 401 r \<and> body_field ''error'' r = Some (JStr ''unauthorized''))"

definition c1_execute_with_wrong_bearer_returns_401 :: "web_lib \<Rightarrow> web_events \<Rightarrow> path \<Rightarrow> bool" where
  "c1_execute_with_wrong_bearer_returns_401 lib ev tmp \<longleftrightarrow>
     answers lib ev (spawn_gated_app (default_cfg tmp)) (request ''POST'' ''/execute/nosuch/nope'' (bearer_auth ''nope-not-this''))
       (status_is 401)"

definition c1_execute_with_right_bearer_passes_gate :: "web_lib \<Rightarrow> web_events \<Rightarrow> path \<Rightarrow> bool" where
  "c1_execute_with_right_bearer_passes_gate lib ev tmp \<longleftrightarrow>
     answers lib ev (spawn_gated_app (default_cfg tmp)) (request ''POST'' ''/execute/nosuch/nope'' (bearer_auth TOKEN))
       (\<lambda>r. \<not> status_is 401 r \<and> status_is 404 r)"

definition c1_stop_gate_requires_bearer :: "web_lib \<Rightarrow> web_events \<Rightarrow> path \<Rightarrow> bool" where
  "c1_stop_gate_requires_bearer lib ev tmp \<longleftrightarrow>
     (let st = spawn_gated_app (default_cfg tmp)
      in answers lib ev st (request ''POST'' ''/stop/nosuch/nope'' []) (status_is 401) \<and>
         answers lib ev st (request ''POST'' ''/stop/nosuch/nope'' (bearer_auth TOKEN)) (\<lambda>r. \<not> status_is 401 r))"

definition c1_reload_gate_requires_bearer :: "web_lib \<Rightarrow> web_events \<Rightarrow> path \<Rightarrow> bool" where
  "c1_reload_gate_requires_bearer lib ev tmp \<longleftrightarrow>
     answers lib ev (spawn_gated_app (default_cfg tmp)) (request ''POST'' ''/reload/samples'' []) (status_is 401)"

definition c1_read_only_routes_stay_open :: "web_lib \<Rightarrow> web_events \<Rightarrow> path \<Rightarrow> bool" where
  "c1_read_only_routes_stay_open lib ev tmp \<longleftrightarrow>
     list_all (\<lambda>p. answers lib ev (spawn_gated_app (default_cfg tmp)) (request ''GET'' p []) (status_is 200))
       [''/health'', ''/jobs'', ''/running'', ''/actuator/info'']"

definition c1_case_insensitive_bearer_scheme :: "web_lib \<Rightarrow> web_events \<Rightarrow> path \<Rightarrow> bool" where
  "c1_case_insensitive_bearer_scheme lib ev tmp \<longleftrightarrow>
     answers lib ev (spawn_gated_app (default_cfg tmp))
       (request ''POST'' ''/execute/nosuch/nope'' lower_bearer) (\<lambda>r. \<not> status_is 401 r)"

definition trust_network_true_with_token_set_still_enforces_gate :: "web_lib \<Rightarrow> web_events \<Rightarrow> path \<Rightarrow> bool" where
  "trust_network_true_with_token_set_still_enforces_gate lib ev tmp \<longleftrightarrow>
     (let c = default_cfg tmp; st = spawn_gated_app (c\<lparr>admin := (admin c)\<lparr>trust_network := True\<rparr>\<rparr>)
      in answers lib ev st (request ''POST'' ''/execute/nosuch/nope'' []) (status_is 401) \<and>
         answers lib ev st (request ''POST'' ''/execute/nosuch/nope'' (bearer_auth TOKEN)) (status_is 404))"

definition no_token_bind_loopback_still_serves_state_changes :: "web_lib \<Rightarrow> web_events \<Rightarrow> path \<Rightarrow> bool" where
  "no_token_bind_loopback_still_serves_state_changes lib ev tmp \<longleftrightarrow>
     answers lib ev (app_state_new (default_cfg tmp) scheduler_new) (request ''POST'' ''/execute/nosuch/nope'' []) (status_is 404)"

lemmas c1_defs = c1_execute_without_bearer_returns_401_def c1_execute_with_wrong_bearer_returns_401_def
  c1_execute_with_right_bearer_passes_gate_def c1_stop_gate_requires_bearer_def c1_reload_gate_requires_bearer_def
  c1_read_only_routes_stay_open_def c1_case_insensitive_bearer_scheme_def trust_network_true_with_token_set_still_enforces_gate_def
  no_token_bind_loopback_still_serves_state_changes_def

lemma tokens_differ [simp]:
  "TOKEN \<noteq> GROUP_TOKEN" "GROUP_TOKEN \<noteq> TOKEN" "''nope-not-this'' \<noteq> TOKEN" "''random-attacker-token'' \<noteq> TOKEN" "''random-attacker-token'' \<noteq> GROUP_TOKEN"
  by (simp_all add: TOKEN_def GROUP_TOKEN_def)

lemma bearer_gate_tests:
  assumes "framework lib" and "\<not> ev_deadline ev"
  shows "c1_execute_without_bearer_returns_401 lib ev tmp" "c1_execute_with_wrong_bearer_returns_401 lib ev tmp"
    "c1_execute_with_right_bearer_passes_gate lib ev tmp" "c1_stop_gate_requires_bearer lib ev tmp"
    "c1_reload_gate_requires_bearer lib ev tmp" "c1_read_only_routes_stay_open lib ev tmp"
    "c1_case_insensitive_bearer_scheme lib ev tmp" "trust_network_true_with_token_set_still_enforces_gate lib ev tmp"
    "no_token_bind_loopback_still_serves_state_changes lib ev tmp"
  by (simp_all add: c1_defs answers_routed [OF assms] presented_tokens [OF assms(1)] inner_field [OF assms(1)]
      plain_parse [OF assms(1)] plain_text_def web_eval)

section \<open>Security: queries\<close>

definition numbered :: "nat \<Rightarrow> (string \<times> string) list" where
  "numbered n = map (\<lambda>i. (''k'' @ show_nat i, ''v'' @ show_nat i)) [0..<n]"

definition execute_query :: "(string \<times> string) list \<Rightarrow> Request" where
  "execute_query q = with_query q (request ''POST'' ''/execute/nosuch/nope'' (bearer_auth TOKEN))"

definition c2_query_params_above_cap_return_413 :: "web_lib \<Rightarrow> web_events \<Rightarrow> path \<Rightarrow> bool" where
  "c2_query_params_above_cap_return_413 lib ev tmp \<longleftrightarrow>
     answers lib ev (spawn_gated_app (default_cfg tmp)) (execute_query (numbered 65))
       (\<lambda>r. status_is 413 r \<and> body_field ''error'' r = Some (JStr ''too_many_query_params'') \<and>
          body_field ''limit'' r = Some (JNum 64) \<and> body_field ''count'' r = Some (JNum 65))"

definition c2_query_params_at_cap_pass_extractor :: "web_lib \<Rightarrow> web_events \<Rightarrow> path \<Rightarrow> bool" where
  "c2_query_params_at_cap_pass_extractor lib ev tmp \<longleftrightarrow>
     answers lib ev (spawn_gated_app (default_cfg tmp)) (execute_query (numbered 64)) (status_is 404)"

definition h3_path_override_is_rejected_403 :: "web_lib \<Rightarrow> web_events \<Rightarrow> path \<Rightarrow> bool" where
  "h3_path_override_is_rejected_403 lib ev tmp \<longleftrightarrow>
     answers lib ev (spawn_gated_app (default_cfg tmp)) (execute_query [(''PATH'', ''/tmp'')])
       (\<lambda>r. status_is 403 r \<and> body_field ''error'' r = Some (JStr ''forbidden'') \<and>
          (case body_field ''message'' r of Some (JStr m) \<Rightarrow> str_contains ''PATH'' m | _ \<Rightarrow> False))"

definition h3_ld_preload_override_is_rejected_403 :: "web_lib \<Rightarrow> web_events \<Rightarrow> path \<Rightarrow> bool" where
  "h3_ld_preload_override_is_rejected_403 lib ev tmp \<longleftrightarrow>
     answers lib ev (spawn_gated_app (default_cfg tmp)) (execute_query [(''LD_PRELOAD'', ''/tmp/x.so'')]) (status_is 403)"

definition h3_lowercase_path_still_rejected :: "web_lib \<Rightarrow> web_events \<Rightarrow> path \<Rightarrow> bool" where
  "h3_lowercase_path_still_rejected lib ev tmp \<longleftrightarrow>
     answers lib ev (spawn_gated_app (default_cfg tmp)) (execute_query [(''path'', ''/tmp'')]) (status_is 403)"

definition h3_dangerous_env_bypass_when_opted_out :: "web_lib \<Rightarrow> web_events \<Rightarrow> path \<Rightarrow> bool" where
  "h3_dangerous_env_bypass_when_opted_out lib ev tmp \<longleftrightarrow>
     answers lib ev (spawn_gated_app (with_security (\<lambda>sec. sec\<lparr>allow_dangerous_env_overrides := True\<rparr>) (default_cfg tmp)))
       (execute_query [(''PATH'', ''/tmp'')]) (status_is 404)"

definition h3_non_dangerous_env_still_allowed :: "web_lib \<Rightarrow> web_events \<Rightarrow> path \<Rightarrow> bool" where
  "h3_non_dangerous_env_still_allowed lib ev tmp \<longleftrightarrow>
     answers lib ev (spawn_gated_app (default_cfg tmp)) (execute_query [(''FOO'', ''bar'')]) (status_is 404)"

lemmas query_defs = c2_query_params_above_cap_return_413_def c2_query_params_at_cap_pass_extractor_def
  h3_path_override_is_rejected_403_def h3_ld_preload_override_is_rejected_403_def h3_lowercase_path_still_rejected_def
  h3_dangerous_env_bypass_when_opted_out_def h3_non_dangerous_env_still_allowed_def

lemma dangerous_values:
  "is_dangerous_env ''PATH''" "is_dangerous_env ''LD_PRELOAD''" "is_dangerous_env ''path''" "\<not> is_dangerous_env ''FOO''"
  by code_simp+

lemma numbered_harmless: "\<not> is_dangerous_env (CHR ''k'' # s)"
proof -
  have "to_ascii_uppercase (CHR ''k'' # s) = CHR ''K'' # to_ascii_uppercase s"
    by (simp add: to_ascii_uppercase_def) code_simp
  then show ?thesis
    by (simp add: is_dangerous_env_def DANGEROUS_ENVS_def eq_ignore_ascii_case_def to_ascii_lowercase_def Let_def) code_simp
qed

lemma numbered_plain: "list_all (\<lambda>(k, v). k \<noteq> [] \<and> plain_text k \<and> plain_text v) (numbered n)"
  using show_nat_digits by (fastforce simp: numbered_def list_all_iff plain_text_def)

lemma query_tests:
  assumes "framework lib" and "\<not> ev_deadline ev"
  shows "h3_path_override_is_rejected_403 lib ev tmp"
    "h3_ld_preload_override_is_rejected_403 lib ev tmp" "h3_lowercase_path_still_rejected lib ev tmp"
    "h3_dangerous_env_bypass_when_opted_out lib ev tmp" "h3_non_dangerous_env_still_allowed lib ev tmp"
  by (simp_all add: query_defs answers_routed [OF assms] presented_tokens [OF assms(1)] presented_query inner_field [OF assms(1)]
      plain_parse [OF assms(1)] plain_text_def execute_query_def dangerous_values quoted_def web_eval)

lemma count_tests:
  assumes "framework lib" and "\<not> ev_deadline ev"
  shows "c2_query_params_above_cap_return_413 lib ev tmp" "c2_query_params_at_cap_pass_extractor lib ev tmp"
proof -
  have len: "length (numbered n) = n" for n by (simp add: numbered_def)
  have none: "List.find (\<lambda>(k, _). is_dangerous_env k) (numbered n) = None" for n
    by (auto simp: find_None_iff numbered_def numbered_harmless)
  show "c2_query_params_above_cap_return_413 lib ev tmp" "c2_query_params_at_cap_pass_extractor lib ev tmp"
    by (simp_all add: query_defs answers_routed [OF assms] presented_tokens [OF assms(1)] presented_query inner_field [OF assms(1)]
        plain_parse(1,2) [OF assms(1)] plain_parse(3) [OF assms(1) numbered_plain] len none plain_text_def execute_query_def web_eval)
qed

section \<open>Security: the reload throttle\<close>

text \<open>A second request against the state the first one left.\<close>

definition then_answers ::
  "web_lib \<Rightarrow> web_events \<Rightarrow> AppState \<Rightarrow> Request \<Rightarrow> (Response \<Rightarrow> bool) \<Rightarrow> (AppState \<Rightarrow> bool) \<Rightarrow> bool" where
  "then_answers lib ev st req P k = (case serve lib ev st req of Some (st', r) \<Rightarrow> P r \<and> k st' | None \<Rightarrow> False)"

definition empty_dir :: "web_events \<Rightarrow> web_events" where
  "empty_dir ev = ev\<lparr>ev_tree := Some (FDir []), ev_load_end := Joined\<rparr>"

definition throttled_app :: "path \<Rightarrow> path \<Rightarrow> AppState" where
  "throttled_app tmp empty_path =
     spawn_gated_app (with_security (\<lambda>sec. sec\<lparr>reload_min_interval_secs := 60\<rparr>) ((default_cfg tmp)\<lparr>dsl_path := empty_path\<rparr>))"

definition h4_reload_throttle_returns_429_within_window :: "web_lib \<Rightarrow> web_events \<Rightarrow> nat \<Rightarrow> path \<Rightarrow> path \<Rightarrow> bool" where
  "h4_reload_throttle_returns_429_within_window lib ev d tmp dir \<longleftrightarrow>
     then_answers lib (empty_dir ev) (throttled_app tmp dir) (request ''POST'' ''/reload/samples'' (bearer_auth TOKEN)) (status_is 200) (\<lambda>st.
     answers lib (empty_dir (ev\<lparr>ev_now := ev_now ev + d\<rparr>)) st (request ''POST'' ''/reload/samples'' (bearer_auth TOKEN))
       (\<lambda>r. status_is 429 r \<and> body_field ''error'' r = Some (JStr ''too_many_requests'') \<and>
          (case body_field ''retry_after_secs'' r of Some (JNum n) \<Rightarrow> 0 < n | _ \<Rightarrow> False)))"

definition h4_reload_throttle_per_group :: "web_lib \<Rightarrow> web_events \<Rightarrow> nat \<Rightarrow> path \<Rightarrow> path \<Rightarrow> bool" where
  "h4_reload_throttle_per_group lib ev d tmp dir \<longleftrightarrow>
     then_answers lib (empty_dir ev) (throttled_app tmp dir) (request ''POST'' ''/reload/group-a'' (bearer_auth TOKEN)) (status_is 200) (\<lambda>st.
     answers lib (empty_dir (ev\<lparr>ev_now := ev_now ev + d\<rparr>)) st (request ''POST'' ''/reload/group-b'' (bearer_auth TOKEN)) (status_is 200))"

lemma then_routed:
  assumes "framework lib" and "\<not> ev_deadline ev" and "allowed_origins (cfg st) = []"
    and "get_header ''content-length'' (headers req) = None" and "path_of (uri_path req) \<noteq> None"
    and "route_at (cfg st) (fst (the (path_of (uri_path req)))) \<noteq> None"
  shows "then_answers lib ev st req P k \<longleftrightarrow>
    (case path_of (uri_path req) of None \<Rightarrow> False
     | Some (pat, raw) \<Rightarrow>
         (case routed lib ev st req (the (route_at (cfg st) pat)) raw of
            Some (st', x) \<Rightarrow> P (inner_layers lib ev st req x) \<and> k st' | None \<Rightarrow> False))"
proof -
  obtain pat raw where path: "path_of (uri_path req) = Some (pat, raw)" using assms(5) by auto
  then obtain r where r: "route_at (cfg st) pat = Some r" using assms(6) by auto
  show ?thesis
    unfolding then_answers_def serve_routed [OF assms(1,3,2,4) path r]
    by (cases "routed lib ev st req r raw") (auto simp: path r)
qed

lemma reload_empty:
  assumes "admit grp (reload_min_interval_secs (security (cfg st))) (ev_now ev) (reload_gate st) = (gate, Ok ())"
  shows "reload_jobs lib (empty_dir ev) st grp =
    (st\<lparr>reload_gate := gate, scheduler := snd (reload_from [] (scheduler st))\<rparr>, Ok (JObj [(''reloaded'', JNum 0)]))"
  using assms
  by (simp add: reload_jobs_def empty_dir_def load_all_bounded_def load_all_with_policy_def sorted_entries_def reload_from_def
      Let_def)

lemma empty_dir_fields [simp]: "ev_deadline (empty_dir ev) = ev_deadline ev" "ev_now (empty_dir ev) = ev_now ev"
  by (simp_all add: empty_dir_def)

lemma throttled_fields [simp]:
  "allowed_origins (cfg (throttled_app tmp dir)) = []" "admin_token (throttled_app tmp dir) = Some TOKEN"
  "reload_min_interval_secs (security (cfg (throttled_app tmp dir))) = 60" "reload_gate (throttled_app tmp dir) = []"
  by (simp_all add: throttled_app_def)

lemma admit_first: "admit g 60 t [] = ([(g, t)], Ok ())"
  by (simp add: admit_def evict_stale_def evict_oldest_def Let_def)

lemma reload_throttle_tests:
  assumes "framework lib" and "\<not> ev_deadline ev"
  shows "d < 60000 \<Longrightarrow> h4_reload_throttle_returns_429_within_window lib ev d tmp dir" "h4_reload_throttle_per_group lib ev d tmp dir"
proof -
  have fw: "framework lib" "\<not> ev_deadline (empty_dir (ev\<lparr>ev_now := t\<rparr>))" "\<not> ev_deadline (empty_dir ev)" for t
    using assms by simp_all
  show "h4_reload_throttle_returns_429_within_window lib ev d tmp dir" if "d < 60000"
  proof -
    have "d div 1000 < 60" using that by simp
    then have again: "admit ''samples'' 60 (ev_now ev + d) [(''samples'', ev_now ev)] =
        ([(''samples'', ev_now ev)], Err (60 - d div 1000))"
      by (simp add: admit_def elapsed_secs_def)
    show ?thesis
      using \<open>d div 1000 < 60\<close>
      unfolding h4_reload_throttle_returns_429_within_window_def
      by (simp add: then_routed [OF fw(1,3)] answers_routed [OF fw(1,2)] presented_tokens [OF fw(1)] routed_def gated_def admin_gate_def
          run_handler_def with_path_def plain_parse [OF fw(1)] plain_text_def param_def reload_empty admit_first again status_is_def)
        (simp add: reload_jobs_def again status_is_def inner_field [OF fw(1)] into_response_def)
  qed
  have other: "admit ''group-b'' 60 (ev_now ev + d) [(''group-a'', ev_now ev)] =
      (AList.update ''group-b'' (ev_now ev + d) (evict_oldest ''group-b'' (evict_stale (ev_now ev + d) 60 [(''group-a'', ev_now ev)])), Ok ())"
    by (simp add: admit_def)
  show "h4_reload_throttle_per_group lib ev d tmp dir"
    unfolding h4_reload_throttle_per_group_def
    by (simp add: then_routed [OF fw(1,3)] answers_routed [OF fw(1,2)] presented_tokens [OF fw(1)] routed_def gated_def admin_gate_def
          run_handler_def with_path_def plain_parse [OF fw(1)] plain_text_def param_def reload_empty admit_first other status_is_def)
qed

section \<open>Security: the boot refusal\<close>

definition refuse_to_start_nonloopback_no_token_is_hard_error :: bool where
  "refuse_to_start_nonloopback_no_token_is_hard_error \<longleftrightarrow>
     (case refuse_to_start_without_token default_config ''0.0.0.0:8080'' False of
        Err err \<Rightarrow> str_contains ''0.0.0.0'' err \<and> str_contains (bearer_token_env (admin default_config)) err
      | Ok _ \<Rightarrow> False)"

definition refuse_to_start_nonloopback_with_token_ok :: bool where
  "refuse_to_start_nonloopback_with_token_ok \<longleftrightarrow>
     is_ok (refuse_to_start_without_token (default_config\<lparr>admin := \<lparr>bearer_token_env = ''IGNORED_HERE'', trust_network = False\<rparr>,
       security := default_security\<rparr>) ''0.0.0.0:8080'' True)"

definition refuse_to_start_trust_network_true_still_needs_token_field_off :: bool where
  "refuse_to_start_trust_network_true_still_needs_token_field_off \<longleftrightarrow>
     (let c = default_config\<lparr>admin := (admin default_config)\<lparr>trust_network := True\<rparr>\<rparr>
      in is_ok (refuse_to_start_without_token c ''0.0.0.0:8080'' False) \<and>
         is_ok (refuse_to_start_without_token c ''0.0.0.0:8080'' True) \<and>
         is_ok (refuse_to_start_without_token c ''127.0.0.1:8080'' True))"

lemma refusal_tests:
  "refuse_to_start_nonloopback_no_token_is_hard_error" "refuse_to_start_nonloopback_with_token_ok"
  "refuse_to_start_trust_network_true_still_needs_token_field_off"
proof -
  show "refuse_to_start_nonloopback_no_token_is_hard_error"
    using loopback_vectors by (simp add: refuse_to_start_nonloopback_no_token_is_hard_error_def refuse_to_start_without_token_def default_config_def
        default_admin_def default_admin_token_env_def)
  show "refuse_to_start_nonloopback_with_token_ok" "refuse_to_start_trust_network_true_still_needs_token_field_off"
    by (simp_all add: refuse_to_start_nonloopback_with_token_ok_def refuse_to_start_without_token_def is_ok_def
        refuse_to_start_trust_network_true_still_needs_token_field_off_def)
qed

section \<open>Security: views behind the gate\<close>

definition hidden_jobs :: "AppConfig \<Rightarrow> AppConfig" where
  "hidden_jobs = with_security (\<lambda>sec. sec\<lparr>expose_jobs_publicly := False\<rparr>)"

definition hidden_running :: "AppConfig \<Rightarrow> AppConfig" where
  "hidden_running = with_security (\<lambda>sec. sec\<lparr>expose_running_publicly := False\<rparr>)"

definition fn3_jobs_public_by_default_returns_200 :: "web_lib \<Rightarrow> web_events \<Rightarrow> path \<Rightarrow> bool" where
  "fn3_jobs_public_by_default_returns_200 lib ev tmp \<longleftrightarrow>
     answers lib ev (spawn_gated_app (default_cfg tmp)) (request ''GET'' ''/jobs'' []) (status_is 200)"

definition fn3_jobs_gated_when_expose_jobs_publicly_false :: "web_lib \<Rightarrow> web_events \<Rightarrow> path \<Rightarrow> bool" where
  "fn3_jobs_gated_when_expose_jobs_publicly_false lib ev tmp \<longleftrightarrow>
     (let st = spawn_gated_app (hidden_jobs (default_cfg tmp))
      in answers lib ev st (request ''GET'' ''/jobs'' []) (status_is 401) \<and>
         answers lib ev st (request ''GET'' ''/jobs'' (bearer_auth TOKEN)) (status_is 200))"

definition fn3_jobs_group_variant_gated_too :: "web_lib \<Rightarrow> web_events \<Rightarrow> path \<Rightarrow> bool" where
  "fn3_jobs_group_variant_gated_too lib ev tmp \<longleftrightarrow>
     answers lib ev (spawn_gated_app (hidden_jobs (default_cfg tmp))) (request ''GET'' ''/jobs/samples'' []) (status_is 401)"

definition fn3_running_gated_when_expose_running_publicly_false :: "web_lib \<Rightarrow> web_events \<Rightarrow> path \<Rightarrow> bool" where
  "fn3_running_gated_when_expose_running_publicly_false lib ev tmp \<longleftrightarrow>
     (let st = spawn_gated_app (hidden_running (default_cfg tmp))
      in answers lib ev st (request ''GET'' ''/running'' []) (status_is 401) \<and>
         answers lib ev st (request ''GET'' ''/running'' (bearer_auth TOKEN)) (status_is 200))"

definition fn3_health_stays_public_even_when_recon_is_gated :: "web_lib \<Rightarrow> web_events \<Rightarrow> path \<Rightarrow> bool" where
  "fn3_health_stays_public_even_when_recon_is_gated lib ev tmp \<longleftrightarrow>
     list_all (\<lambda>p. answers lib ev (spawn_gated_app (hidden_running (hidden_jobs (default_cfg tmp)))) (request ''GET'' p []) (status_is 200))
       [''/health'', ''/actuator/health'', ''/actuator/info'', ''/'']"

lemmas fn3_defs = fn3_jobs_public_by_default_returns_200_def fn3_jobs_gated_when_expose_jobs_publicly_false_def
  fn3_jobs_group_variant_gated_too_def fn3_running_gated_when_expose_running_publicly_false_def
  fn3_health_stays_public_even_when_recon_is_gated_def

lemma view_gate_tests:
  assumes "framework lib" and "\<not> ev_deadline ev"
  shows "fn3_jobs_public_by_default_returns_200 lib ev tmp" "fn3_jobs_gated_when_expose_jobs_publicly_false lib ev tmp"
    "fn3_jobs_group_variant_gated_too lib ev tmp" "fn3_running_gated_when_expose_running_publicly_false lib ev tmp"
    "fn3_health_stays_public_even_when_recon_is_gated lib ev tmp"
  by (simp_all add: fn3_defs hidden_jobs_def hidden_running_def answers_routed [OF assms] presented_tokens [OF assms(1)] web_eval)

section \<open>Security: group tokens\<close>

definition payroll_app :: "path \<Rightarrow> AppState" where
  "payroll_app tmp = spawn_gated_with_per_group_tokens (default_cfg tmp) [(''payroll'', GROUP_TOKEN)]"

definition fcm2_group_specific_token_accepted_for_own_group :: "web_lib \<Rightarrow> web_events \<Rightarrow> path \<Rightarrow> bool" where
  "fcm2_group_specific_token_accepted_for_own_group lib ev tmp \<longleftrightarrow>
     answers lib ev (payroll_app tmp) (request ''POST'' ''/execute/payroll/nightly'' (bearer_auth GROUP_TOKEN))
       (\<lambda>r. \<not> status_is 401 r \<and> status_is 404 r)"

definition fcm2_group_specific_token_rejected_for_other_group :: "web_lib \<Rightarrow> web_events \<Rightarrow> path \<Rightarrow> bool" where
  "fcm2_group_specific_token_rejected_for_other_group lib ev tmp \<longleftrightarrow>
     answers lib ev (payroll_app tmp) (request ''POST'' ''/execute/logistics/nightly'' (bearer_auth GROUP_TOKEN)) (status_is 401)"

definition fcm2_master_token_still_works_on_every_group :: "web_lib \<Rightarrow> web_events \<Rightarrow> path \<Rightarrow> bool" where
  "fcm2_master_token_still_works_on_every_group lib ev tmp \<longleftrightarrow>
     list_all (\<lambda>g. answers lib ev (payroll_app tmp) (request ''POST'' (''/execute/'' @ g @ ''/nope'') (bearer_auth TOKEN)) (\<lambda>r. \<not> status_is 401 r))
       [''payroll'', ''logistics'', ''any-other'']"

definition fcm2_stop_endpoint_honors_per_group_token :: "web_lib \<Rightarrow> web_events \<Rightarrow> path \<Rightarrow> bool" where
  "fcm2_stop_endpoint_honors_per_group_token lib ev tmp \<longleftrightarrow>
     answers lib ev (payroll_app tmp) (request ''POST'' ''/stop/payroll/nightly'' (bearer_auth GROUP_TOKEN)) (\<lambda>r. \<not> status_is 401 r)"

definition fcm2_reload_endpoint_honors_per_group_token :: "web_lib \<Rightarrow> web_events \<Rightarrow> path \<Rightarrow> path \<Rightarrow> bool" where
  "fcm2_reload_endpoint_honors_per_group_token lib ev tmp dir \<longleftrightarrow>
     answers lib (empty_dir ev) (spawn_gated_with_per_group_tokens ((default_cfg tmp)\<lparr>dsl_path := dir\<rparr>) [(''payroll'', GROUP_TOKEN)])
       (request ''POST'' ''/reload/payroll'' (bearer_auth GROUP_TOKEN)) (status_is 200)"

definition fcm2_group_without_per_group_entry_only_accepts_master :: "web_lib \<Rightarrow> web_events \<Rightarrow> path \<Rightarrow> bool" where
  "fcm2_group_without_per_group_entry_only_accepts_master lib ev tmp \<longleftrightarrow>
     answers lib ev (payroll_app tmp) (request ''POST'' ''/execute/logistics/nope'' (bearer_auth GROUP_TOKEN)) (status_is 401) \<and>
     answers lib ev (payroll_app tmp) (request ''POST'' ''/execute/logistics/nope'' (bearer_auth TOKEN)) (\<lambda>r. \<not> status_is 401 r)"

definition fcm2_wrong_token_still_401_when_per_group_configured :: "web_lib \<Rightarrow> web_events \<Rightarrow> path \<Rightarrow> bool" where
  "fcm2_wrong_token_still_401_when_per_group_configured lib ev tmp \<longleftrightarrow>
     answers lib ev (payroll_app tmp) (request ''POST'' ''/execute/payroll/nightly'' (bearer_auth ''random-attacker-token'')) (status_is 401)"

lemmas fcm2_defs = fcm2_group_specific_token_accepted_for_own_group_def fcm2_group_specific_token_rejected_for_other_group_def
  fcm2_master_token_still_works_on_every_group_def fcm2_stop_endpoint_honors_per_group_token_def
  fcm2_group_without_per_group_entry_only_accepts_master_def fcm2_wrong_token_still_401_when_per_group_configured_def

lemma one_token [simp]: "btree_of [(k, v)] = [(k, v)]"
  by (simp add: btree_of_def)

lemma group_token_tests:
  assumes "framework lib" and "\<not> ev_deadline ev"
  shows "fcm2_group_specific_token_accepted_for_own_group lib ev tmp" "fcm2_group_specific_token_rejected_for_other_group lib ev tmp"
    "fcm2_master_token_still_works_on_every_group lib ev tmp" "fcm2_stop_endpoint_honors_per_group_token lib ev tmp"
    "fcm2_group_without_per_group_entry_only_accepts_master lib ev tmp" "fcm2_wrong_token_still_401_when_per_group_configured lib ev tmp"
  by (simp_all add: fcm2_defs payroll_app_def answers_routed [OF assms] presented_tokens [OF assms(1)]
      plain_parse [OF assms(1)] plain_text_def web_eval)

lemma group_reload_test:
  assumes "framework lib" and "\<not> ev_deadline ev"
  shows "fcm2_reload_endpoint_honors_per_group_token lib ev tmp dir"
proof -
  let ?st = "spawn_gated_with_per_group_tokens ((default_cfg tmp)\<lparr>dsl_path := dir\<rparr>) [(''payroll'', GROUP_TOKEN)]"
  have fw: "\<not> ev_deadline (empty_dir ev)" using assms(2) by simp
  have "\<exists>gate. admit ''payroll'' m t [] = (gate, Ok ())" for m t by (simp add: admit_def)
  then obtain gate where "admit ''payroll'' (reload_min_interval_secs (security (cfg ?st))) (ev_now ev) (reload_gate ?st) = (gate, Ok ())"
    by (metis app_fields(16))
  from reload_empty [OF this] show ?thesis
    unfolding fcm2_reload_endpoint_honors_per_group_token_def
    by (simp add: answers_routed [OF assms(1) fw] presented_tokens [OF assms(1)] routed_def gated_def admin_gate_def run_handler_def
        with_path_def plain_parse [OF assms(1)] plain_text_def param_def groups_in_paths status_is_def)
qed

end
