(* ===== verification/Router_Service_Tests.thy ===== *)
theory Router_Service_Tests
  imports Service_Tests
begin

text \<open>
  The integration tests of \<open>tests/router_integration.rs\<close>: headers, views, triggering and stopping jobs, and the
  refusals of the framework. Two tests of sockets are left out: the body that never arrives and the
  graceful shutdown of the server.
\<close>

section \<open>Router: headers\<close>

definition every_response_carries_traceparent_headers :: "web_lib \<Rightarrow> web_events \<Rightarrow> path \<Rightarrow> bool" where
  "every_response_carries_traceparent_headers lib ev tmp \<longleftrightarrow>
     answers lib ev (spawn_app tmp) (request ''GET'' ''/health'' []) (\<lambda>r.
       case (get_header ''traceparent'' (resp_headers r), get_header ''x-trace-id'' (resp_headers r)) of
         (Some tp, Some trace_id) \<Rightarrow>
           (let parts = split_on (CHR ''-'') tp
            in length parts = 4 \<and> parts ! 0 = ''00'' \<and> length (parts ! 1) = 32 \<and> length (parts ! 2) = 16 \<and> trace_id = parts ! 1)
       | _ \<Rightarrow> False)"

definition traceparent_inherits_inbound_trace_id :: "web_lib \<Rightarrow> web_events \<Rightarrow> path \<Rightarrow> bool" where
  "traceparent_inherits_inbound_trace_id lib ev tmp \<longleftrightarrow>
     answers lib ev (spawn_app tmp) (request ''GET'' ''/health'' [(''traceparent'', ''00-'' @ known_id @ ''-b7ad6b7169203331-01'')]) (\<lambda>r.
       case (get_header ''traceparent'' (resp_headers r), get_header ''x-trace-id'' (resp_headers r)) of
         (Some tp, Some x_trace) \<Rightarrow> x_trace = known_id \<and> split_on (CHR ''-'') tp ! 1 = known_id
       | _ \<Rightarrow> False)"

definition every_response_carries_security_headers :: "web_lib \<Rightarrow> web_events \<Rightarrow> path \<Rightarrow> bool" where
  "every_response_carries_security_headers lib ev tmp \<longleftrightarrow>
     list_all (\<lambda>p. answers lib ev (spawn_app tmp) (request ''GET'' p []) (\<lambda>r.
         list_all (\<lambda>h. get_header h (resp_headers r) \<noteq> None)
           [''content-security-policy'', ''strict-transport-security'', ''x-frame-options'', ''x-content-type-options'', ''referrer-policy''] \<and>
         get_header ''x-frame-options'' (resp_headers r) = Some ''DENY'' \<and>
         get_header ''x-content-type-options'' (resp_headers r) = Some ''nosniff'' \<and>
         get_header ''referrer-policy'' (resp_headers r) = Some ''no-referrer''))
       [''/health'', ''/'', ''/jobs'', ''/actuator/info'']"

section \<open>Router: views\<close>

definition health_endpoint_returns_ok :: "web_lib \<Rightarrow> web_events \<Rightarrow> path \<Rightarrow> bool" where
  "health_endpoint_returns_ok lib ev tmp \<longleftrightarrow>
     answers lib ev (spawn_app tmp) (request ''GET'' ''/health'' []) (\<lambda>r. body_field ''status'' r = Some (JStr ''ok''))"

definition healthz_alias_returns_ok_unauthenticated :: "web_lib \<Rightarrow> web_events \<Rightarrow> path \<Rightarrow> bool" where
  "healthz_alias_returns_ok_unauthenticated lib ev tmp \<longleftrightarrow>
     answers lib ev (spawn_app tmp) (request ''GET'' ''/healthz'' []) (\<lambda>r. status_is 200 r \<and> body_field ''status'' r = Some (JStr ''ok''))"

definition actuator_health_alias_returns_ok_unauthenticated :: "web_lib \<Rightarrow> web_events \<Rightarrow> path \<Rightarrow> bool" where
  "actuator_health_alias_returns_ok_unauthenticated lib ev tmp \<longleftrightarrow>
     answers lib ev (spawn_app tmp) (request ''GET'' ''/actuator/health'' []) (\<lambda>r. status_is 200 r \<and> body_field ''status'' r = Some (JStr ''ok''))"

definition actuator_health_alias_matches_health :: "web_lib \<Rightarrow> web_events \<Rightarrow> web_events \<Rightarrow> path \<Rightarrow> bool" where
  "actuator_health_alias_matches_health lib ev ev' tmp \<longleftrightarrow>
     answers lib ev (spawn_app tmp) (request ''GET'' ''/health'' []) (\<lambda>a.
     answers lib ev' (spawn_app tmp) (request ''GET'' ''/actuator/health'' []) (\<lambda>b.
       resp_body a = resp_body b \<and> body_field ''status'' a = Some (JStr ''ok'')))"

definition actuator_info_returns_name_and_version :: "web_lib \<Rightarrow> web_events \<Rightarrow> path \<Rightarrow> bool" where
  "actuator_info_returns_name_and_version lib ev tmp \<longleftrightarrow>
     answers lib ev (spawn_app tmp) (request ''GET'' ''/actuator/info'' []) (\<lambda>r.
       body_field ''name'' r = Some (JStr ''cronmanager'') \<and>
       (case body_field ''version'' r of Some (JStr v) \<Rightarrow> prefix ''0.'' v | _ \<Rightarrow> False))"

definition index_returns_jvm_sentinel_string :: "web_lib \<Rightarrow> web_events \<Rightarrow> path \<Rightarrow> bool" where
  "index_returns_jvm_sentinel_string lib ev tmp \<longleftrightarrow>
     answers lib ev (spawn_app tmp) (request ''GET'' ''/'' []) (\<lambda>r. resp_body r = Text ''CronManager started'')"

text \<open>The tests register jobs with the scheduler behind the application.\<close>

definition registering :: "JobSpec list \<Rightarrow> AppState \<Rightarrow> AppState" where
  "registering specs st = st\<lparr>scheduler := register_all specs (scheduler st)\<rparr>"

definition named_http_job :: "string \<Rightarrow> JobSpec" where
  "named_http_job n = \<lparr>key = job_key ''test'' n, trigger = Manual, window = \<lparr>start_ms = None, end_ms = None\<rparr>,
     retry = default_retry_policy, kind = Http ''GET'' ''http://127.0.0.1:1/nowhere'' []\<rparr>"

definition sleep_job :: "string \<Rightarrow> string \<Rightarrow> JobSpec" where
  "sleep_job n secs = (named_http_job n)\<lparr>kind := Exec [''/bin/sleep'', secs] []\<rparr>"

definition jobs_endpoint_lists_registered_jobs :: "web_lib \<Rightarrow> web_events \<Rightarrow> path \<Rightarrow> bool" where
  "jobs_endpoint_lists_registered_jobs lib ev tmp \<longleftrightarrow>
     answers lib ev (registering [named_http_job ''first''] (spawn_app tmp)) (request ''GET'' ''/jobs'' []) (\<lambda>r.
       case body_field ''test'' r of
         Some (JArr [JObj fs]) \<Rightarrow> map_of fs ''name'' = Some (JStr ''first'') \<and> map_of fs ''schedule'' = Some (JStr [])
       | _ \<Rightarrow> False)"

definition jobs_by_group_filters :: "web_lib \<Rightarrow> web_events \<Rightarrow> path \<Rightarrow> bool" where
  "jobs_by_group_filters lib ev tmp \<longleftrightarrow>
     answers lib ev (registering [named_http_job ''a'', (named_http_job ''b'')\<lparr>key := job_key ''other'' ''b''\<rparr>] (spawn_app tmp))
       (request ''GET'' ''/jobs/test'' []) (\<lambda>r. body_field ''test'' r \<noteq> None \<and> body_field ''other'' r = None)"

definition running_endpoint_returns_empty_when_nothing_running :: "web_lib \<Rightarrow> web_events \<Rightarrow> path \<Rightarrow> bool" where
  "running_endpoint_returns_empty_when_nothing_running lib ev tmp \<longleftrightarrow>
     answers lib ev (spawn_app tmp) (request ''GET'' ''/running'' []) (\<lambda>r. resp_body r = Json (JObj []))"

definition trailing_slash_jobs_route_matches_no_slash :: "web_lib \<Rightarrow> web_events \<Rightarrow> web_events \<Rightarrow> path \<Rightarrow> bool" where
  "trailing_slash_jobs_route_matches_no_slash lib ev ev' tmp \<longleftrightarrow>
     (let st = registering [named_http_job ''ts''] (spawn_app tmp)
      in answers lib ev st (request ''GET'' ''/jobs'' []) (\<lambda>a.
         answers lib ev' st (request ''GET'' ''/jobs/'' []) (\<lambda>b. resp_body a = resp_body b)))"

definition trailing_slash_running_route_matches_no_slash :: "web_lib \<Rightarrow> web_events \<Rightarrow> web_events \<Rightarrow> path \<Rightarrow> bool" where
  "trailing_slash_running_route_matches_no_slash lib ev ev' tmp \<longleftrightarrow>
     answers lib ev (spawn_app tmp) (request ''GET'' ''/running'' []) (\<lambda>a.
     answers lib ev' (spawn_app tmp) (request ''GET'' ''/running/'' []) (\<lambda>b. resp_body a = resp_body b))"

lemmas view_defs = health_endpoint_returns_ok_def healthz_alias_returns_ok_unauthenticated_def
  actuator_health_alias_returns_ok_unauthenticated_def actuator_health_alias_matches_health_def
  actuator_info_returns_name_and_version_def index_returns_jvm_sentinel_string_def
  running_endpoint_returns_empty_when_nothing_running_def trailing_slash_jobs_route_matches_no_slash_def
  trailing_slash_running_route_matches_no_slash_def

lemma inner_body:
  assumes "framework lib"
  shows "resp_body (inner_layers lib ev st req (result_response (Ok j))) = Json j"
    "resp_status r \<noteq> 413 \<Longrightarrow> resp_body (inner_layers lib ev st req r) = resp_body r"
proof -
  show "resp_body (inner_layers lib ev st req (result_response (Ok j))) = Json j"
    by (simp add: result_response_def inner_json [OF assms])
  show "resp_status r \<noteq> 413 \<Longrightarrow> resp_body (inner_layers lib ev st req r) = resp_body r"
    by (simp add: inner_layers_def access_log_middleware_def traceparent_middleware_def security_headers_middleware_def
        structured_error_body_middleware_def Let_def)
qed

lemma registering_fields [simp]: "cfg (registering js st) = cfg st" "admin_token (registering js st) = admin_token st"
  by (simp_all add: registering_def)

lemma view_tests:
  assumes "framework lib" and "\<not> ev_deadline ev" and "\<not> ev_deadline ev'"
  shows "health_endpoint_returns_ok lib ev tmp" "healthz_alias_returns_ok_unauthenticated lib ev tmp"
    "actuator_health_alias_returns_ok_unauthenticated lib ev tmp" "actuator_health_alias_matches_health lib ev ev' tmp"
    "actuator_info_returns_name_and_version lib ev tmp" "index_returns_jvm_sentinel_string lib ev tmp"
    "running_endpoint_returns_empty_when_nothing_running lib ev tmp"
    "trailing_slash_jobs_route_matches_no_slash lib ev ev' tmp" "trailing_slash_running_route_matches_no_slash lib ev ev' tmp"
  by (simp_all add: view_defs answers_routed [OF assms(1,2)] answers_routed [OF assms(1,3)] inner_field [OF assms(1)] inner_body [OF assms(1)]
      routed_def gated_def run_handler_def view_def status_is_def describe_running_def scheduler_new_def sort_groups_def groups_json_def)

lemmas layer_eval = inner_layers_def access_log_middleware_def traceparent_middleware_def security_headers_middleware_def
  structured_error_body_middleware_def security_header_values_def get_insert get_or_insert Let_def

text \<open>The random identifiers of the layers have 32 hexadecimal digits.\<close>

definition uuid_laws :: "web_events \<Rightarrow> bool" where
  "uuid_laws ev \<longleftrightarrow> list_all (\<lambda>u. length u = 32 \<and> list_all is_ascii_hexdigit u) [ev_uuid1 ev, ev_uuid2 ev]"

lemma hex_plain: "list_all is_ascii_hexdigit u \<Longrightarrow> list_all (\<lambda>c. 0x20 \<le> byte c \<and> byte c < 0x7F) u \<and> CHR ''-'' \<notin> set u"
  by (auto simp: list_all_iff is_ascii_hexdigit_def is_ascii_digit_def)

lemma traced:
  assumes "framework lib" and "list_all is_ascii_hexdigit t" "list_all is_ascii_hexdigit u"
  shows "value_from_str (w_headers lib) t" "value_from_str (w_headers lib) (traceparent_value t u)"
    "split_on (CHR ''-'') (traceparent_value t u) = [''00'', t, u, ''01'']"
proof -
  have ok: "value_from_str (w_headers lib) v" if "list_all (\<lambda>c. 0x20 \<le> byte c \<and> byte c < 0x7F) v" for v
    using assms(1) that unfolding framework_def by blast
  show "value_from_str (w_headers lib) t" "value_from_str (w_headers lib) (traceparent_value t u)"
    using hex_plain [OF assms(2)] hex_plain [OF assms(3)] by (auto intro!: ok simp: traceparent_value_def)
  show "split_on (CHR ''-'') (traceparent_value t u) = [''00'', t, u, ''01'']"
    using hex_plain [OF assms(2)] hex_plain [OF assms(3)] split_on_Cons [of "CHR ''-''" t] split_on_Cons [of "CHR ''-''" u]
    by (simp add: traceparent_value_def)
qed

lemma trace_headers:
  assumes "framework lib" and "get_header ''traceparent'' (resp_headers r) = None" "get_header ''x-trace-id'' (resp_headers r) = None"
    and "resp_status r \<noteq> 413" and "t = extract_or_generate_trace_id (w_headers lib) (ev_uuid1 ev) req"
    and "list_all is_ascii_hexdigit t" and "uuid_laws ev"
  shows "get_header ''traceparent'' (resp_headers (inner_layers lib ev st req r)) = Some (traceparent_value t (take 16 (ev_uuid2 ev)))"
    "get_header ''x-trace-id'' (resp_headers (inner_layers lib ev st req r)) = Some t"
proof -
  have "list_all is_ascii_hexdigit (take 16 (ev_uuid2 ev))" using assms(7) by (simp add: uuid_laws_def list_all_take)
  from traced [OF assms(1,6) this] show
    "get_header ''traceparent'' (resp_headers (inner_layers lib ev st req r)) = Some (traceparent_value t (take 16 (ev_uuid2 ev)))"
    "get_header ''x-trace-id'' (resp_headers (inner_layers lib ev st req r)) = Some t"
    using assms(2-5) by (simp_all add: layer_eval generate_span_id_def)
qed

lemma json_headers: "get_header n (resp_headers (result_response (Ok j))) = (if n = ''content-type'' then Some ''application/json'' else None)"
  by (simp add: result_response_def json_response_def get_header_def)

definition traced_request :: Request where
  "traced_request = request ''GET'' ''/health'' [(''traceparent'', ''00-'' @ known_id @ ''-b7ad6b7169203331-01'')]"

lemma traced_request_fields [simp]: "uri_path traced_request = ''/health''" "request_method traced_request = ''GET''"
  "get_header ''content-length'' (headers traced_request) = None"
  by (simp_all add: traced_request_def get_header_def)

lemma trace_header_tests:
  assumes "framework lib" and "\<not> ev_deadline ev" and "uuid_laws ev"
  shows "every_response_carries_traceparent_headers lib ev tmp" "traceparent_inherits_inbound_trace_id lib ev tmp"
proof -
  have hex: "list_all is_ascii_hexdigit (ev_uuid1 ev)" "length (ev_uuid1 ev) = 32" "list_all is_ascii_hexdigit (take 16 (ev_uuid2 ev))"
    "length (take 16 (ev_uuid2 ev)) = 16"
    using assms(3) by (simp_all add: uuid_laws_def list_all_take)
  have "extract_or_generate_trace_id (w_headers lib) (ev_uuid1 ev) (request ''GET'' ''/health'' []) = ev_uuid1 ev"
    by (simp add: extract_or_generate_trace_id_def inbound_trace_id_def get_header_def)
  note fresh = trace_headers [OF assms(1) _ _ _ this [symmetric] hex(1) assms(3)]
  show "every_response_carries_traceparent_headers lib ev tmp"
    unfolding every_response_carries_traceparent_headers_def
    using hex by (simp add: answers_routed [OF assms(1,2)] routed_def gated_def run_handler_def fresh json_headers
        traced(3) [OF assms(1) hex(1,3)])
  have "value_to_str (w_headers lib) v = Some v" if "list_all (\<lambda>c. 0x20 \<le> byte c \<and> byte c < 0x7F) v" for v
    using assms(1) that unfolding framework_def by blast
  from value_texts(1) [OF this] have "extract_or_generate_trace_id (w_headers lib) (ev_uuid1 ev) traced_request = known_id"
    using known_id_parts
    by (simp add: extract_or_generate_trace_id_def inbound_trace_id_def get_header_def traced_request_def)
  note kept = trace_headers [OF assms(1) _ _ _ this [symmetric] known_id_parts(5) assms(3)]
  show "traceparent_inherits_inbound_trace_id lib ev tmp"
    unfolding traceparent_inherits_inbound_trace_id_def traced_request_def [symmetric]
    by (simp add: answers_routed [OF assms(1,2)] routed_def gated_def run_handler_def kept json_headers
        traced(3) [OF assms(1) known_id_parts(5) hex(3)])
qed

lemma security_header_set:
  assumes "resp_status r \<noteq> 413" and "get_header n (resp_headers r) = None" and "map_of security_header_values n = Some v"
  shows "get_header n (resp_headers (inner_layers lib ev st req r)) = Some v"
proof -
  have "get_header n (resp_headers (security_headers_middleware r)) = Some v"
    using assms(2,3) by (simp add: security_headers_lookup)
  then show ?thesis
    using assms(1) tp.layer_keeps by (simp add: inner_layers_def access_log_middleware_def structured_error_body_middleware_def)
qed

lemma canonical_headers:
  assumes "resp_status r = 200" and "\<exists>v. resp_headers r = [(''content-type'', v)]"
  shows "get_header ''content-security-policy'' (resp_headers (inner_layers lib ev st req r)) \<noteq> None"
    "get_header ''strict-transport-security'' (resp_headers (inner_layers lib ev st req r)) \<noteq> None"
    "get_header ''x-frame-options'' (resp_headers (inner_layers lib ev st req r)) = Some ''DENY''"
    "get_header ''x-content-type-options'' (resp_headers (inner_layers lib ev st req r)) = Some ''nosniff''"
    "get_header ''referrer-policy'' (resp_headers (inner_layers lib ev st req r)) = Some ''no-referrer''"
proof -
  have set: "get_header n (resp_headers (inner_layers lib ev st req r)) = Some v"
    if "n \<noteq> ''content-type''" "map_of security_header_values n = Some v" for n v
    using assms that by (intro security_header_set) (auto simp: get_header_def)
  show "get_header ''content-security-policy'' (resp_headers (inner_layers lib ev st req r)) \<noteq> None"
    using set [of "''content-security-policy''"] by (simp add: security_header_values_def)
  show "get_header ''strict-transport-security'' (resp_headers (inner_layers lib ev st req r)) \<noteq> None"
    using set [of "''strict-transport-security''"] by (simp add: security_header_values_def)
  show "get_header ''x-frame-options'' (resp_headers (inner_layers lib ev st req r)) = Some ''DENY''"
    "get_header ''x-content-type-options'' (resp_headers (inner_layers lib ev st req r)) = Some ''nosniff''"
    "get_header ''referrer-policy'' (resp_headers (inner_layers lib ev st req r)) = Some ''no-referrer''"
    by (simp_all add: set security_header_values_def)
qed

lemma security_header_tests:
  assumes "framework lib" and "\<not> ev_deadline ev"
  shows "every_response_carries_security_headers lib ev tmp"
proof -
  have json: "resp_headers (result_response (Ok j)) = [(''content-type'', ''application/json'')]" for j
    by (simp add: result_response_def json_response_def)
  show ?thesis
    unfolding every_response_carries_security_headers_def
    by (simp add: answers_routed [OF assms] routed_def gated_def run_handler_def view_def canonical_headers json
        del: not_None_eq)
qed

section \<open>Router: execute and stop\<close>

definition execute_unknown_returns_404_with_structured_body :: "web_lib \<Rightarrow> web_events \<Rightarrow> path \<Rightarrow> bool" where
  "execute_unknown_returns_404_with_structured_body lib ev tmp \<longleftrightarrow>
     answers lib ev (spawn_app tmp) (request ''POST'' ''/execute/nosuch/nope'' [])
       (\<lambda>r. status_is 404 r \<and> body_field ''error'' r = Some (JStr ''job_not_found''))"

definition stop_unknown_returns_404 :: "web_lib \<Rightarrow> web_events \<Rightarrow> path \<Rightarrow> bool" where
  "stop_unknown_returns_404 lib ev tmp \<longleftrightarrow>
     answers lib ev (spawn_app tmp) (request ''POST'' ''/stop/nosuch/nope'' []) (status_is 404)"

definition stop_of_not_running_returns_200_with_stopped_false :: "web_lib \<Rightarrow> web_events \<Rightarrow> path \<Rightarrow> bool" where
  "stop_of_not_running_returns_200_with_stopped_false lib ev tmp \<longleftrightarrow>
     answers lib ev (registering [named_http_job ''idle''] (spawn_app tmp)) (request ''POST'' ''/stop/test/idle'' [])
       (\<lambda>r. status_is 200 r \<and> body_field ''stopped'' r = Some (JBool False))"

text \<open>The job is entered as running before \<open>/execute\<close> answers, so the sleeps of the tests change nothing.\<close>

definition execute_slow_shell_job_appears_in_running_snapshot :: "web_lib \<Rightarrow> web_events \<Rightarrow> web_events \<Rightarrow> path \<Rightarrow> bool" where
  "execute_slow_shell_job_appears_in_running_snapshot lib ev ev' tmp \<longleftrightarrow>
     then_answers lib ev (registering [sleep_job ''slow'' ''2''] (spawn_app tmp)) (request ''POST'' ''/execute/test/slow'' []) (status_is 200) (\<lambda>st.
     answers lib ev' st (request ''GET'' ''/running'' []) (\<lambda>r.
       case body_field ''test'' r of Some (JArr a) \<Rightarrow> a \<noteq> [] | _ \<Rightarrow> False))"

definition double_execute_returns_409 :: "web_lib \<Rightarrow> web_events \<Rightarrow> web_events \<Rightarrow> path \<Rightarrow> bool" where
  "double_execute_returns_409 lib ev ev' tmp \<longleftrightarrow>
     then_answers lib ev (registering [sleep_job ''slow2'' ''3''] (spawn_app tmp)) (request ''POST'' ''/execute/test/slow2'' []) (\<lambda>_. True) (\<lambda>st.
     answers lib ev' st (request ''POST'' ''/execute/test/slow2'' [])
       (\<lambda>r. status_is 409 r \<and> body_field ''error'' r = Some (JStr ''job_already_running'')))"

lemma registering_admin [simp]: "scheduler (registering js st) = register_all js (scheduler st)"
  by (simp add: registering_def)

lemmas job_eval = register_all_def register_def unregister_def spawn_and_insert_def scheduler_new_def named_http_job_def sleep_job_def
  job_key_def

lemma unknown_job_tests:
  assumes "framework lib" and "\<not> ev_deadline ev"
  shows "execute_unknown_returns_404_with_structured_body lib ev tmp" "stop_unknown_returns_404 lib ev tmp"
  by (simp_all add: execute_unknown_returns_404_with_structured_body_def stop_unknown_returns_404_def answers_routed [OF assms]
      inner_field [OF assms(1)] plain_parse [OF assms(1)] plain_text_def web_eval)

lemma idle_job_test:
  assumes "framework lib" and "\<not> ev_deadline ev"
  shows "stop_of_not_running_returns_200_with_stopped_false lib ev tmp"
proof -
  have "stop (job_key ''test'' ''idle'') (register_all [named_http_job ''idle''] scheduler_new) =
      Ok (False, register_all [named_http_job ''idle''] scheduler_new)"
    by (simp add: stop_def job_eval)
  then show ?thesis
    by (simp add: stop_of_not_running_returns_200_with_stopped_false_def answers_routed [OF assms] inner_field [OF assms(1)]
        plain_parse [OF assms(1)] plain_text_def routed_def gated_def admin_gate_def run_handler_def with_path_def stop_job_def
        param_def status_is_def)
qed

text \<open>A first \<open>/execute\<close> of a registered sleep leaves a state in which the job runs.\<close>

lemma execute_starts:
  assumes "s = register_all [sleep_job n secs] scheduler_new"
  shows "\<exists>s'. trigger_now (job_key ''test'' n) [] s = Some (Ok s') \<and> (\<exists>i. running s' = [(job_key ''test'' n, i)]) \<and>
    jobs s' = jobs s \<and> map_of (jobs s) (job_key ''test'' n) \<noteq> None"
  using assms by (simp add: trigger_now_def begin_running_def job_eval Let_def)

lemma running_shown:
  assumes "running s = [(job_key ''test'' n, i)]"
  shows "\<exists>a. describe_running None s = [(''test'', [a])]"
  using assms by (simp add: describe_running_def push_group_def sort_groups_def in_group_def job_key_def)

text \<open>What the first request of the two tests leaves.\<close>

lemma executed:
  assumes "framework lib" and "\<not> ev_deadline ev" and "st = registering [sleep_job n secs] (spawn_app tmp)"
    and "path_of (''/execute/test/'' @ n) = Some (''/execute/:group/:job'', [''test'', n])" and "plain_text n"
  shows "\<exists>s' i. (\<forall>P k. then_answers lib ev st (request ''POST'' (''/execute/test/'' @ n) []) P k \<longleftrightarrow>
      P (inner_layers lib ev st (request ''POST'' (''/execute/test/'' @ n) [])
          (result_response (Ok (groups_json (describe_running (Some ''test'') s'))))) \<and> k (st\<lparr>scheduler := s'\<rparr>)) \<and>
    running s' = [(job_key ''test'' n, i)] \<and> map_of (jobs s') (job_key ''test'' n) \<noteq> None"
proof -
  obtain s' i where s': "trigger_now (job_key ''test'' n) [] (register_all [sleep_job n secs] scheduler_new) = Some (Ok s')"
    and "running s' = [(job_key ''test'' n, i)]" and "map_of (jobs s') (job_key ''test'' n) \<noteq> None"
    using execute_starts [OF refl, of n secs] by auto
  moreover have "plain_text ''test''" by (simp add: plain_text_def)
  moreover note path = assms(4) [simplified]
  ultimately show ?thesis
    using assms(5)
    by (intro exI [of _ s'] exI [of _ i])
      (simp add: then_routed [OF assms(1,2)] assms(3) path routed_def gated_def admin_gate_def run_handler_def with_path_def
        plain_parse [OF assms(1)] param_def execute_job_def bounded_query_def dangerous_override_def)
qed

lemma running_tests:
  assumes "framework lib" and "\<not> ev_deadline ev" and "\<not> ev_deadline ev'"
  shows "execute_slow_shell_job_appears_in_running_snapshot lib ev ev' tmp" "double_execute_returns_409 lib ev ev' tmp"
proof -
  let ?st = "registering [sleep_job ''slow'' ''2''] (spawn_app tmp)"
  have "path_of (''/execute/test/'' @ ''slow'') = Some (''/execute/:group/:job'', [''test'', ''slow''])" "plain_text ''slow''"
    by (simp_all add: plain_text_def)
  from executed [OF assms(1,2) refl this, where secs = "''2''" and tmp = tmp] obtain s' i where
    fst: "\<And>P k. then_answers lib ev ?st (request ''POST'' ''/execute/test/slow'' []) P k \<longleftrightarrow>
      P (inner_layers lib ev ?st (request ''POST'' ''/execute/test/slow'' [])
          (result_response (Ok (groups_json (describe_running (Some ''test'') s'))))) \<and> k (?st\<lparr>scheduler := s'\<rparr>)"
    and run: "running s' = [(job_key ''test'' ''slow'', i)]"
    by auto
  obtain a where "describe_running None s' = [(''test'', [a])]" using running_shown [OF run] by blast
  then show "execute_slow_shell_job_appears_in_running_snapshot lib ev ev' tmp"
    unfolding execute_slow_shell_job_appears_in_running_snapshot_def fst
    by (simp add: answers_routed [OF assms(1,3)] inner_field [OF assms(1)] groups_json_def routed_def gated_def run_handler_def view_def
        status_is_def)
next
  let ?st = "registering [sleep_job ''slow2'' ''3''] (spawn_app tmp)"
  have "path_of (''/execute/test/'' @ ''slow2'') = Some (''/execute/:group/:job'', [''test'', ''slow2''])" "plain_text ''slow2''"
    by (simp_all add: plain_text_def)
  from executed [OF assms(1,2) refl this, where secs = "''3''" and tmp = tmp] obtain s' i where
    fst: "\<And>P k. then_answers lib ev ?st (request ''POST'' ''/execute/test/slow2'' []) P k \<longleftrightarrow>
      P (inner_layers lib ev ?st (request ''POST'' ''/execute/test/slow2'' [])
          (result_response (Ok (groups_json (describe_running (Some ''test'') s'))))) \<and> k (?st\<lparr>scheduler := s'\<rparr>)"
    and run: "running s' = [(job_key ''test'' ''slow2'', i)]" "map_of (jobs s') (job_key ''test'' ''slow2'') \<noteq> None"
    by auto
  from run have "trigger_now (job_key ''test'' ''slow2'') [] s' = Some (Err (JobAlreadyRunning ''test'' ''slow2''))"
    by (auto simp: trigger_now_def begin_running_def job_key_def)
  then show "double_execute_returns_409 lib ev ev' tmp"
    unfolding double_execute_returns_409_def fst
    by (simp add: answers_routed [OF assms(1,3)] inner_field [OF assms(1)] routed_def gated_def admin_gate_def run_handler_def with_path_def
        plain_parse [OF assms(1)] plain_text_def param_def execute_job_def bounded_query_def dangerous_override_def into_response_def status_is_def)
qed

section \<open>Router: registered jobs\<close>

lemma groups_json_lookup: "body_field n (inner_layers lib ev st req (result_response (Ok (groups_json gs)))) =
    map_option (\<lambda>ds. JArr (map descriptor_json ds)) (map_of gs n)" if "framework lib"
  by (simp add: groups_json_def inner_field [OF that] map_of_map)

lemma jobs_view_tests:
  assumes "framework lib" and "\<not> ev_deadline ev"
  shows "jobs_endpoint_lists_registered_jobs lib ev tmp" "jobs_by_group_filters lib ev tmp"
  by (simp_all add: jobs_endpoint_lists_registered_jobs_def jobs_by_group_filters_def answers_routed [OF assms] routed_def gated_def
      run_handler_def view_def with_path_def plain_parse [OF assms(1)] plain_text_def param_def group_filter_def
      groups_json_lookup [OF assms(1)] describe_lookup group_jobs_def job_descriptor_def descriptor_json_def trigger_schedule_def job_eval)

section \<open>Router: refusals of the framework\<close>

definition wrong_method_on_health_returns_405_with_allow_header :: "web_lib \<Rightarrow> web_events \<Rightarrow> path \<Rightarrow> bool" where
  "wrong_method_on_health_returns_405_with_allow_header lib ev tmp \<longleftrightarrow>
     answers lib ev (spawn_app tmp) (request ''POST'' ''/health'' []) (\<lambda>r. status_is 405 r \<and>
       list_ex (\<lambda>m. trim m = ''GET'') (split_on (CHR '','') (unwrap_or [] (get_header ''allow'' (resp_headers r)))))"

definition wrong_method_on_execute_returns_405 :: "web_lib \<Rightarrow> web_events \<Rightarrow> path \<Rightarrow> bool" where
  "wrong_method_on_execute_returns_405 lib ev tmp \<longleftrightarrow>
     answers lib ev (spawn_app tmp) (request ''GET'' ''/execute/g/j'' []) (\<lambda>r. status_is 405 r \<and>
       list_ex (\<lambda>m. trim m = ''POST'') (split_on (CHR '','') (unwrap_or [] (get_header ''allow'' (resp_headers r)))))"

definition unknown_path_still_returns_404 :: "web_lib \<Rightarrow> web_events \<Rightarrow> path \<Rightarrow> bool" where
  "unknown_path_still_returns_404 lib ev tmp \<longleftrightarrow>
     answers lib ev (spawn_app tmp) (request ''GET'' ''/does-not-exist'' []) (status_is 404)"

text \<open>The client announces the length of its body.\<close>

definition posting :: "string \<Rightarrow> string \<Rightarrow> Request" where
  "posting p payload = request ''POST'' p [(''content-length'', show_nat (length payload))]"

definition request_body_exceeding_limit_returns_413 :: "web_lib \<Rightarrow> web_events \<Rightarrow> path \<Rightarrow> bool" where
  "request_body_exceeding_limit_returns_413 lib ev tmp \<longleftrightarrow>
     (let c = default_cfg tmp; c = c\<lparr>limits := (limits c)\<lparr>max_request_bytes := 128\<rparr>\<rparr>
      in answers lib ev (app_state_new c scheduler_new) (posting ''/execute/nosuch/nope'' (replicate 1024 (CHR ''x''))) (\<lambda>r.
        status_is 413 r \<and>
        prefix ''application/json'' (unwrap_or [] (get_header ''content-type'' (resp_headers r))) \<and>
        body_field ''error'' r = Some (JStr ''request_too_large'') \<and> body_field ''limit'' r = Some (JNum 128) \<and>
        (case body_field ''message'' r of Some (JStr m) \<Rightarrow> str_contains ''128'' m | _ \<Rightarrow> False)))"

lemma kept_header:
  assumes "resp_status r \<noteq> 413" and "get_header n (resp_headers r) = Some v"
  shows "get_header n (resp_headers (inner_layers lib ev st req r)) = Some v"
  using assms tp.layer_keeps sec.layer_keeps
  by (simp add: inner_layers_def access_log_middleware_def structured_error_body_middleware_def)

lemma wrong_method_tests:
  assumes "framework lib" and "\<not> ev_deadline ev"
  shows "wrong_method_on_health_returns_405_with_allow_header lib ev tmp" "wrong_method_on_execute_returns_405 lib ev tmp"
proof -
  have allow: "resp_status (method_not_allowed_response lib m) = 405"
    "get_header ''allow'' (resp_headers (method_not_allowed_response lib m)) = Some (if m = ''GET'' then ''GET,HEAD'' else m)" for m
    using assms(1) unfolding framework_def by blast+
  have parts: "list_ex (\<lambda>m. trim m = ''GET'') (split_on (CHR '','') ''GET,HEAD'')" "list_ex (\<lambda>m. trim m = ''POST'') (split_on (CHR '','') ''POST'')"
    by code_simp+
  show "wrong_method_on_health_returns_405_with_allow_header lib ev tmp" "wrong_method_on_execute_returns_405 lib ev tmp"
    using parts
    by (simp_all add: wrong_method_on_health_returns_405_with_allow_header_def wrong_method_on_execute_returns_405_def
        answers_routed [OF assms] routed_def gated_def admin_gate_def kept_header allow status_is_def)
qed

lemma unknown_path_test:
  assumes "framework lib" and "\<not> ev_deadline ev"
  shows "unknown_path_still_returns_404 lib ev tmp"
proof -
  have "match_path lib (map r_pattern (routes c)) ''/does-not-exist'' = None" "resp_status (not_found_response lib) = 404"
    "get_header ''content-length'' (headers req) = None \<Longrightarrow> body_limit_layer lib n req = None" for c n req
    using assms(1) unfolding framework_def by blast+
  then show ?thesis
    using assms(2)
    by (simp add: unknown_path_still_returns_404_def answers_def serve_def build_cors_def deadline_layer_def route_request_def resolve_def
        gated_def admin_gate_def status_is_def)
qed

lemma inner_structured:
  assumes "resp_status r = 413" and "\<not> is_json_response (w_headers lib) r"
  shows "get_header ''content-type'' (resp_headers (inner_layers lib ev st req r)) = Some ''application/json''"
    "resp_body (inner_layers lib ev st req r) =
       resp_body (structured_error_body_middleware (w_headers lib) (max_request_bytes (limits (cfg st))) r)"
proof -
  let ?r = "structured_error_body_middleware (w_headers lib) (max_request_bytes (limits (cfg st))) r"
  have "get_header ''content-type'' (resp_headers ?r) = Some ''application/json''"
    using assms by (simp add: structured_error_body_middleware_def get_remove get_insert)
  then show "get_header ''content-type'' (resp_headers (inner_layers lib ev st req r)) = Some ''application/json''"
    by (simp add: inner_layers_def access_log_middleware_def tp.layer_keeps sec.layer_keeps)
  show "resp_body (inner_layers lib ev st req r) = resp_body ?r"
    by (simp add: inner_layers_def access_log_middleware_def tp.layer_body sec.layer_body)
qed

lemma body_limit_test:
  assumes "framework lib" and "\<not> ev_deadline ev"
  shows "request_body_exceeding_limit_returns_413 lib ev tmp"
proof -
  let ?c = "(default_cfg tmp)\<lparr>limits := (limits (default_cfg tmp))\<lparr>max_request_bytes := 128\<rparr>\<rparr>"
  let ?req = "posting ''/execute/nosuch/nope'' (replicate 1024 (CHR ''x''))"
  have "get_header ''content-length'' (headers ?req) = Some (show_nat 1024)" by (simp add: posting_def get_header_def)
  moreover have "\<exists>r. body_limit_layer lib n req = Some r \<and> resp_status r = 413 \<and>
      get_header ''content-type'' (resp_headers r) = Some ''text/plain; charset=utf-8''"
    if "get_header ''content-length'' (headers req) = Some (show_nat m)" "n < m" for n m req
    using assms(1) that unfolding framework_def by blast
  moreover have "(128 :: nat) < 1024" by simp
  ultimately obtain r where r: "body_limit_layer lib 128 ?req = Some r" "resp_status r = 413"
    "get_header ''content-type'' (resp_headers r) = Some ''text/plain; charset=utf-8''"
    by blast
  have "value_to_str (w_headers lib) ''text/plain; charset=utf-8'' = Some ''text/plain; charset=utf-8''"
    using assms(1) unfolding framework_def by simp
  then have plain: "\<not> is_json_response (w_headers lib) r" using r(3) by (simp add: is_json_response_def)
  have served: "serve lib ev (app_state_new ?c scheduler_new) ?req =
      Some (app_state_new ?c scheduler_new, inner_layers lib ev (app_state_new ?c scheduler_new) ?req r)"
    using assms(2) r(1) by (simp add: serve_def build_cors_def deadline_layer_def route_request_def)
  have message: "str_contains ''128'' (''request body exceeds '' @ show_nat 128 @ '' bytes'')" by code_simp
  show ?thesis
    unfolding request_body_exceeding_limit_returns_413_def Let_def answers_def served option.case prod.case
    using plain r(2) message
    by (simp add: inner_structured status_is_def body_field_def structured_error_body_middleware_def)
qed

end
