(* ===== verification/Spec2Isabelle.thy ===== *)
theory Spec2Isabelle
  imports System Doctor_Tests Loader_Tests Http_Tests Router_Service_Tests
begin

text \<open>
  Verification of CronManager, a Rust service that runs scheduled HTTP and shell jobs.

  \<^bold>\<open>The program.\<close> At boot (\<open>src/main.rs\<close>) the process reads its configuration
  (\<open>src/config.rs\<close>), passes the safety gates (\<open>src/env_safety.rs\<close> and the refusal to start
  without a token), reads the job definitions of the DSL directory (\<open>src/dsl/loader.rs\<close>),
  registers them with the scheduler (\<open>src/scheduler.rs\<close>) and serves HTTP (\<open>src/router.rs\<close>).
  The scheduler keeps one task per registered job; a task that fires, and a request to
  \<open>/execute\<close>, start a dispatch (\<open>src/executor/mod.rs\<close>), which runs the job with retries on the
  HTTP executor (\<open>src/executor/http.rs\<close>) or the shell executor (\<open>src/executor/shell.rs\<close>) and
  writes one history row per attempt (\<open>src/history\<close>). The audit (\<open>src/doctor.rs\<close>) replays the
  checks of the boot offline.

  \<^bold>\<open>Theories.\<close> One theory per part, in the order of their imports.

  \<^item> \<open>Cron_Prelude\<close>: Rust's \<open>Result\<close> as a sum with its early returns, \<open>u32\<close> and \<open>u64\<close> as words,
    \<open>BTreeMap\<close> as a sorted association list (locale \<open>ordered_map\<close>, interpreted as \<open>bt\<close>), decimal
    formatting, collections of simplification rules.
  \<^item> \<open>Rust_Str\<close>, \<open>Rust_Net\<close>, \<open>Rust_Path\<close>: the parts of the standard library the sources use. A
    \<open>str\<close> is the list of its UTF-8 bytes, \<open>str_ok\<close> says it is well formed; a slice off a
    character boundary is a panic (\<open>None\<close>). Addresses are parsed and classified as \<open>std::net\<close>
    does; a path is the list of its components.
  \<^item> \<open>Errors\<close> (\<open>src/error.rs\<close>): the error type, its HTTP status, code, text and JSON body.
  \<^item> \<open>Dsl\<close> (\<open>src/dsl/mod.rs\<close>): triggers, windows, retry policy, job kinds, specifications.
  \<^item> \<open>Security\<close> (\<open>src/security.rs\<close>): dangerous variable names, address classes, sanitisers (locale
    \<open>text_sanitizer\<close>), the head-and-tail cap, allowlist entries. Shown: the address class is
    membership in a list of IPv4 and IPv6 blocks, the sanitisers leave no control character and keep their
    bound, the cap never cuts a character and never exceeds its limit.
  \<^item> \<open>Config\<close> (\<open>src/config.rs\<close>): records and defaults, search of the file, splicing of the database
    password, tokens, bind address, boot diagnostics. Shown: percent-encoding is undone by
    decoding and leaves no URL delimiter, splicing replaces just the password.
  \<^item> \<open>Env_Safety\<close> (\<open>src/env_safety.rs\<close>): environment classes, dev fixtures, credential and posture
    gates (locale \<open>safety_gate\<close>, interpretations \<open>cg\<close> and \<open>pg\<close>), what they log in \<open>Dev\<close>. Shown:
    when the gates pass.
  \<^item> \<open>Loader\<close> (\<open>src/dsl/loader.rs\<close>): the walk over the directory, the size cap, the checks of
    every field. Shown: whatever is loaded satisfies \<open>spec_ok\<close>, the walk is the
    concatenation of the files in order, no dev fixture and no oversized file is read.
  \<^item> \<open>History\<close> (\<open>src/history/mod.rs\<close>, \<open>src/history/postgres.rs\<close>): rows and both recorders (locale
    \<open>history_recorder\<close>).
  \<^item> \<open>Exec_Common\<close>: \<open>tokio::select!\<close> as a race of branches, and the cap on captured text (locale
    \<open>text_cap\<close>), both used by the executors.
  \<^item> \<open>Http_Executor\<close>, \<open>Shell_Executor\<close>: one attempt each. Shown: no request leaves towards a name
    that resolves to a refused address, the bodies and outputs are capped, the child sees the
    allowlisted variables only, when the timeout fires and when a run returns.
  \<^item> \<open>Executor\<close> (\<open>src/executor/mod.rs\<close>): the retry loop. Shown: the number of attempts, which row each
    leaves, the outcome, the wrap of \<open>count + 1\<close>, and what \<open>/stop\<close> does to an attempt in flight.
  \<^item> \<open>Scheduler\<close> (\<open>src/scheduler.rs\<close>): the state as a record, the handlers as functions, the tasks as
    an inductive step relation at the granularity of the locks. The running map is a guard (locale
    \<open>run_guard\<close>). Shown by rule induction: one active task per job in every reachable state;
    further \<open>trigger_now\<close>, \<open>stop\<close>, \<open>reload_from\<close>, the loops a reload leaves.
  \<^item> \<open>Progress\<close>: what a task does between the steps of all the others. Shown: it takes at most six
    steps of its own before it waits, ends or hangs; a run whose dispatch returns completes; one whose
    dispatch does not return blocks its job for good.
  \<^item> \<open>Middleware\<close> (\<open>src/security_headers.rs\<close>, \<open>src/traceparent.rs\<close>, \<open>src/access_log.rs\<close>): the
    layers around a handler (locales \<open>header_layer\<close> and \<open>header_layer_pair\<close>). Shown: the trace id of a
    response comes back when its header is sent again.
  \<^item> \<open>Router\<close> (\<open>src/router.rs\<close>): reload throttle (locale \<open>throttle\<close>, interpretation \<open>gate\<close>), admin
    gate, handlers, route table, layers. Shown: a request that changes the state was authorised,
    the bearer headers and group paths the gate accepts, as grammars (\<open>bearer_text\<close>, \<open>group_path\<close>),
    the outcome of every branch of \<open>/execute\<close>, the throttle's bound, what a reload under a group token
    does, which responses carry the security headers.
  \<^item> \<open>Locks\<close>: every method of the scheduler and the throttle as the sequence of mutexes it takes,
    run by a pool of threads (locale \<open>lock_order\<close>, interpretations \<open>locks\<close> and \<open>loops\<close>). Shown: no
    deadlock in any interleaving, and every call finishes.
  \<^item> \<open>Authority\<close>: what the bearer of a group's token can do. Shown: apart from reloads a request
    under such a token touches jobs of that group only.
  \<^item> \<open>Doctor\<close> (\<open>src/doctor.rs\<close>): severities as a linear order, all checks, the exit code.
  \<^item> \<open>Boot\<close> (\<open>src/main.rs\<close>): the sequence up to the listener, with the diagnostics and warnings it
    logs (\<open>boot_log\<close>). Shown: a process that starts is safe, the audit fails exactly where a gate
    refuses, where audit and boot differ in outcome and in warnings, when the boot panics.
  \<^item> \<open>Signal\<close> (\<open>src/signal.rs\<close>): which signal ends the server.
  \<^item> \<open>System\<close>: the booted application under requests, task steps and time; every step is a step of
    the scheduler, so its invariants hold of the whole.
  \<^item> \<open>Security_Tests\<close>, \<open>Env_Safety_Tests\<close>, \<open>Gate_Tests\<close> (\<open>src/config.rs\<close> and \<open>src/router.rs\<close>),
    \<open>Loader_Tests\<close>, \<open>Http_Tests\<close>, \<open>Run_Tests\<close> (the shell executor, dispatch, history, scheduler, trace
    and access log) and \<open>Doctor_Tests\<close>: the unit tests of the sources, one definition per test
    function that states what the test asserts, and lemmas that the model passes them. They tie the
    definitions to the behaviour the code is tested for. A mock server, a script or a temporary directory
    of a test is the value of the model's parameter it stands for; what an outside parser answers to
    the input of a test is a premise.
  \<^item> \<open>Service_Tests\<close> (\<open>tests/security_hardening.rs\<close>) and \<open>Router_Service_Tests\<close>
    (\<open>tests/router_integration.rs\<close>): the integration tests of the served application, in the same way, over
    \<open>serve\<close>; what the web framework answers is the premise \<open>framework\<close>, which an executable framework meets.
  \<^item> This theory: the properties that span boot, loader, scheduler, router and executors.

  \<^bold>\<open>Parameters.\<close> Code outside the repository is an argument: the YAML, cron, URL and header parsers
  (\<open>dsl_lib\<close>, \<open>http_lib\<close>, \<open>header_lib\<close>), name resolution and the network (\<open>http_events\<close>), the operating
  system's answers to spawn, wait and read (the events of a shell run), the file system (a tree of
  answers), the process environment, the database, random identifiers, SHA-256, and the web
  framework's path matching, query decoding, body limit, timeout and CORS answers (the record the
  route functions take). What the proofs need of them is a premise of the theorem.

  \<^bold>\<open>Bounds and termination.\<close> There is no fuel. Loops over byte positions and attempts are \<open>function\<close>s
  with a measure; the others are structural. A pipe or a body is the finite list of the reads that
  happen; a pipe that stays open yields \<open>None\<close>, so does a run that waits for it, and the task of
  such a run is \<open>Hung\<close> from then on. Counters keep
  their width (\<open>u32\<close> retry counts, \<open>u64\<close> time stamps of the throttle, 1024 throttle entries as in the
  code).

  \<^bold>\<open>Not modelled.\<close> Log lines apart from the texts the sanitisers produce, the access line and
  the diagnostics and warnings of the boot up to the load of the jobs (so not the warnings of the loader, of the
  CORS set-up, of the signal handler and of a failed INSERT), tracing set-up, the server's accept loop, the module list of \<open>src/lib.rs\<close>, the SQL schema and prose. Of the
  unit tests: those of the derived deserialiser (\<open>serde\<close>), two smoke tests of functions that are
  total here, the two that read the derived \<open>Debug\<close> text of a history row and the one that raises a
  signal. Of the integration tests: those of the deserialiser, the shipped samples, mock servers and
  Postgres, and two of \<open>tests/router_integration.rs\<close> that time a socket. The durations of runs and
  requests are inputs. The environment does not change after the boot. Outside \<open>Locks\<close> a critical section
  is a single step. A whole dispatch is one step of its task: its rows are contiguous in the history of
  the model, while in the table the rows of concurrent runs may interleave; and a served request is one
  step of \<open>System\<close>.
\<close>

section \<open>Shared facts\<close>

text \<open>The executor bundle of a booted process follows the configuration.\<close>

lemma boot_bundle_policy:
  assumes "boot w = Some (Ok b)"
  shows "http_block_private (bundle_http (b_bundle b)) = block_private_networks (security (cfg (b_state b)))"
proof -
  obtain c src where "start_up w c = Ok b" using assms by (auto simp: boot_Ok)
  then show ?thesis
    by (auto simp: start_up_def bundle_new_def with_ssrf_policy_def with_allowed_private_hosts_def result_simps
        initial_state_fields)
qed

lemma http_spec_ok:
  assumes "spec_ok lib env policy sp" and "kind sp = Http m u hs" and "pol_block_private_networks policy"
  shows "\<exists>parsed h. url_parse lib u = Ok parsed \<and> scheme parsed \<in> {''http'', ''https''} \<and> url_host parsed = Some h \<and>
    (\<forall>ip. host_ip h = Some ip \<longrightarrow> \<not> is_private_or_local ip)"
  using assms by (auto simp: spec_ok_def url_ok_def)

lemma trigger_now_extras: "trigger_now k x s = Some (Ok s') \<Longrightarrow> t_extras (last (tasks s')) = x"
  by (auto simp: trigger_now_def split: option.splits sum.splits)

lemma truncated_length:
  "length (truncate_response_body s n) \<le> n + length (truncation_marker (length (sanitize_for_persistence s)))"
proof (cases "length (sanitize_for_persistence s) \<le> n")
  case True
  then show ?thesis by (simp add: truncate_response_body_def Let_def trans_le_add1)
next
  case False
  let ?clean = "sanitize_for_persistence s"
  let ?h = "char_boundary_floor ?clean (n div 2)" and ?t = "char_boundary_ceil ?clean (length ?clean - n div 2)"
  have "?h \<le> n div 2" "length ?clean - n div 2 \<le> ?t" "?t \<le> length ?clean"
    using truncate_cuts [of n ?clean] False by simp_all
  then have "?h + (length ?clean - ?t) \<le> n" by linarith
  moreover have "length (truncate_response_body s n) \<le>
      ?h + length (truncation_marker (length ?clean - (?h + (length ?clean - ?t)))) + (length ?clean - ?t)"
    using False by (simp add: truncate_response_body_def Let_def)
  moreover have "length (truncation_marker (length ?clean - (?h + (length ?clean - ?t)))) \<le>
      length (truncation_marker (length ?clean))"
    by (rule truncation_marker_length_mono) simp
  ultimately show ?thesis by linarith
qed

section \<open>The whole system\<close>

text \<open>
  C1. Every state the system can reach after a boot, through any sequence of requests, task
  steps and clock ticks, is safe: configuration and tokens are those of the boot; no job has
  two runs at once and no task has panicked; and every specification the scheduler holds,
  registered or being executed, satisfies the load policy of the configuration, however
  often the files were reloaded.
\<close>

theorem system_safe:
  assumes "sys_reachable web lib w st" and "boot w = Some (Ok b)" and "bw_lib w = w_dsl web"
  shows "same_setup (b_state b) st \<and> Panicked \<notin> t_phase ` set (tasks (scheduler st)) \<and>
    (\<forall>i j. i < length (tasks (scheduler st)) \<and> j < length (tasks (scheduler st)) \<and>
       active (tasks (scheduler st) ! i) \<and> active (tasks (scheduler st) ! j) \<and>
       key_of (tasks (scheduler st) ! i) = key_of (tasks (scheduler st) ! j) \<longrightarrow> i = j) \<and>
    specs_in_use (scheduler st) \<subseteq>
      {sp. spec_ok (w_dsl web) (bw_env w) (boot_policy (cfg (b_state b)) (bw_env w)) sp}"
proof -
  have inv: "sys_inv lib (w_dsl web) (bw_env w) (b_bundle b) (b_state b) st"
    by (rule sys_reachable_inv [OF assms])
  then have "sched_inv (scheduler st)" using reachable_inv by (auto simp: sys_inv_def)
  then have "guard_inv (running (scheduler st)) (tasks (scheduler st))" by (simp add: sched_inv_def)
  then show ?thesis
    using inv unfolding guard_inv_def sys_inv_def
    by (metis (no_types, lifting) image_iff in_set_conv_nth)
qed

theorem system_safe_witness:
  "\<exists>b. boot (ex_world ''production'' None) = Some (Ok b) \<and>
     specs_in_use (scheduler (b_state b)) \<subseteq>
       {sp. spec_ok ex_lib (ex_env ''production'') (boot_policy (cfg (b_state b)) (ex_env ''production'')) sp} \<and>
     map_of (jobs (scheduler (b_state b))) (key ex_spec) \<noteq> None"
proof -
  let ?w = "ex_world ''production'' None" and ?web = "ex_web_lib ''/''"
  obtain b where b: "boot ?w = Some (Ok b)" "map_of (jobs (scheduler (b_state b))) (key ex_spec) \<noteq> None"
    using ex_boot by blast
  have lib: "bw_lib ?w = w_dsl ?web" "w_dsl ?web = ex_lib" "bw_env ?w = ex_env ''production''"
    by (simp_all add: ex_world_def ex_web_lib_def)
  show ?thesis
    using system_safe [OF sys_reachable.booted [OF b(1)] b(1) lib(1)] b by (simp only: lib) blast
qed

text \<open>
  C3. Server-side request forgery: while private networks are blocked, every HTTP request a
  task of the running system sends goes to an http or https URL that loaded under the
  policy, whose host is not a private address literal; and if the host is a name, it was
  resolved for this attempt to addresses none of which is link-local, metadata or otherwise
  always blocked, nor private unless the operator listed the host.
\<close>

theorem system_requests_screened:
  assumes "sys_reachable web lib w st" and "boot w = Some (Ok b)" and "bw_lib w = w_dsl web" and "dsl lib = w_dsl web"
    and "block_private_networks (security (cfg st))" and "t \<in> set (tasks (scheduler st))"
    and "kind (t_spec t) = Http m u hs"
    and "http_execute lib (bundle_http (b_bundle b)) ev m u hs = (Some req, res)"
  shows "req_url req = u \<and> (\<exists>parsed h. url_parse (w_dsl web) u = Ok parsed \<and> scheme parsed \<in> {''http'', ''https''} \<and>
    url_host parsed = Some h \<and> (\<forall>ip. host_ip h = Some ip \<longrightarrow> \<not> is_private_or_local ip) \<and>
    (\<forall>host. host_str parsed = Some host \<and> parse_ip host = None \<longrightarrow>
       (\<exists>addrs. ev_lookup_host ev (dns_target parsed host) = Ok addrs \<and>
          list_all (\<lambda>ip. \<not> is_always_blocked ip \<and>
            (is_allowlisted host (http_allowed_hosts (bundle_http (b_bundle b))) \<or> \<not> is_private_or_local ip)) addrs)))"
proof -
  have inv: "sys_inv lib (w_dsl web) (bw_env w) (b_bundle b) (b_state b) st"
    by (rule sys_reachable_inv [OF assms(1-3)])
  then have cfg: "cfg st = cfg (b_state b)" by (simp add: sys_inv_def same_setup_def)
  have pol: "pol_block_private_networks (boot_policy (cfg (b_state b)) (bw_env w))"
    using assms(5) cfg by (simp add: boot_policy_def)
  have "spec_ok (w_dsl web) (bw_env w) (boot_policy (cfg (b_state b)) (bw_env w)) (t_spec t)"
    using inv assms(6) by (auto simp: sys_inv_def specs_in_use_ok)
  then obtain parsed h where p: "url_parse (w_dsl web) u = Ok parsed" "scheme parsed \<in> {''http'', ''https''}"
    "url_host parsed = Some h" "\<forall>ip. host_ip h = Some ip \<longrightarrow> \<not> is_private_or_local ip"
    using http_spec_ok [OF _ assms(7) pol] by blast
  have block: "http_block_private (bundle_http (b_bundle b))"
    using boot_bundle_policy [OF assms(2)] assms(5) cfg by simp
  have "prepare lib (bundle_http (b_bundle b)) ev m u hs = Ok req"
    using assms(8) by (auto simp: http_execute_def split: sum.splits)
  note screened = prepare_screened [OF this block]
  have "\<exists>addrs. ev_lookup_host ev (dns_target parsed host) = Ok addrs \<and>
      list_all (\<lambda>ip. \<not> is_always_blocked ip \<and>
        (is_allowlisted host (http_allowed_hosts (bundle_http (b_bundle b))) \<or> \<not> is_private_or_local ip)) addrs"
    if "host_str parsed = Some host" "parse_ip host = None" for host
    using reject_private_dns_Ok [OF screened(1) _ that] p(1) assms(4)
    by (fastforce simp: list_all_iff ssrf_refuses_def dest: always_blocked_private split: if_splits)
  with p screened(2) show ?thesis by blast
qed

definition ex_raw_http :: RawJob where
  "ex_raw_http = ex_raw\<lparr>raw_trigger := TStr ''0 * * * * *'', ty := ''http'', raw_method := Some ''get'',
     raw_url := Some ''http://svc/''\<rparr>"

definition ex_lib_http :: dsl_lib where
  "ex_lib_http = ex_lib\<lparr>yaml_jobs := (\<lambda>_. Ok [(''ping'', ex_raw_http)])\<rparr>"

definition ex_spec_http :: JobSpec where
  "ex_spec_http = ex_spec\<lparr>trigger := Cron ''0 * * * * *'', kind := Http ''get'' ''http://svc/'' []\<rparr>"

lemma ex_http_load:
  "load_all_with_policy ex_lib_http env [''/'', ''dsl''] (Some ex_tree) ex_policy =
     Ok [\<lparr>spec = ex_spec_http, source_path = [''/'', ''dsl'', ''jobs.yaml'']\<rparr>]"
proof (rule ex_load_gen)
  have words: "to_ascii_lowercase ''0 * * * * *'' = ''0 * * * * *''" "to_ascii_uppercase ''get'' = ''GET''"
    by code_simp+
  have "parse_ip ''svc'' = None" by (simp add: parse_ip_eval)
  then have host: "host_ip (Domain ''svc'') = None" by (simp add: host_ip_def)
  show "into_spec ex_lib_http env ex_raw_http (job_key ''jobs'' ''ping'') [''/'', ''dsl'', ''jobs.yaml''] ex_policy = Ok ex_spec_http"
    by (simp add: into_spec_def http_kind_def validate_http_url_def build_http_headers_def ex_raw_http_def ex_raw_def
        ex_lib_http_def ex_lib_def ex_url_def ex_policy_def ex_spec_http_def ex_spec_def normalise_trigger_def
        words host job_key_def default_retry_policy_def KNOWN_METHODS_def)
qed (simp add: ex_lib_http_def)

theorem system_requests_screened_witness:
  "\<exists>b req res. boot ((ex_world ''production'' None)\<lparr>bw_lib := ex_lib_http\<rparr>) = Some (Ok b) \<and>
     http_execute (ex_http_lib\<lparr>dsl := ex_lib_http\<rparr>) (bundle_http (b_bundle b))
       (ex_http_events (Responded 200 [])) ''get'' ''http://svc/'' [] = (Some req, res) \<and> req_url req = ''http://svc/''"
proof -
  let ?w = "(ex_world ''production'' None)\<lparr>bw_lib := ex_lib_http\<rparr>" and ?lib = "ex_http_lib\<lparr>dsl := ex_lib_http\<rparr>"
  let ?web = "(ex_web_lib ''/'')\<lparr>w_dsl := ex_lib_http\<rparr>" and ?ev = "ex_http_events (Responded 200 [])"
  obtain b where b: "boot ?w = Some (Ok b)" "scheduler (b_state b) = register_all [ex_spec_http] scheduler_new"
    "cfg (b_state b) = ex_config None" "http_block_private (bundle_http (b_bundle b))"
    "http_allowed_hosts (bundle_http (b_bundle b)) = []"
    using ex_boot_lib [OF ex_http_load] by blast
  have lib: "bw_lib ?w = w_dsl ?web" "dsl ?lib = w_dsl ?web" by simp_all
  have block: "block_private_networks (security (cfg (b_state b)))"
    by (simp add: b(3) ex_config_def default_security_def)
  have t: "\<lparr>t_spec = ex_spec_http, t_state = 0, t_loop = True, t_extras = [], t_phase = Idle\<rparr>
      \<in> set (tasks (scheduler (b_state b)))"
    by (simp add: b(2) register_all_def register_def spawn_and_insert_def unregister_def scheduler_new_def
        ex_spec_http_def Let_def)
  have up: "to_uppercase ?lib ''get'' = ''GET''"
  proof -
    have "to_ascii_uppercase ''get'' = ''GET''" by code_simp
    then show ?thesis by (simp add: to_uppercase_def ascii_def)
  qed
  have ip: "parse_ip ''svc'' = None" by (simp add: parse_ip_eval)
  have parse: "url_parse ex_lib_http ''http://svc/'' = Ok ex_url" "host_str ex_url = Some ''svc''"
    by (simp_all add: ex_lib_http_def ex_lib_def ex_url_def)
  have "reject_private_dns ?lib (bundle_http (b_bundle b)) ?ev ''http://svc/'' = Ok ()"
    by (simp add: reject_private_dns_def parse ip b(5) is_allowlisted_def ssrf_refuses_def ex_http_events_def)
  then have "prepare ?lib (bundle_http (b_bundle b)) ?ev ''get'' ''http://svc/'' [] =
      Ok \<lparr>req_method = ''GET'', req_url = ''http://svc/'', req_headers = []\<rparr>"
    using up by (simp add: prepare_def b(4)) (simp add: ex_http_lib_def)
  then obtain res where run: "http_execute ?lib (bundle_http (b_bundle b)) ?ev ''get'' ''http://svc/'' [] =
      (Some \<lparr>req_method = ''GET'', req_url = ''http://svc/'', req_headers = []\<rparr>, res)"
    by (simp add: http_execute_def)
  have k: "kind (t_spec \<lparr>t_spec = ex_spec_http, t_state = 0, t_loop = True, t_extras = [], t_phase = Idle\<rparr>) =
      Http ''get'' ''http://svc/'' []" by (simp add: ex_spec_http_def)
  show ?thesis
    using system_requests_screened [OF sys_reachable.booted [OF b(1)] b(1) lib block t k run] b(1) run by blast
qed

text \<open>
  C11. What \<open>/execute\<close> lets a caller put into a child process: when the operator has not allowed
  dangerous overrides, a variable on the dangerous list has, in the process the triggered
  task starts, its configured baseline value or none; no query parameter reaches it.
\<close>

theorem overrides_never_dangerous:
  assumes "execute_job st grp job pairs = Some (st', Ok j)"
    and "\<not> allow_dangerous_env_overrides (security (cfg st))"
    and "kind (t_spec (last (tasks (scheduler st')))) = Exec argv allowed"
    and "shell_execute ex ev argv allowed (t_extras (last (tasks (scheduler st')))) = (Some cmd, res)"
    and "is_dangerous_env k"
  shows "map_of (cmd_env cmd) k = (if k \<in> set allowed then map_of (baseline_env ex) k else None)"
proof -
  have d: "dangerous_override st pairs = None"
    and t: "trigger_now (job_key grp job) pairs (scheduler st) = Some (Ok (scheduler st'))"
    using execute_job_cases [of st grp job pairs] assms(1) by auto
  have "t_extras (last (tasks (scheduler st'))) = pairs" by (rule trigger_now_extras [OF t])
  moreover have "map_of (rev pairs) k = None"
    using d assms(2,5) by (auto simp: dangerous_override_def find_None_iff map_of_eq_None_iff)
  ultimately show ?thesis
    using shell_execute_command [OF assms(4)] child_env_lookup [of "baseline_env ex" allowed pairs k]
    by (auto simp: shell_command_def split: list.splits)
qed

lemma ex_execute:
  "\<exists>st' j. execute_job (app_state_new default_config (spawn_and_insert ex_spec scheduler_new)) ''jobs'' ''ping'' [(''X'', ''1'')] =
     Some (st', Ok j) \<and> t_spec (last (tasks (scheduler st'))) = ex_spec \<and>
     t_extras (last (tasks (scheduler st'))) = [(''X'', ''1'')]"
proof -
  have x: "\<not> is_dangerous_env ''X''" by code_simp
  have k: "job_key ''jobs'' ''ping'' = key ex_spec" by (simp add: job_key_def ex_spec_def)
  have "\<exists>s'. trigger_now (key ex_spec) [(''X'', ''1'')] (spawn_and_insert ex_spec scheduler_new) = Some (Ok s') \<and>
      t_spec (last (tasks s')) = ex_spec \<and> t_extras (last (tasks s')) = [(''X'', ''1'')]"
    by (simp add: trigger_now_def begin_running_def spawn_and_insert_def scheduler_new_def ex_spec_def Let_def)
  then show ?thesis
    by (auto simp: execute_job_def bounded_query_def dangerous_override_def app_state_new_def default_config_def
        default_security_def default_max_query_params_def x k)
qed

theorem overrides_never_dangerous_witness:
  "\<exists>cmd res. shell_execute ex_shell (ex_shell_events (Some 5) []) [''echo'', ''hi''] [] [(''X'', ''1'')] = (Some cmd, res) \<and>
     map_of (cmd_env cmd) ''PATH'' = None"
proof -
  obtain st' j where e: "execute_job (app_state_new default_config (spawn_and_insert ex_spec scheduler_new)) ''jobs'' ''ping''
      [(''X'', ''1'')] = Some (st', Ok j)" "t_spec (last (tasks (scheduler st'))) = ex_spec"
    "t_extras (last (tasks (scheduler st'))) = [(''X'', ''1'')]" using ex_execute by blast
  obtain cmd res where run: "shell_execute ex_shell (ex_shell_events (Some 5) []) [''echo'', ''hi''] [] [(''X'', ''1'')] = (Some cmd, res)"
    by (auto simp: shell_execute_def shell_command_def)
  have "\<not> allow_dangerous_env_overrides (security (cfg (app_state_new default_config (spawn_and_insert ex_spec scheduler_new))))"
    by (simp add: app_state_new_def default_config_def default_security_def)
  moreover have "kind (t_spec (last (tasks (scheduler st')))) = Exec [''echo'', ''hi''] []"
    by (simp add: e(2)) (simp add: ex_spec_def)
  moreover have "is_dangerous_env ''PATH''" by code_simp
  ultimately show ?thesis using overrides_never_dangerous [OF e(1)] e(3) run by fastforce
qed

text \<open>
  C26. The stored history of a dispatch: whatever the database answers, at most one row per
  entry is stored, every stored row is that of an entry and carries the job's name and group,
  and what it stores of a response body is at most the configured cap and one truncation marker long. The
  marker counts at most eighteen times the bytes an executor reads at most from its peer or child, so the bound is one of
  the configuration alone, whatever an upstream or a child sends.
\<close>

theorem recorded_history_bounded:
  assumes "r \<in> set (record_all (postgres_record n ins) (fst (dispatch lib b s extras world)) [])"
  shows "(\<exists>e\<in>set (fst (dispatch lib b s extras world)). r = row_of n e) \<and>
    col_job_name r = name (key s) \<and> col_job_group r = group (key s) \<and>
    (\<forall>stored. col_response_body r = Some stored \<longrightarrow> length stored \<le> n + length (truncation_marker (18 * output_cap b))) \<and>
    length (record_all (postgres_record n ins) (fst (dispatch lib b s extras world)) []) \<le>
      length (fst (dispatch lib b s extras world))"
proof -
  obtain e where e: "e \<in> set (fst (dispatch lib b s extras world))" "r = row_of n e"
    using pg_rec.record_all_origin [OF assms] by auto
  have "length (truncate_response_body body n) \<le> n + length (truncation_marker (18 * output_cap b))"
    if "response_body e = Some body" for body
  proof -
    have "length (sanitize_for_persistence body) \<le> 18 * output_cap b"
      using dispatch_entry [OF e(1)] that sanitize_for_persistence_length [of body] by fastforce
    then show ?thesis
      using truncated_length [of body n] truncation_marker_length_mono by (meson add_left_mono le_trans)
  qed
  then show ?thesis
    using e dispatch_entry [OF e(1)]
      pg_rec.record_all_bounded [of n ins "fst (dispatch lib b s extras world)" "[]"]
    by (auto simp: row_of_def)
qed

theorem recorded_history_bounded_witness:
  "list_all (\<lambda>r. col_job_name r = ''ping'')
     (record_all (postgres_record 10 (\<lambda>_. Ok ())) (fst (dispatch ex_http_lib (ex_bundle True) ex_spec [] (\<lambda>_. ex_attempt))) [])
   \<and> record_all (postgres_record 10 (\<lambda>_. Ok ())) (fst (dispatch ex_http_lib (ex_bundle True) ex_spec [] (\<lambda>_. ex_attempt))) [] \<noteq> []"
  using recorded_history_bounded [of _ 10 "\<lambda>_. Ok ()" ex_http_lib "ex_bundle True" ex_spec "[]" "\<lambda>_. ex_attempt"]
    postgres_records_all [of "\<lambda>_. Ok ()" 10 "fst (dispatch ex_http_lib (ex_bundle True) ex_spec [] (\<lambda>_. ex_attempt))" "[]"]
  by (auto simp: list_all_iff ex_spec_def is_ok_def) (simp add: dispatch_def ex_bundle_def offline_stub_def)

end
